(* ===== verification/Prelude.thy ===== *)
theory Prelude
  imports Main "HOL-Library.AList" "HOL-Library.Word" "HOL-Library.Sublist"
begin

text \<open>
  What every component shares: the error values of the driver, programs as functions on an
  explicit state, and the compositional rules with which effects of a whole handler are derived
  from the effects of its calls.

  A Go function that returns \<open>(T, error)\<close> is a program whose result is \<open>goerr + T\<close>; a run-time
  panic (nil dereference, index out of range) is not an error value, it leaves the function, so it
  is a third outcome, \<open>Panicked\<close>, that every later statement passes on.
\<close>

section \<open>Errors\<close>

text \<open>The status codes of gRPC which the driver returns.\<close>

datatype grpc_code = Internal | InvalidArgument | Unimplemented | Unavailable

text \<open>The kernel's error numbers that the file operations below can meet.\<close>

datatype errno = ENOENT | EISDIR | ENOTDIR | ENOTEMPTY | EINVAL | EIO | EACCES

text \<open>
  An error value. The first four are the sentinel errors of \<^verbatim>\<open>pkg/util/jsonrpc.go\<close>, the next two
  sentinels of package \<open>os\<close>. \<open>ErrorString m\<close> is \<open>errors.New(m)\<close> or \<open>fmt.Errorf\<close> without a wrapping
  verb, \<open>Wrapped p e\<close> is \<open>fmt.Errorf\<close> of a format that ends in the wrapping verb (prefix \<open>p\<close>, wrapped
  error \<open>e\<close>), \<open>PathError\<close> is \<open>*os.PathError\<close>, \<open>Status\<close> is \<open>status.Error\<close> of gRPC.
\<close>

datatype goerr =
    ErrJSONNoSpaceLeft
  | ErrJSONNoSuchDevice
  | ErrVolumeDeleted
  | ErrVolumeUnpublished
  | ErrNotExist
  | ErrDeadlineExceeded
  | ErrorString string
  | Wrapped string goerr
  | PathError string string errno
  | Status grpc_code string

fun code_name :: "grpc_code \<Rightarrow> string" where
  "code_name Internal = ''Internal''"
| "code_name InvalidArgument = ''InvalidArgument''"
| "code_name Unimplemented = ''Unimplemented''"
| "code_name Unavailable = ''Unavailable''"

fun errno_text :: "errno \<Rightarrow> string" where
  "errno_text ENOENT = ''no such file or directory''"
| "errno_text EISDIR = ''is a directory''"
| "errno_text ENOTDIR = ''not a directory''"
| "errno_text ENOTEMPTY = ''directory not empty''"
| "errno_text EINVAL = ''invalid argument''"
| "errno_text EIO = ''input/output error''"
| "errno_text EACCES = ''permission denied''"

text \<open>The text of an error, Go's \<open>err.Error()\<close>.\<close>

fun err_msg :: "goerr \<Rightarrow> string" where
  "err_msg ErrJSONNoSpaceLeft = ''json: No space left''"
| "err_msg ErrJSONNoSuchDevice = ''json: No such device''"
| "err_msg ErrVolumeDeleted = ''volume deleted''"
| "err_msg ErrVolumeUnpublished = ''volume not published''"
| "err_msg ErrNotExist = ''file does not exist''"
| "err_msg ErrDeadlineExceeded = ''i/o timeout''"
| "err_msg (ErrorString m) = m"
| "err_msg (Wrapped p e) = p @ err_msg e"
| "err_msg (PathError op p n) = op @ '' '' @ p @ '': '' @ errno_text n"
| "err_msg (Status c m) = ''rpc error: code = '' @ code_name c @ '' desc = '' @ m"

text \<open>
  \<open>errors.Is\<close>: equality with the target along the chain of wrapped errors (the driver compares with
  sentinels only), and \<open>os.IsNotExist\<close>, which looks through a path error but not through a wrapping
  format.
\<close>

fun err_is :: "goerr \<Rightarrow> goerr \<Rightarrow> bool" where
  "err_is (Wrapped p e) t \<longleftrightarrow> Wrapped p e = t \<or> err_is e t"
| "err_is e t \<longleftrightarrow> e = t"

fun is_not_exist :: "goerr \<Rightarrow> bool" where
  "is_not_exist ErrNotExist = True"
| "is_not_exist (PathError op p n) = (n = ENOENT)"
| "is_not_exist _ = False"

section \<open>Programs\<close>

datatype 'a outcome = Ret 'a | Panicked string

type_synonym ('s, 'a) prog = "'s \<Rightarrow> 'a outcome \<times> 's"

named_theorems prog_simps "symbolic execution of programs"

definition ret :: "'a \<Rightarrow> ('s, 'a) prog" where
  "ret a = (\<lambda>s. (Ret a, s))"

definition panic :: "string \<Rightarrow> ('s, 'a) prog" where
  "panic p = (\<lambda>s. (Panicked p, s))"

text \<open>Sequencing: the second program runs with the result of the first unless that panicked.\<close>

definition bindP :: "('s, 'a) prog \<Rightarrow> ('a \<Rightarrow> ('s, 'b) prog) \<Rightarrow> ('s, 'b) prog" where
  "bindP m f = (\<lambda>s. case m s of (Ret a, t) \<Rightarrow> f a t | (Panicked p, t) \<Rightarrow> (Panicked p, t))"

text \<open>An error return, and \<open>if err != nil { return err }\<close> after a call.\<close>

definition throw :: "goerr \<Rightarrow> ('s, goerr + 'a) prog" where
  "throw e = ret (Inl e)"

definition bindE ::
  "('s, goerr + 'a) prog \<Rightarrow> ('a \<Rightarrow> ('s, goerr + 'b) prog) \<Rightarrow> ('s, goerr + 'b) prog" where
  "bindE m f = bindP m (\<lambda>r. case r of Inl e \<Rightarrow> throw e | Inr a \<Rightarrow> f a)"

text \<open>The same with the error rewritten on its way out.\<close>

definition mapErr :: "(goerr \<Rightarrow> goerr) \<Rightarrow> ('s, goerr + 'a) prog \<Rightarrow> ('s, goerr + 'a) prog" where
  "mapErr g m = bindP m (\<lambda>r. ret (case r of Inl e \<Rightarrow> Inl (g e) | Inr a \<Rightarrow> Inr a))"

text \<open>\<open>defer fin()\<close>: \<open>fin\<close> runs after the body whether it returned or panicked.\<close>

definition deferP :: "('s, unit) prog \<Rightarrow> ('s, 'a) prog \<Rightarrow> ('s, 'a) prog" where
  "deferP fin m = (\<lambda>s. case m s of (r, t) \<Rightarrow>
     (case fin t of (Ret _, u) \<Rightarrow> (r, u) | (Panicked p, u) \<Rightarrow> (Panicked p, u)))"

text \<open>\<open>status.Error(codes.Internal, err.Error())\<close>, the wrapping most handlers apply.\<close>

definition toInternal :: "goerr \<Rightarrow> goerr" where
  "toInternal e = Status Internal (err_msg e)"

text \<open>A loop over the elements of a slice, for its effects.\<close>

fun forP :: "('a \<Rightarrow> ('s, unit) prog) \<Rightarrow> 'a list \<Rightarrow> ('s, unit) prog" where
  "forP f [] = ret ()"
| "forP f (a # as) = bindP (f a) (\<lambda>_. forP f as)"

text \<open>
  For evaluation the combinators are unfolded only when they are applied to a state, so that a program is
  executed rather than simplified under its binders.
\<close>

lemmas prog_code [code] = ret_def [THEN fun_cong] panic_def [THEN fun_cong] throw_def [THEN fun_cong]
  bindP_def [THEN fun_cong] bindE_def [THEN fun_cong] mapErr_def [THEN fun_cong] deferP_def [THEN fun_cong]

lemma ret_run [prog_simps]: "ret a s = (Ret a, s)"
  by (simp add: ret_def)

lemma panic_run [prog_simps]: "panic p s = (Panicked p, s)"
  by (simp add: panic_def)

lemma throw_run [prog_simps]: "throw e s = (Ret (Inl e), s)"
  by (simp add: throw_def ret_def)

lemma bindP_Ret [prog_simps]: "m s = (Ret a, t) \<Longrightarrow> bindP m f s = f a t"
  by (simp add: bindP_def)

lemma bindP_Panicked [prog_simps]: "m s = (Panicked p, t) \<Longrightarrow> bindP m f s = (Panicked p, t)"
  by (simp add: bindP_def)

lemma bindE_Inr [prog_simps]: "m s = (Ret (Inr a), t) \<Longrightarrow> bindE m f s = f a t"
  by (simp add: bindE_def bindP_def)

lemma bindE_Inl [prog_simps]: "m s = (Ret (Inl e), t) \<Longrightarrow> bindE m f s = (Ret (Inl e), t)"
  by (simp add: bindE_def bindP_def throw_def ret_def)

lemma bindE_Panicked [prog_simps]: "m s = (Panicked p, t) \<Longrightarrow> bindE m f s = (Panicked p, t)"
  by (simp add: bindE_def bindP_def)

lemma mapErr_Inr [prog_simps]: "m s = (Ret (Inr a), t) \<Longrightarrow> mapErr g m s = (Ret (Inr a), t)"
  by (simp add: mapErr_def bindP_def ret_def)

lemma mapErr_Inl [prog_simps]: "m s = (Ret (Inl e), t) \<Longrightarrow> mapErr g m s = (Ret (Inl (g e)), t)"
  by (simp add: mapErr_def bindP_def ret_def)

lemma mapErr_Panicked [prog_simps]: "m s = (Panicked p, t) \<Longrightarrow> mapErr g m s = (Panicked p, t)"
  by (simp add: mapErr_def bindP_def)

lemma deferP_run [prog_simps]:
  "m s = (r, t) \<Longrightarrow> fin t = (Ret (), u) \<Longrightarrow> deferP fin m s = (r, u)"
  by (simp add: deferP_def)

text \<open>Inversion of a sequence that returned, for proofs that start from a result.\<close>

lemma bindP_RetE:
  assumes "bindP m f s = (Ret b, u)"
  obtains a t where "m s = (Ret a, t)" "f a t = (Ret b, u)"
  using assms by (auto simp: bindP_def split: prod.splits outcome.splits)

lemma bindE_InrE:
  assumes "bindE m f s = (Ret (Inr b), u)"
  obtains a t where "m s = (Ret (Inr a), t)" "f a t = (Ret (Inr b), u)"
  using assms
  by (auto simp: bindE_def bindP_def throw_def ret_def split: prod.splits outcome.splits sum.splits)

lemma bindE_InlE:
  assumes "bindE m f s = (Ret (Inl e), u)"
  obtains "m s = (Ret (Inl e), u)"
  | a t where "m s = (Ret (Inr a), t)" "f a t = (Ret (Inl e), u)"
  using assms
  by (auto simp: bindE_def bindP_def throw_def ret_def split: prod.splits outcome.splits sum.splits)

lemma bindE_ret_InrE:
  assumes "bindE (ret x) f s = (Ret (Inr b), u)"
  obtains a where "x = Inr a" "f a s = (Ret (Inr b), u)"
  using assms by (cases x) (auto simp: prog_simps)

lemma mapErr_InrE:
  assumes "mapErr g m s = (Ret (Inr b), u)"
  shows "m s = (Ret (Inr b), u)"
  using assms by (auto simp: mapErr_def bindP_def ret_def split: prod.splits outcome.splits sum.splits)

section \<open>Effects of programs\<close>

text \<open>
  \<open>keeps R m\<close>: whatever state \<open>m\<close> starts in, the state it ends in is related to it by \<open>R\<close>. For a
  reflexive and transitive \<open>R\<close> this composes along the statements of a program; the locale proves
  the composition rules once, its interpretations are the effects the later theories track (the
  files are not touched, only reading requests are sent, and so on).
\<close>

definition keeps :: "('s \<Rightarrow> 's \<Rightarrow> bool) \<Rightarrow> ('s, 'a) prog \<Rightarrow> bool" where
  "keeps R m \<longleftrightarrow> (\<forall>s. R s (snd (m s)))"

lemma keepsI: "(\<And>s r t. m s = (r, t) \<Longrightarrow> R s t) \<Longrightarrow> keeps R m"
  by (simp add: keeps_def) (metis prod.collapse)

lemma keepsD: "keeps R m \<Longrightarrow> m s = (r, t) \<Longrightarrow> R s t"
  by (metis keeps_def snd_conv)

locale effect_rel =
  fixes R :: "'s \<Rightarrow> 's \<Rightarrow> bool"
  assumes R_refl: "R s s"
    and R_trans: "R s t \<Longrightarrow> R t u \<Longrightarrow> R s u"
begin

lemma keeps_ret: "keeps R (ret a)"
  by (simp add: keeps_def ret_def R_refl)

lemma keeps_panic: "keeps R (panic p)"
  by (simp add: keeps_def panic_def R_refl)

lemma keeps_throw: "keeps R (throw e)"
  by (simp add: throw_def keeps_ret)

lemma keeps_bindP_result:
  assumes "keeps R m" and "\<And>a s t. m s = (Ret a, t) \<Longrightarrow> keeps R (f a)"
  shows "keeps R (bindP m f)"
proof (rule keepsI)
  fix s r t
  assume run: "bindP m f s = (r, t)"
  obtain q u where m: "m s = (q, u)" by (cases "m s")
  then have su: "R s u" using assms(1) by (rule keepsD [rotated])
  show "R s t"
  proof (cases q)
    case (Ret a)
    then have "f a u = (r, t)" and "keeps R (f a)" using run m assms(2) by (auto simp: bindP_def)
    then have "R u t" by (rule keepsD [rotated])
    with su show ?thesis by (rule R_trans)
  next
    case (Panicked p)
    then show ?thesis using run m su by (simp add: bindP_def)
  qed
qed

lemma keeps_bindP: "keeps R m \<Longrightarrow> (\<And>a. keeps R (f a)) \<Longrightarrow> keeps R (bindP m f)"
  by (rule keeps_bindP_result)

lemma keeps_sum:
  "(\<And>e. keeps R (f e)) \<Longrightarrow> (\<And>a. keeps R (g a)) \<Longrightarrow> keeps R (case r of Inl e \<Rightarrow> f e | Inr a \<Rightarrow> g a)"
  by (cases r) auto

lemma keeps_option:
  "keeps R m \<Longrightarrow> (\<And>a. keeps R (g a)) \<Longrightarrow> keeps R (case r of None \<Rightarrow> m | Some a \<Rightarrow> g a)"
  by (cases r) auto

lemma keeps_list:
  "keeps R m \<Longrightarrow> (\<And>a as. keeps R (g a as)) \<Longrightarrow> keeps R (case r of [] \<Rightarrow> m | a # as \<Rightarrow> g a as)"
  by (cases r) auto

lemma keeps_prod: "(\<And>a b. keeps R (g a b)) \<Longrightarrow> keeps R (case r of (a, b) \<Rightarrow> g a b)"
  by (cases r) auto

lemma keeps_if: "keeps R m \<Longrightarrow> keeps R n \<Longrightarrow> keeps R (if b then m else n)"
  by simp

lemma keeps_Let: "(\<And>a. keeps R (g a)) \<Longrightarrow> keeps R (let a = r in g a)"
  by simp

lemma keeps_bindE: "keeps R m \<Longrightarrow> (\<And>a. keeps R (f a)) \<Longrightarrow> keeps R (bindE m f)"
  unfolding bindE_def by (intro keeps_bindP keeps_sum keeps_throw)

lemma keeps_bindE_result:
  assumes "keeps R m" and "\<And>a s t. m s = (Ret (Inr a), t) \<Longrightarrow> keeps R (f a)"
  shows "keeps R (bindE m f)"
  unfolding bindE_def
proof (rule keeps_bindP_result [OF assms(1)])
  fix r s t
  assume "m s = (Ret r, t)"
  then show "keeps R (case r of Inl e \<Rightarrow> throw e | Inr a \<Rightarrow> f a)"
    using assms(2) by (cases r) (auto intro: keeps_throw)
qed

lemma keeps_mapErr: "keeps R m \<Longrightarrow> keeps R (mapErr g m)"
  unfolding mapErr_def by (intro keeps_bindP keeps_ret)

lemma keeps_deferP:
  assumes "keeps R fin" and "keeps R m"
  shows "keeps R (deferP fin m)"
proof (rule keepsI)
  fix s r t
  assume run: "deferP fin m s = (r, t)"
  obtain q u where m: "m s = (q, u)" by (cases "m s")
  obtain q' v where fin: "fin u = (q', v)" by (cases "fin u")
  have "v = t" using run m fin by (cases q') (auto simp: deferP_def)
  moreover have "R s u" using assms(2) m by (rule keepsD)
  moreover have "R u v" using assms(1) fin by (rule keepsD)
  ultimately show "R s t" by (metis R_trans)
qed

lemma keeps_forP: "(\<And>a. keeps R (f a)) \<Longrightarrow> keeps R (forP f as)"
  by (induction as) (auto intro: keeps_ret keeps_bindP)

lemma keeps_forP_set: "(\<And>a. a \<in> set as \<Longrightarrow> keeps R (f a)) \<Longrightarrow> keeps R (forP f as)"
  by (induction as) (auto intro: keeps_ret keeps_bindP)

lemmas keeps_rules = keeps_ret keeps_panic keeps_throw keeps_bindP keeps_bindE keeps_mapErr
  keeps_deferP keeps_forP keeps_sum keeps_option keeps_list keeps_prod keeps_if keeps_Let

end

section \<open>Encodings\<close>

text \<open>
  A textual encoding and its reader. The identifiers the driver hands out, its decimal numbers and
  its JSON documents are all such pairs: what was written within the domain is read back.
\<close>

locale codec =
  fixes enc :: "'a \<Rightarrow> 'c"
    and dec :: "'c \<Rightarrow> goerr + 'a"
    and dom_ok :: "'a \<Rightarrow> bool"
  assumes dec_enc: "dom_ok a \<Longrightarrow> dec (enc a) = Inr a"
begin

lemma enc_inj: "dom_ok a \<Longrightarrow> dom_ok b \<Longrightarrow> enc a = enc b \<Longrightarrow> a = b"
  by (metis dec_enc sum.inject(2))

lemma dec_error_not_enc: "dec c = Inl e \<Longrightarrow> dom_ok a \<Longrightarrow> enc a \<noteq> c"
  by (metis dec_enc sum.distinct(1))

end

section \<open>Association lists as Go maps\<close>

text \<open>
  A Go map is an association list that \<^const>\<open>AList.update\<close> builds, so its keys are distinct; only
  \<^const>\<open>map_of\<close> observes it. Looking up a missing key yields the zero value.
\<close>

type_synonym gomap = "(string \<times> string) list"

definition get0 :: "gomap \<Rightarrow> string \<Rightarrow> string" where
  "get0 m k = (case map_of m k of None \<Rightarrow> [] | Some v \<Rightarrow> v)"

definition merge_into :: "('k \<times> 'v) list \<Rightarrow> ('k \<times> 'v) list \<Rightarrow> ('k \<times> 'v) list" where
  \<comment> \<open>\<open>for k, v := range src { dst[k] = v }\<close>\<close>
  "merge_into src dst = fold (\<lambda>(k, v). AList.update k v) src dst"

lemma map_of_update [simp]: "map_of (AList.update k v m) = (map_of m)(k \<mapsto> v)"
  by (simp add: update_conv' fun_eq_iff)

lemma map_of_merge_into:
  "distinct (map fst src) \<Longrightarrow> map_of (merge_into src dst) = map_of dst ++ map_of src"
proof (induction src arbitrary: dst)
  case Nil
  then show ?case by (simp add: merge_into_def)
next
  case (Cons kv src)
  obtain k v where kv: "kv = (k, v)" by (cases kv)
  have "map_of (merge_into (kv # src) dst) = map_of (AList.update k v dst) ++ map_of src"
    using Cons by (simp add: merge_into_def kv)
  also have "\<dots> = map_of dst ++ map_of (kv # src)"
    using Cons.prems kv by (simp add: map_add_upd_left dom_map_of_conv_image_fst)
  finally show ?case .
qed

lemma distinct_merge_into:
  "distinct (map fst dst) \<Longrightarrow> distinct (map fst (merge_into src dst))"
  by (induction src arbitrary: dst) (auto simp: merge_into_def distinct_update)

end
