(* ===== verification/GoStrings.thy ===== *)
theory GoStrings
  imports Prelude
begin

text \<open>
  The parts of Go's packages \<open>strings\<close> and \<open>strconv\<close> that the driver uses, on byte strings, with the
  laws its identifiers and numbers rest on: splitting inverts joining, and reading a decimal number
  inverts writing it.
\<close>

section \<open>Searching and splitting\<close>

text \<open>\<open>strings.Cut\<close>: the text before and after the leftmost occurrence of a separator.\<close>

fun Cut :: "string \<Rightarrow> string \<Rightarrow> (string \<times> string) option" where
  "Cut sep [] = (if sep = [] then Some ([], []) else None)"
| "Cut sep (c # s) =
     (if prefix sep (c # s) then Some ([], drop (length sep) (c # s))
      else (case Cut sep s of None \<Rightarrow> None | Some (a, b) \<Rightarrow> Some (c # a, b)))"

definition Contains :: "string \<Rightarrow> string \<Rightarrow> bool" where
  "Contains s sub = (Cut sub s \<noteq> None)"

definition HasPrefix :: "string \<Rightarrow> string \<Rightarrow> bool" where
  "HasPrefix s p = prefix p s"

definition TrimPrefix :: "string \<Rightarrow> string \<Rightarrow> string" where
  "TrimPrefix s p = (if prefix p s then drop (length p) s else s)"

lemma Cut_Some: "Cut sep s = Some (a, b) \<Longrightarrow> s = a @ sep @ b"
proof (induction s arbitrary: a b)
  case Nil
  then show ?case by (simp split: if_splits)
next
  case (Cons c s)
  then show ?case
    by (auto split: if_splits option.splits simp: prefix_def)
qed

lemma Cut_None: "Cut sep s = None \<longleftrightarrow> \<not> sublist sep s"
  by (induction s) (auto simp: sublist_Cons_right split: option.splits)

lemma Contains_sublist: "Contains s sub \<longleftrightarrow> sublist sub s"
  by (simp add: Contains_def Cut_None)

lemma Contains_append: "Contains (a @ sub @ b) sub"
  by (auto simp: Contains_sublist sublist_def)

lemma Cut_single: "c \<notin> set a \<Longrightarrow> Cut [c] (a @ c # b) = Some (a, b)"
  by (induction a) auto

lemma Cut_single_None: "Cut [c] s = None \<longleftrightarrow> c \<notin> set s"
  by (induction s) (auto split: option.splits)

text \<open>
  \<open>strings.Split\<close> for a non-empty separator. (Go explodes the text for an empty separator; the driver
  never passes one, the guard only makes the function total.)
\<close>

function Split :: "string \<Rightarrow> string \<Rightarrow> string list" where
  "Split sep s =
     (if sep = [] then [s]
      else (case Cut sep s of None \<Rightarrow> [s] | Some (a, b) \<Rightarrow> a # Split sep b))"
  by pat_completeness auto
termination
proof (relation "measure (\<lambda>(sep, s). length s)")
  fix sep s :: string and x a b
  assume "sep \<noteq> []" and "Cut sep s = Some x" and "(a, b) = x"
  then have "s = a @ sep @ b" by (auto dest: Cut_Some)
  with \<open>sep \<noteq> []\<close> show "((sep, b), (sep, s)) \<in> measure (\<lambda>(sep, s). length s)"
    by (cases sep) auto
qed auto

declare Split.simps [simp del]

fun Join :: "string \<Rightarrow> string list \<Rightarrow> string" where
  "Join sep [] = []"
| "Join sep [x] = x"
| "Join sep (x # y # xs) = x @ sep @ Join sep (y # xs)"

lemma Split_not_Nil: "Split sep s \<noteq> []"
  by (subst Split.simps) (auto split: option.splits)

lemma Split_absent: "\<not> sublist sep s \<Longrightarrow> Split sep s = [s]"
  by (subst Split.simps) (simp add: Cut_None [symmetric])

lemma Split_single_absent: "c \<notin> set s \<Longrightarrow> Split [c] s = [s]"
  by (subst Split.simps) (simp add: Cut_single_None [symmetric])

lemma Split_single: "c \<notin> set a \<Longrightarrow> Split [c] (a @ c # b) = a # Split [c] b"
  by (subst Split.simps) (simp add: Cut_single)

lemma Join_Cons: "xs \<noteq> [] \<Longrightarrow> Join sep (x # xs) = x @ sep @ Join sep xs"
  by (cases xs) auto

lemma Join_Split: "Join sep (Split sep s) = s"
proof (induction sep s rule: Split.induct)
  case (1 sep s)
  show ?case
  proof (cases "sep = [] \<or> Cut sep s = None")
    case True
    then show ?thesis by (subst Split.simps) auto
  next
    case False
    then obtain a b where cut: "Cut sep s = Some (a, b)" and sep: "sep \<noteq> []" by fastforce
    then have "Join sep (Split sep b) = b" using "1.IH" by blast
    moreover have "Split sep s = a # Split sep b" using cut sep by (subst Split.simps) simp
    ultimately show ?thesis using Cut_Some [OF cut] by (simp add: Join_Cons Split_not_Nil)
  qed
qed

lemma Split_Join:
  "xs \<noteq> [] \<Longrightarrow> \<forall>x \<in> set xs. c \<notin> set x \<Longrightarrow> Split [c] (Join [c] xs) = xs"
proof (induction xs)
  case Nil
  then show ?case by simp
next
  case (Cons x xs)
  show ?case
  proof (cases "xs = []")
    case True
    then show ?thesis using Cons.prems by (simp add: Split_single_absent)
  next
    case False
    then show ?thesis using Cons by (simp add: Join_Cons Split_single)
  qed
qed

lemma Split_parts_absent: "x \<in> set (Split [c] s) \<Longrightarrow> c \<notin> set x"
proof (induction "[c]" s arbitrary: x rule: Split.induct)
  case (1 s)
  show ?case
  proof (cases "Cut [c] s")
    case None
    then have "c \<notin> set s" and "Split [c] s = [s]"
      by (simp_all add: Cut_single_None Split_single_absent)
    then show ?thesis using "1.prems" by simp
  next
    case (Some ab)
    then obtain a b where cut: "Cut [c] s = Some (a, b)" by (cases ab) auto
    have "c \<notin> set a" using cut
    proof (induction s arbitrary: a)
      case (Cons d s)
      then show ?case by (auto split: if_splits option.splits)
    qed simp
    moreover have "x = a \<or> x \<in> set (Split [c] b)"
      using "1.prems" cut by (subst (asm) Split.simps) simp
    ultimately show ?thesis using "1.hyps" cut by blast
  qed
qed

text \<open>The parts of a split by one character determine the text, and the other way round.\<close>

lemma Split_eq_iff:
  "Split [c] s = xs \<longleftrightarrow> xs \<noteq> [] \<and> (\<forall>x \<in> set xs. c \<notin> set x) \<and> s = Join [c] xs"
  by (metis Join_Split Split_Join Split_not_Nil Split_parts_absent)

lemma Split_length_count: "length (Split [c] s) = Suc (count_list s c)"
proof -
  have "\<forall>x \<in> set xs. c \<notin> set x \<Longrightarrow> xs \<noteq> [] \<Longrightarrow> Suc (count_list (Join [c] xs) c) = length xs" for xs
  proof (induction xs)
    case (Cons x xs)
    then show ?case by (cases xs) (auto simp: count_notin)
  qed simp
  then show ?thesis by (metis Join_Split Split_not_Nil Split_parts_absent)
qed

section \<open>Case and space\<close>

text \<open>
  \<open>strings.ToLower\<close> and the white space of \<open>strings.TrimSpace\<close> and \<open>strings.Fields\<close>. The driver searches
  the lowered text for ASCII patterns only, so the letters that matter are those whose lower case is
  ASCII: \<open>A\<close> to \<open>Z\<close>, the dotted capital I (U+0130) and the Kelvin sign (U+212A). Other letters are left as
  they are, and only ASCII space counts as space.
\<close>

definition lower_char :: "char \<Rightarrow> char" where
  "lower_char c = (let n = of_char c :: nat in if 65 \<le> n \<and> n \<le> 90 then char_of (n + 32) else c)"

fun ToLower :: "string \<Rightarrow> string" where
  "ToLower [] = []"
| "ToLower (c # s) =
     (if c = CHR 0xC4 \<and> prefix [CHR 0xB0] s then CHR ''i'' # ToLower (drop 1 s)
      else if c = CHR 0xE2 \<and> prefix [CHR 0x84, CHR 0xAA] s then CHR ''k'' # ToLower (drop 2 s)
      else lower_char c # ToLower s)"

definition is_space :: "char \<Rightarrow> bool" where
  "is_space c = (let n = of_char c :: nat in n = 32 \<or> (9 \<le> n \<and> n \<le> 13))"

definition TrimSpace :: "string \<Rightarrow> string" where
  "TrimSpace s = rev (dropWhile is_space (rev (dropWhile is_space s)))"

text \<open>\<open>strings.Fields\<close>: the maximal runs of characters that are not space.\<close>

function Fields :: "string \<Rightarrow> string list" where
  "Fields s =
     (case dropWhile is_space s of
        [] \<Rightarrow> []
      | c # t \<Rightarrow> takeWhile (\<lambda>x. \<not> is_space x) (c # t) # Fields (dropWhile (\<lambda>x. \<not> is_space x) (c # t)))"
  by pat_completeness auto
termination
proof (relation "measure length")
  fix s c and t :: string
  assume eq: "dropWhile is_space s = c # t"
  then have "\<not> is_space c" by (simp add: dropWhile_eq_Cons_conv)
  then have "length (dropWhile (\<lambda>x. \<not> is_space x) (c # t)) \<le> length t"
    by (simp add: length_dropWhile_le)
  also have "length t < length s" using eq length_dropWhile_le [of is_space s] by simp
  finally show "(dropWhile (\<lambda>x. \<not> is_space x) (c # t), s) \<in> measure length" by simp
qed auto

declare Fields.simps [simp del]

lemma Fields_Nil_iff: "Fields s = [] \<longleftrightarrow> (\<forall>c \<in> set s. is_space c)"
proof -
  have "Fields s = [] \<longleftrightarrow> dropWhile is_space s = []"
    by (subst Fields.simps) (simp split: list.split del: dropWhile_eq_Nil_conv)
  then show ?thesis by (simp add: dropWhile_eq_Nil_conv)
qed

lemma lower_char_idem: "lower_char (lower_char c) = lower_char c"
  by (auto simp: lower_char_def Let_def)

lemma ToLower_plain:
  "CHR 0xC4 \<notin> set a \<Longrightarrow> CHR 0xE2 \<notin> set a \<Longrightarrow> ToLower (a @ b) = map lower_char a @ ToLower b"
  by (induction a) auto

text \<open>A pattern whose first character does not occur in a prefix is searched for behind it.\<close>

lemma sublist_behind:
  assumes "c \<notin> set p"
  shows "sublist (c # sub) (p @ s) \<longleftrightarrow> sublist (c # sub) s"
proof -
  have "\<not> sublist (c # sub) p" using assms by (auto dest: set_mono_sublist)
  moreover have "\<not> (\<exists>xs1 xs2. c # sub = xs1 @ xs2 \<and> suffix xs1 p \<and> prefix xs2 s) \<or> prefix (c # sub) s"
    using assms by (metis append_Nil list.sel(1) hd_append2 hd_in_set set_mono_suffix subsetD)
  ultimately show ?thesis by (auto simp: sublist_append)
qed

text \<open>Where a separator of several characters is first found.\<close>

lemma Cut_at:
  assumes "sep \<noteq> []" and "\<not> sublist sep (a @ butlast sep)"
  shows "Cut sep (a @ sep @ b) = Some (a, b)"
  using assms(2)
proof (induction a)
  case Nil
  then show ?case using assms(1) by (cases sep) auto
next
  case (Cons c a)
  have "\<not> prefix sep (c # a @ sep @ b)"
  proof
    assume "prefix sep (c # a @ sep @ b)"
    moreover have "prefix (c # a @ butlast sep) (c # a @ sep @ b)"
      by (metis append_butlast_last_id append.assoc append_Cons assms(1) prefixI)
    moreover have "length sep \<le> length (c # a @ butlast sep)" using assms(1) by simp
    ultimately have "prefix sep (c # a @ butlast sep)" by (rule prefix_length_prefix)
    with Cons.prems show False by (auto dest: prefix_imp_sublist)
  qed
  moreover have "\<not> sublist sep (a @ butlast sep)" using Cons.prems by (auto simp: sublist_Cons_right)
  ultimately show ?case using Cons.IH by simp
qed

lemma Split_at:
  "sep \<noteq> [] \<Longrightarrow> \<not> sublist sep (a @ butlast sep) \<Longrightarrow> Split sep (a @ sep @ b) = a # Split sep b"
  by (subst Split.simps) (simp add: Cut_at)

section \<open>Decimal numbers\<close>

text \<open>
  \<open>strconv.Itoa\<close> and \<open>strconv.FormatInt(n, 10)\<close>. A Go \<open>int\<close> or \<open>int64\<close> is an HOL \<open>int\<close> in the range of
  the 64-bit two's complement numbers; where the code computes, \<open>wrap64\<close> brings the result back into
  that range.
\<close>

definition int64_range :: "int \<Rightarrow> bool" where
  "int64_range n \<longleftrightarrow> - (2 ^ 63) \<le> n \<and> n < 2 ^ 63"

definition wrap64 :: "int \<Rightarrow> int" where
  "wrap64 n = sint (word_of_int n :: 64 word)"

lemma wrap64_id: "int64_range n \<Longrightarrow> wrap64 n = n"
  unfolding wrap64_def int64_range_def
  by (simp add: signed_of_int signed_take_bit_int_eq_self)

lemma wrap64_range: "int64_range (wrap64 n)"
  using sint_greater_eq [of "word_of_int n :: 64 word"] sint_less [of "word_of_int n :: 64 word"]
  by (simp add: wrap64_def int64_range_def)

lemma wrap64_mod: "wrap64 n = (n + 2 ^ 63) mod 2 ^ 64 - 2 ^ 63"
  by (simp add: wrap64_def signed_of_int signed_take_bit_eq_take_bit_shift take_bit_eq_mod add.commute)

fun digit_char :: "nat \<Rightarrow> char" where
  "digit_char d = char_of (48 + d)"

fun nat_digits :: "nat \<Rightarrow> string" where
  "nat_digits n =
     (if n < 10 then [digit_char n] else nat_digits (n div 10) @ [digit_char (n mod 10)])"

declare nat_digits.simps [simp del]

definition Itoa :: "int \<Rightarrow> string" where
  "Itoa n = (if n < 0 then CHR 0x2D # nat_digits (nat (- n)) else nat_digits (nat n))"

definition digit_val :: "char \<Rightarrow> nat option" where
  "digit_val c = (let n = of_char c :: nat in if 48 \<le> n \<and> n \<le> 57 then Some (n - 48) else None)"

text \<open>
  \<open>strconv.ParseUint\<close> in base 10, 64 bits, after the sign: the first character that is no digit is a
  syntax error, the first digit that takes the value past the largest 64-bit number a range error.
\<close>

fun parse_digits :: "string \<Rightarrow> nat \<Rightarrow> string + nat" where
  "parse_digits [] acc = Inr acc"
| "parse_digits (c # cs) acc =
     (case digit_val c of
        None \<Rightarrow> Inl ''invalid syntax''
      | Some d \<Rightarrow>
          (if 10 * acc + d \<ge> 2 ^ 64 then Inl ''value out of range''
           else parse_digits cs (10 * acc + d)))"

definition num_error :: "string \<Rightarrow> string \<Rightarrow> string \<Rightarrow> goerr" where
  "num_error fn s why =
     ErrorString (''strconv.'' @ fn @ '': parsing '' @ [CHR 0x22] @ s @ [CHR 0x22] @ '': '' @ why)"

text \<open>
  \<open>strconv.ParseInt(s, 10, 64)\<close> and \<open>strconv.Atoi\<close> differ in the name their error carries only.
\<close>

definition parse_int :: "string \<Rightarrow> string \<Rightarrow> goerr + int" where
  "parse_int fn s =
     (let neg = (s \<noteq> [] \<and> hd s = CHR 0x2D);
          t = (if s \<noteq> [] \<and> (hd s = CHR 0x2D \<or> hd s = CHR 0x2B) then tl s else s)
      in if t = [] then Inl (num_error fn s ''invalid syntax'')
         else (case parse_digits t 0 of
                 Inl why \<Rightarrow> Inl (num_error fn s why)
               | Inr u \<Rightarrow>
                   (if \<not> neg \<and> u \<ge> 2 ^ 63 then Inl (num_error fn s ''value out of range'')
                    else if neg \<and> u > 2 ^ 63 then Inl (num_error fn s ''value out of range'')
                    else Inr (if neg then - int u else int u))))"

definition ParseInt :: "string \<Rightarrow> goerr + int" where
  "ParseInt s = parse_int ''ParseInt'' s"

definition Atoi :: "string \<Rightarrow> goerr + int" where
  "Atoi s = parse_int ''Atoi'' s"

lemma of_char_digit_char [simp]: "d < 10 \<Longrightarrow> of_char (digit_char d) = 48 + d"
  by simp

lemma digit_val_digit_char [simp]: "d < 10 \<Longrightarrow> digit_val (digit_char d) = Some d"
  by (simp add: digit_val_def Let_def)

declare digit_char.simps [simp del]

lemma parse_digits_append:
  "parse_digits (xs @ ys) acc =
     (case parse_digits xs acc of Inl e \<Rightarrow> Inl e | Inr a \<Rightarrow> parse_digits ys a)"
  by (induction xs arbitrary: acc) (auto split: option.splits)

lemma parse_digits_nat_digits: "n < 2 ^ 64 \<Longrightarrow> parse_digits (nat_digits n) 0 = Inr n"
proof (induction n rule: nat_digits.induct)
  case (1 n)
  show ?case
  proof (cases "n < 10")
    case True
    then show ?thesis by (subst nat_digits.simps) simp
  next
    case False
    have "parse_digits (nat_digits (n div 10)) 0 = Inr (n div 10)"
      using "1.IH" [OF False] "1.prems" by simp
    moreover have "10 * (n div 10) + n mod 10 = n" by simp
    ultimately show ?thesis
      using False "1.prems" by (subst nat_digits.simps) (simp add: parse_digits_append)
  qed
qed

lemma nat_digits_not_Nil [simp]: "nat_digits n \<noteq> []"
  by (subst nat_digits.simps) simp

lemma nat_digits_all: "c \<in> set (nat_digits n) \<Longrightarrow> \<exists>d < 10. c = digit_char d"
proof (induction n rule: nat_digits.induct)
  case (1 n)
  show ?case
  proof (cases "n < 10")
    case True
    then show ?thesis using "1.prems" by (subst (asm) nat_digits.simps) auto
  next
    case False
    then have "c \<in> set (nat_digits (n div 10)) \<or> c = digit_char (n mod 10)"
      using "1.prems" by (subst (asm) nat_digits.simps) auto
    moreover have "n mod 10 < 10" by simp
    ultimately show ?thesis using "1.IH" [OF False] by metis
  qed
qed

lemma digit_char_not: "d < 10 \<Longrightarrow> of_char c < (48::nat) \<or> 57 < (of_char c :: nat) \<Longrightarrow> digit_char d \<noteq> c"
  by auto

lemma nat_digits_not_in: "of_char c < (48::nat) \<or> 57 < (of_char c :: nat) \<Longrightarrow> c \<notin> set (nat_digits n)"
  using nat_digits_all digit_char_not by blast

lemma Itoa_not_in:
  "of_char c < (48::nat) \<or> 57 < (of_char c :: nat) \<Longrightarrow> c \<noteq> CHR 0x2D \<Longrightarrow> c \<notin> set (Itoa n)"
  by (auto simp: Itoa_def nat_digits_not_in)

lemma Itoa_not_Nil [simp]: "Itoa n \<noteq> []"
  by (simp add: Itoa_def)

lemma nat_digits_no_sign: "CHR 0x2D \<notin> set (nat_digits n)" "CHR 0x2B \<notin> set (nat_digits n)"
  by (rule nat_digits_not_in, simp)+

lemma hd_nat_digits [simp]: "hd (nat_digits n) \<noteq> CHR 0x2D" "hd (nat_digits n) \<noteq> CHR 0x2B"
  using nat_digits_no_sign [of n] by (metis list.set_sel(1) nat_digits_not_Nil)+

lemma parse_int_Itoa:
  assumes "int64_range n"
  shows "parse_int fn (Itoa n) = Inr n"
proof (cases "n < 0")
  case True
  then have "parse_digits (nat_digits (nat (- n))) 0 = Inr (nat (- n))"
    using assms by (intro parse_digits_nat_digits) (simp add: int64_range_def)
  then show ?thesis
    using True assms by (auto simp: parse_int_def Itoa_def int64_range_def Let_def)
next
  case False
  then have "parse_digits (nat_digits (nat n)) 0 = Inr (nat n)"
    using assms by (intro parse_digits_nat_digits) (simp add: int64_range_def)
  then show ?thesis
    using False assms by (auto simp: parse_int_def Itoa_def int64_range_def Let_def)
qed

lemma parse_int_range: "parse_int fn s = Inr n \<Longrightarrow> int64_range n"
  by (auto simp: parse_int_def Let_def int64_range_def split: if_splits sum.splits)

text \<open>Decimal numbers are an encoding of the 64-bit integers.\<close>

interpretation dec64: codec Itoa ParseInt int64_range
  by unfold_locales (simp add: ParseInt_def parse_int_Itoa)

interpretation atoi64: codec Itoa Atoi int64_range
  by unfold_locales (simp add: Atoi_def parse_int_Itoa)

end
