(* ===== verification/GoJson.thy ===== *)
theory GoJson
  imports GoStrings "HOL-Library.List_Lexorder" "HOL-Library.Char_ord"
begin

text \<open>
  The JSON documents of Go's \<open>encoding/json\<close>: the compact text the encoder writes, the parser of the
  decoder, and the proof that parsing inverts writing. The driver passes data through this text in
  three places: requests to and replies from the storage cluster, the list of connections it hides in
  one string of the volume context, and the volume context it stores next to a staged volume.
\<close>

section \<open>Values\<close>

text \<open>
  A document. A number is kept as its literal (what reading it as an \<open>int64\<close> or a \<open>float64\<close> makes of it
  is up to the reader); an object is the list of its members in document order, duplicates included.
\<close>

datatype json =
    JNull
  | JBool bool
  | JNum string
  | JStr string
  | JArr "json list"
  | JObj "(string \<times> json) list"

section \<open>UTF-8\<close>

text \<open>
  The length of the valid UTF-8 sequence of two to four bytes at the start of a text whose first byte
  is 128 or more, and 0 if there is none (\<open>utf8.DecodeRuneInString\<close>).
\<close>

definition cont_byte :: "nat \<Rightarrow> bool" where
  "cont_byte b \<longleftrightarrow> 128 \<le> b \<and> b \<le> 191"

fun utf8_lead :: "nat list \<Rightarrow> nat" where
  "utf8_lead (b # c # bs) =
     (if 194 \<le> b \<and> b \<le> 223 then (if cont_byte c then 2 else 0)
      else if 224 \<le> b \<and> b \<le> 239 then
        (if (if b = 224 then 160 \<le> c \<and> c \<le> 191 else if b = 237 then 128 \<le> c \<and> c \<le> 159 else cont_byte c)
         then (case bs of d # _ \<Rightarrow> if cont_byte d then 3 else 0 | [] \<Rightarrow> 0) else 0)
      else if 240 \<le> b \<and> b \<le> 244 then
        (if (if b = 240 then 144 \<le> c \<and> c \<le> 191 else if b = 244 then 128 \<le> c \<and> c \<le> 143 else cont_byte c)
         then (case bs of d # e # _ \<Rightarrow> if cont_byte d \<and> cont_byte e then 4 else 0 | _ \<Rightarrow> 0) else 0)
      else 0)"
| "utf8_lead _ = 0"

definition utf8_len :: "string \<Rightarrow> nat" where
  "utf8_len s = utf8_lead (map of_char (take 4 s))"

definition byte :: "char \<Rightarrow> nat" where
  "byte c = of_char c"

definition repl_char :: string where
  \<comment> \<open>U+FFFD in UTF-8\<close>
  "repl_char = [CHR 0xEF, CHR 0xBF, CHR 0xBD]"

text \<open>The same for any first byte: an ASCII byte is a sequence of its own.\<close>

definition rune_len :: "string \<Rightarrow> nat" where
  "rune_len s = (case s of [] \<Rightarrow> 0 | c # _ \<Rightarrow> if byte c < 128 then 1 else utf8_len s)"

function valid_utf8 :: "string \<Rightarrow> bool" where
  "valid_utf8 s =
     (if s = [] then True else if rune_len s = 0 then False else valid_utf8 (drop (rune_len s) s))"
  by pat_completeness auto
termination
  by (relation "measure length") auto

declare valid_utf8.simps [simp del]

lemma utf8_lead_cases: "utf8_lead bs \<in> {0, 2, 3, 4}"
  by (induction bs rule: utf8_lead.induct) (auto split: list.splits)

lemma utf8_lead_le: "utf8_lead bs \<le> length bs"
  by (induction bs rule: utf8_lead.induct) (auto split: list.splits)

lemma utf8_lead_append: "utf8_lead bs \<noteq> 0 \<Longrightarrow> utf8_lead (bs @ cs) = utf8_lead bs"
  by (induction bs rule: utf8_lead.induct) (auto split: list.splits if_splits)

lemma utf8_lead_take4: "utf8_lead (take 4 bs) = utf8_lead bs"
  by (induction bs rule: utf8_lead.induct) (auto split: list.splits simp: numeral_eq_Suc)

lemma utf8_lead_bytes: "i < utf8_lead bs \<Longrightarrow> bs ! i \<ge> 128"
  by (induction bs rule: utf8_lead.induct)
    (auto split: list.splits if_splits simp: cont_byte_def nth_Cons numeral_eq_Suc less_Suc_eq
      split: nat.splits)

lemma utf8_len_lead: "utf8_len s = utf8_lead (map of_char s)"
  by (simp add: utf8_len_def take_map [symmetric] utf8_lead_take4)

lemma rune_len_le: "rune_len s \<le> length s"
  using utf8_lead_le [of "map of_char s"] by (cases s) (auto simp: rune_len_def utf8_len_lead)

lemma utf8_len_append: "utf8_len s \<noteq> 0 \<Longrightarrow> utf8_len (s @ t) = utf8_len s"
  by (simp add: utf8_len_lead utf8_lead_append)

lemma rune_len_append: "rune_len s \<noteq> 0 \<Longrightarrow> rune_len (s @ t) = rune_len s"
  using utf8_len_append [of s t] by (cases s) (auto simp: rune_len_def split: if_splits)

section \<open>Strings\<close>

text \<open>
  The escapes of \<open>json.Marshal\<close> (which also escapes the characters that HTML gives a meaning): letters
  for the usual control characters, \<open>\u00xy\<close> for the others and for \<open><\<close>, \<open>>\<close> and \<open>&\<close>, \<open>\u2028\<close> and \<open>\u2029\<close>
  for the two Unicode line separators, \<open>\ufffd\<close> for a byte that is not UTF-8.
\<close>

definition hex_digit :: "nat \<Rightarrow> char" where
  "hex_digit d = (if d < 10 then char_of (48 + d) else char_of (87 + d))"

definition hex_val :: "char \<Rightarrow> nat option" where
  "hex_val c =
     (let n = byte c in
      if 48 \<le> n \<and> n \<le> 57 then Some (n - 48)
      else if 97 \<le> n \<and> n \<le> 102 then Some (n - 87)
      else if 65 \<le> n \<and> n \<le> 70 then Some (n - 55)
      else None)"

fun hex4 :: "string \<Rightarrow> nat option" where
  "hex4 (a # b # c # d # _) =
     (case (hex_val a, hex_val b, hex_val c, hex_val d) of
        (Some i, Some j, Some k, Some l) \<Rightarrow> Some (4096 * i + 256 * j + 16 * k + l)
      | _ \<Rightarrow> None)"
| "hex4 _ = None"

definition json_safe :: "char \<Rightarrow> bool" where
  "json_safe c \<longleftrightarrow> 32 \<le> byte c \<and> byte c < 128 \<and>
     c \<notin> {CHR 0x22, CHR 0x26, CHR 0x3C, CHR 0x3E, CHR 0x5C}"

definition esc_ascii :: "char \<Rightarrow> string" where
  "esc_ascii c =
     (if json_safe c then [c]
      else if c = CHR 0x5C \<or> c = CHR 0x22 then [CHR 0x5C, c]
      else if c = CHR 0x08 then [CHR 0x5C, CHR ''b'']
      else if c = CHR 0x0C then [CHR 0x5C, CHR ''f'']
      else if c = CHR 0x0A then [CHR 0x5C, CHR ''n'']
      else if c = CHR 0x0D then [CHR 0x5C, CHR ''r'']
      else if c = CHR 0x09 then [CHR 0x5C, CHR ''t'']
      else [CHR 0x5C, CHR ''u'', CHR ''0'', CHR ''0'', hex_digit (byte c div 16), hex_digit (byte c mod 16)])"

function quote_body :: "string \<Rightarrow> string" where
  "quote_body s =
     (case s of [] \<Rightarrow> []
      | c # t \<Rightarrow>
          (if byte c < 128 then esc_ascii c @ quote_body t
           else if utf8_len s = 0 then CHR 0x5C # ''ufffd'' @ quote_body t
           else if take 3 s = [CHR 0xE2, CHR 0x80, CHR 0xA8] then CHR 0x5C # ''u2028'' @ quote_body (drop 3 s)
           else if take 3 s = [CHR 0xE2, CHR 0x80, CHR 0xA9] then CHR 0x5C # ''u2029'' @ quote_body (drop 3 s)
           else take (utf8_len s) s @ quote_body (drop (utf8_len s) s)))"
  by pat_completeness auto
termination
  by (relation "measure length") auto

declare quote_body.simps [simp del]

definition jquote :: "string \<Rightarrow> string" where
  "jquote s = CHR 0x22 # quote_body s @ [CHR 0x22]"

text \<open>\<open>utf8.AppendRune\<close> for a code point that is not a surrogate.\<close>

definition utf8_encode :: "nat \<Rightarrow> string" where
  "utf8_encode n =
     (if n < 128 then [char_of n]
      else if n < 2048 then [char_of (192 + n div 64), char_of (128 + n mod 64)]
      else if n < 65536 then
        [char_of (224 + n div 4096), char_of (128 + n div 64 mod 64), char_of (128 + n mod 64)]
      else [char_of (240 + n div 262144), char_of (128 + n div 4096 mod 64),
            char_of (128 + n div 64 mod 64), char_of (128 + n mod 64)])"

definition unescape :: "char \<Rightarrow> char option" where
  "unescape e =
     (if e = CHR 0x22 \<or> e = CHR 0x5C \<or> e = CHR ''/'' then Some e
      else if e = CHR ''b'' then Some (CHR 0x08)
      else if e = CHR ''f'' then Some (CHR 0x0C)
      else if e = CHR ''n'' then Some (CHR 0x0A)
      else if e = CHR ''r'' then Some (CHR 0x0D)
      else if e = CHR ''t'' then Some (CHR 0x09)
      else None)"

text \<open>
  The code unit of a \<open>\u\<close> escape and what follows it: two surrogates in a row are one code point, a
  lone surrogate reads as U+FFFD. The result is the decoded text and the number of further input
  characters it used after its four digits (6 for a second escape).
\<close>

definition join_unit :: "nat \<Rightarrow> string \<Rightarrow> string \<times> nat" where
  "join_unit n t =
     (if 55296 \<le> n \<and> n < 57344 then
        (case (if prefix [CHR 0x5C, CHR ''u''] t then hex4 (drop 2 t) else None) of
           Some m \<Rightarrow>
             (if n < 56320 \<and> 56320 \<le> m \<and> m < 57344
              then (utf8_encode ((n - 55296) * 1024 + (m - 56320) + 65536), 6)
              else (repl_char, 0))
         | None \<Rightarrow> (repl_char, 0))
      else (utf8_encode n, 0))"

definition prepend :: "string \<Rightarrow> (string \<times> string) option \<Rightarrow> (string \<times> string) option" where
  "prepend u r = (case r of None \<Rightarrow> None | Some (v, rest) \<Rightarrow> Some (u @ v, rest))"

text \<open>The body of a string after its opening quote: the text it denotes and the rest of the input.\<close>

function pstr :: "string \<Rightarrow> (string \<times> string) option" where
  "pstr s =
     (case s of
        [] \<Rightarrow> None
      | c # t \<Rightarrow>
          (if c = CHR 0x22 then Some ([], t)
           else if c = CHR 0x5C then
             (case t of
                [] \<Rightarrow> None
              | e # t' \<Rightarrow>
                  (if e = CHR ''u'' then
                     (case hex4 t' of
                        None \<Rightarrow> None
                      | Some n \<Rightarrow>
                          prepend (fst (join_unit n (drop 4 t'))) (pstr (drop (snd (join_unit n (drop 4 t'))) (drop 4 t'))))
                   else (case unescape e of None \<Rightarrow> None | Some b \<Rightarrow> prepend [b] (pstr t'))))
           else if byte c < 32 then None
           else if byte c < 128 then prepend [c] (pstr t)
           else if utf8_len s = 0 then prepend repl_char (pstr t)
           else prepend (take (utf8_len s) s) (pstr (drop (utf8_len s) s))))"
  by pat_completeness auto
termination
  by (relation "measure length") auto

declare pstr.simps [simp del]

lemma prepend_Some [simp]: "prepend u (Some (v, r)) = Some (u @ v, r)"
  by (simp add: prepend_def)

lemma prepend_None [simp]: "prepend u None = None"
  by (simp add: prepend_def)

lemma prepend_eq_Some: "prepend u r = Some (v, rest) \<longleftrightarrow> (\<exists>v'. r = Some (v', rest) \<and> v = u @ v')"
  by (auto simp: prepend_def split: option.splits)

lemma hex_val_hex_digit: "d < 16 \<Longrightarrow> hex_val (hex_digit d) = Some d"
  by (auto simp: hex_val_def hex_digit_def byte_def Let_def)

lemma byte_less: "byte c < 256"
  by (simp add: byte_def)

lemma char_of_byte: "char_of (byte c) = c"
  by (simp add: byte_def)

lemma pstr_quote: "pstr (CHR 0x22 # t) = Some ([], t)"
  by (subst pstr.simps) simp

lemma pstr_raw:
  "c \<noteq> CHR 0x22 \<Longrightarrow> c \<noteq> CHR 0x5C \<Longrightarrow> 32 \<le> byte c \<Longrightarrow> byte c < 128 \<Longrightarrow>
   pstr (c # t) = prepend [c] (pstr t)"
  by (subst pstr.simps) simp

lemma pstr_letter:
  "e \<noteq> CHR ''u'' \<Longrightarrow> unescape e = Some b \<Longrightarrow> pstr (CHR 0x5C # e # t) = prepend [b] (pstr t)"
  by (subst pstr.simps) simp

lemma pstr_unit:
  "hex4 h = Some n \<Longrightarrow> length h = 4 \<Longrightarrow> \<not> (55296 \<le> n \<and> n < 57344) \<Longrightarrow>
   pstr (CHR 0x5C # CHR ''u'' # h @ t) = prepend (utf8_encode n) (pstr t)"
proof -
  assume h: "hex4 h = Some n" "length h = 4" and n: "\<not> (55296 \<le> n \<and> n < 57344)"
  have "hex4 (h @ t) = hex4 h"
  proof -
    obtain a b c d where "h = [a, b, c, d]"
      using h(2) by (auto simp: length_Suc_conv numeral_eq_Suc)
    then show ?thesis by simp
  qed
  then show ?thesis using h n by (subst pstr.simps) (auto simp: join_unit_def)
qed

lemma pstr_esc_ascii:
  assumes "byte c < 128"
  shows "pstr (esc_ascii c @ t) = prepend [c] (pstr t)"
proof -
  have raw: "json_safe c \<Longrightarrow> pstr (c # t) = prepend [c] (pstr t)"
    by (rule pstr_raw) (auto simp: json_safe_def)
  have unit: "pstr (CHR 0x5C # CHR ''u'' # [CHR ''0'', CHR ''0'', hex_digit (byte c div 16), hex_digit (byte c mod 16)] @ t)
    = prepend (utf8_encode (byte c)) (pstr t)"
  proof (rule pstr_unit)
    have "hex_val (CHR ''0'') = Some 0" by (simp add: hex_val_def byte_def)
    then show "hex4 [CHR ''0'', CHR ''0'', hex_digit (byte c div 16), hex_digit (byte c mod 16)] = Some (byte c)"
      using assms by (simp add: hex_val_hex_digit)
  qed (use assms in auto)
  have enc: "utf8_encode (byte c) = [c]"
    using assms by (simp add: utf8_encode_def char_of_byte)
  show ?thesis
  proof (cases "json_safe c")
    case True
    then show ?thesis using raw by (simp add: esc_ascii_def)
  next
    case False
    consider "c \<in> {CHR 0x5C, CHR 0x22, CHR 0x08, CHR 0x0C, CHR 0x0A, CHR 0x0D, CHR 0x09}"
      | "c \<notin> {CHR 0x5C, CHR 0x22, CHR 0x08, CHR 0x0C, CHR 0x0A, CHR 0x0D, CHR 0x09}" by blast
    then show ?thesis
    proof cases
      case 1
      then show ?thesis using False by (auto simp: esc_ascii_def pstr_letter unescape_def)
    next
      case 2
      then show ?thesis using False unit enc by (simp add: esc_ascii_def)
    qed
  qed
qed

lemma utf8_len_high: "utf8_len s \<noteq> 0 \<Longrightarrow> 128 \<le> byte (hd s)"
proof -
  assume n: "utf8_len s \<noteq> 0"
  then have "s \<noteq> []" by (auto simp: utf8_len_def)
  moreover have "(map of_char s :: nat list) ! 0 \<ge> 128"
    using n by (intro utf8_lead_bytes) (simp add: utf8_len_lead)
  ultimately show ?thesis by (cases s) (auto simp: byte_def)
qed

lemma pstr_rune:
  assumes "utf8_len s \<noteq> 0"
  shows "pstr (take (utf8_len s) s @ t) = prepend (take (utf8_len s) s) (pstr t)"
proof -
  let ?n = "utf8_len s"
  have le: "?n \<le> length s"
    using utf8_lead_le [of "map of_char s"] by (simp add: utf8_len_lead)
  have ge: "128 \<le> byte (hd s)" using assms by (rule utf8_len_high)
  obtain c u where cu: "take ?n s = c # u"
    using assms le by (cases "take ?n s") auto
  then have c: "c = hd s" using assms le by (metis hd_append2 append_take_drop_id list.sel(1) list.distinct(1))
  have "utf8_len (take ?n s) = ?n"
  proof -
    have "utf8_lead (take ?n (map of_char s)) = ?n"
    proof -
      have "utf8_lead bs = n \<Longrightarrow> n \<noteq> 0 \<Longrightarrow> utf8_lead (take n bs) = n" for n and bs :: "nat list"
        by (induction bs rule: utf8_lead.induct) (auto split: list.splits if_splits simp: numeral_eq_Suc)
      then show ?thesis using assms by (simp add: utf8_len_lead)
    qed
    then show ?thesis by (simp add: utf8_len_lead take_map)
  qed
  then have len: "utf8_len (take ?n s @ t) = ?n"
    using assms utf8_len_append [of "take ?n s" t] by simp
  have "pstr (take ?n s @ t) =
    prepend (take ?n (take ?n s @ t)) (pstr (drop ?n (take ?n s @ t)))"
    using ge c len assms cu by (subst pstr.simps) (auto simp: byte_def)
  then show ?thesis using le by simp
qed

lemma char_of_sep:
  "char_of (226::nat) = CHR 0xE2" "char_of (128::nat) = CHR 0x80"
  "char_of (168::nat) = CHR 0xA8" "char_of (169::nat) = CHR 0xA9"
  by code_simp+

lemma quote_body_valid_step:
  assumes "valid_utf8 s" and "s \<noteq> []"
  shows "\<exists>u v. s = u @ v \<and> u \<noteq> [] \<and> valid_utf8 v \<and>
    (\<exists>q. quote_body s = q @ quote_body v \<and> (\<forall>t. pstr (q @ t) = prepend u (pstr t)))"
proof -
  obtain c t where s: "s = c # t" using assms(2) by (cases s) auto
  have n: "rune_len s \<noteq> 0" and v: "valid_utf8 (drop (rune_len s) s)"
    using assms by (subst (asm) valid_utf8.simps, auto split: if_splits)+
  show ?thesis
  proof (cases "byte c < 128")
    case True
    then have "quote_body s = esc_ascii c @ quote_body t" using s by (subst quote_body.simps) simp
    moreover have "valid_utf8 t" using v True s by (simp add: rune_len_def)
    moreover have "s = [c] @ t" using s by simp
    ultimately show ?thesis using pstr_esc_ascii [OF True] by blast
  next
    case False
    then have len: "rune_len s = utf8_len s" using s by (simp add: rune_len_def)
    have split: "s = take (utf8_len s) s @ drop (utf8_len s) s" by simp
    have u: "take (utf8_len s) s \<noteq> []" using n len s by (cases "utf8_len s") auto
    have fin: ?thesis
      if "quote_body s = q @ quote_body (drop (utf8_len s) s)"
        "\<forall>t. pstr (q @ t) = prepend (take (utf8_len s) s) (pstr t)" for q
      using that split u v len by metis
    have sep: "utf8_len s = 3" if "take 3 s = [CHR 0xE2, CHR 0x80, x]" "x = CHR 0xA8 \<or> x = CHR 0xA9" for x
    proof -
      have "s = [CHR 0xE2, CHR 0x80, x] @ drop 3 s" using that by (metis append_take_drop_id)
      moreover have "utf8_len [CHR 0xE2, CHR 0x80, x] = 3"
        using that(2) by (auto simp: utf8_len_def cont_byte_def)
      ultimately show ?thesis by (metis utf8_len_append zero_neq_numeral)
    qed
    have sepstr: "pstr (CHR 0x5C # ''u202'' @ [d] @ t) = prepend [CHR 0xE2, CHR 0x80, x] (pstr t)"
      if "d = CHR ''8'' \<and> x = CHR 0xA8 \<or> d = CHR ''9'' \<and> x = CHR 0xA9" for d x t
    proof -
      have "hex4 [CHR ''2'', CHR ''0'', CHR ''2'', d] = Some (if d = CHR ''8'' then 8232 else 8233)"
        using that by (auto simp: hex_val_def byte_def Let_def)
      then have "pstr (CHR 0x5C # CHR ''u'' # [CHR ''2'', CHR ''0'', CHR ''2'', d] @ t)
        = prepend (utf8_encode (if d = CHR ''8'' then 8232 else 8233)) (pstr t)"
        by (rule pstr_unit) auto
      moreover have "utf8_encode (if d = CHR ''8'' then 8232 else 8233) = [CHR 0xE2, CHR 0x80, x]"
        using that char_of_sep by (auto simp: utf8_encode_def)
      ultimately show ?thesis by simp
    qed
    consider (a8) "take 3 s = [CHR 0xE2, CHR 0x80, CHR 0xA8]" | (a9) "take 3 s = [CHR 0xE2, CHR 0x80, CHR 0xA9]"
      | (raw) "take 3 s \<noteq> [CHR 0xE2, CHR 0x80, CHR 0xA8]" "take 3 s \<noteq> [CHR 0xE2, CHR 0x80, CHR 0xA9]" by blast
    then show ?thesis
    proof cases
      case a8
      then have "quote_body s = (CHR 0x5C # ''u202'' @ [CHR ''8'']) @ quote_body (drop 3 s)"
        using False s n len by (subst quote_body.simps) auto
      then show ?thesis
        using a8 sep [OF a8] sepstr [of "CHR ''8''" "CHR 0xA8"]
        by (intro fin [of "CHR 0x5C # ''u202'' @ [CHR ''8'']"]) simp_all
    next
      case a9
      then have "quote_body s = (CHR 0x5C # ''u202'' @ [CHR ''9'']) @ quote_body (drop 3 s)"
        using False s n len by (subst quote_body.simps) auto
      then show ?thesis
        using a9 sep [OF a9] sepstr [of "CHR ''9''" "CHR 0xA9"]
        by (intro fin [of "CHR 0x5C # ''u202'' @ [CHR ''9'']"]) simp_all
    next
      case raw
      then have "quote_body s = take (utf8_len s) s @ quote_body (drop (utf8_len s) s)"
        using False s n len by (subst quote_body.simps) auto
      moreover have "\<forall>t. pstr (take (utf8_len s) s @ t) = prepend (take (utf8_len s) s) (pstr t)"
        using pstr_rune n len by simp
      ultimately show ?thesis by (rule fin)
    qed
  qed
qed

text \<open>A valid UTF-8 text is read back from its quoted form.\<close>

lemma pstr_quote_body:
  "valid_utf8 s \<Longrightarrow> pstr (quote_body s @ CHR 0x22 # rest) = Some (s, rest)"
proof (induction s rule: length_induct)
  case (1 s)
  show ?case
  proof (cases "s = []")
    case True
    then show ?thesis by (subst quote_body.simps) (simp add: pstr_quote)
  next
    case False
    then obtain u v q where s: "s = u @ v" "u \<noteq> []" and v: "valid_utf8 v"
      and q: "quote_body s = q @ quote_body v" "\<forall>t. pstr (q @ t) = prepend u (pstr t)"
      using quote_body_valid_step [OF "1.prems" False] by blast
    have "pstr (quote_body v @ CHR 0x22 # rest) = Some (v, rest)"
      using "1.IH" s v by simp
    then show ?thesis using q s by simp
  qed
qed

lemma pstr_step:
  assumes "pstr s = Some (v, rest)"
  shows "s = CHR 0x22 # rest \<or> (\<exists>t v'. pstr t = Some (v', rest) \<and> length t < length s)"
proof (cases s)
  case Nil
  then show ?thesis using assms by (simp add: pstr.simps [of "[]"])
next
  case (Cons c t)
  consider "c = CHR 0x22" | "c = CHR 0x5C" | "c \<noteq> CHR 0x22" "c \<noteq> CHR 0x5C" by blast
  then show ?thesis
  proof cases
    case 1
    then show ?thesis using assms Cons by (simp add: pstr_quote)
  next
    case 2
    then show ?thesis using assms Cons
      by (subst (asm) pstr.simps, simp add: prepend_eq_Some split: if_splits list.splits option.splits)
        (fastforce intro: exI)+
  next
    case 3
    then show ?thesis using assms Cons
      by (subst (asm) pstr.simps, simp add: prepend_eq_Some split: if_splits list.splits option.splits)
        (fastforce intro: exI)+
  qed
qed

lemma pstr_length: "pstr s = Some (v, rest) \<Longrightarrow> length rest < length s"
proof (induction s arbitrary: v rule: length_induct)
  case (1 s)
  then show ?case using pstr_step [OF "1.prems"] by fastforce
qed

section \<open>Documents\<close>

fun jprint :: "json \<Rightarrow> string"
  and jelems :: "json list \<Rightarrow> string"
  and jmembers :: "(string \<times> json) list \<Rightarrow> string"
where
  "jprint JNull = ''null''"
| "jprint (JBool b) = (if b then ''true'' else ''false'')"
| "jprint (JNum l) = l"
| "jprint (JStr s) = jquote s"
| "jprint (JArr vs) = CHR ''['' # jelems vs @ '']''"
| "jprint (JObj ms) = CHR ''{'' # jmembers ms @ ''}''"
| "jelems [] = []"
| "jelems (v # vs) = jprint v @ (if vs = [] then [] else CHR '','' # jelems vs)"
| "jmembers [] = []"
| "jmembers ((k, v) # ms) =
     jquote k @ CHR '':'' # jprint v @ (if ms = [] then [] else CHR '','' # jmembers ms)"

definition json_space :: "char \<Rightarrow> bool" where
  "json_space c \<longleftrightarrow> c \<in> {CHR 0x20, CHR 0x09, CHR 0x0A, CHR 0x0D}"

definition skip_ws :: "string \<Rightarrow> string" where
  "skip_ws s = dropWhile json_space s"

definition is_digit :: "char \<Rightarrow> bool" where
  "is_digit c \<longleftrightarrow> 48 \<le> byte c \<and> byte c \<le> 57"

definition num_char :: "char \<Rightarrow> bool" where
  "num_char c \<longleftrightarrow> is_digit c \<or> c \<in> {CHR ''+'', CHR ''-'', CHR ''.'', CHR ''e'', CHR ''E''}"

definition exp_ok :: "string \<Rightarrow> bool" where
  "exp_ok r = (case r of [] \<Rightarrow> True
     | c # t \<Rightarrow> (c = CHR ''e'' \<or> c = CHR ''E'') \<and>
         (let u = (if t \<noteq> [] \<and> (hd t = CHR ''+'' \<or> hd t = CHR ''-'') then tl t else t)
          in u \<noteq> [] \<and> list_all is_digit u))"

definition frac_ok :: "string \<Rightarrow> bool" where
  "frac_ok r = (case r of [] \<Rightarrow> True
     | c # t \<Rightarrow>
         (if c = CHR ''.'' then takeWhile is_digit t \<noteq> [] \<and> exp_ok (dropWhile is_digit t)
          else exp_ok r))"

definition num_ok :: "string \<Rightarrow> bool" where
  "num_ok u =
     (let t = (if u \<noteq> [] \<and> hd u = CHR ''-'' then tl u else u); i = takeWhile is_digit t
      in i \<noteq> [] \<and> (length i = 1 \<or> hd i \<noteq> CHR ''0'') \<and> frac_ok (dropWhile is_digit t))"

text \<open>
  The decoder. The scanner of Go reads the longest number and then requires a delimiter; taking the
  whole run of number characters and checking its grammar accepts the same documents. \<open>d\<close> is the
  nesting the scanner still allows (10000 at the top). The first argument is fuel; \<open>pval_fuel\<close> below
  shows that one more than twice the length of the input is always enough.
\<close>

definition pnum :: "string \<Rightarrow> (json \<times> string) option" where
  "pnum s = (let u = takeWhile num_char s
     in if num_ok u then Some (JNum u, dropWhile num_char s) else None)"

definition plit :: "string \<Rightarrow> json \<Rightarrow> string \<Rightarrow> (json \<times> string) option" where
  "plit l v s = (if prefix l s then Some (v, drop (length l) s) else None)"

fun pval :: "nat \<Rightarrow> nat \<Rightarrow> string \<Rightarrow> (json \<times> string) option"
  and pelems :: "nat \<Rightarrow> nat \<Rightarrow> string \<Rightarrow> (json list \<times> string) option"
  and pmembers :: "nat \<Rightarrow> nat \<Rightarrow> string \<Rightarrow> ((string \<times> json) list \<times> string) option"
where
  "pval 0 d s = None"
| "pval (Suc f) d s =
     (case skip_ws s of
        [] \<Rightarrow> None
      | c # t \<Rightarrow>
          (if c = CHR 0x22 then map_option (\<lambda>(u, r). (JStr u, r)) (pstr t)
           else if c = CHR ''['' then
             (if d = 0 then None
              else if skip_ws t \<noteq> [] \<and> hd (skip_ws t) = CHR '']'' then Some (JArr [], tl (skip_ws t))
              else map_option (\<lambda>(vs, r). (JArr vs, r)) (pelems f (d - 1) t))
           else if c = CHR ''{'' then
             (if d = 0 then None
              else if skip_ws t \<noteq> [] \<and> hd (skip_ws t) = CHR ''}'' then Some (JObj [], tl (skip_ws t))
              else map_option (\<lambda>(ms, r). (JObj ms, r)) (pmembers f (d - 1) t))
           else if c = CHR ''t'' then plit ''rue'' (JBool True) t
           else if c = CHR ''f'' then plit ''alse'' (JBool False) t
           else if c = CHR ''n'' then plit ''ull'' JNull t
           else pnum (c # t)))"
| "pelems 0 d s = None"
| "pelems (Suc f) d s =
     (case pval f d s of
        None \<Rightarrow> None
      | Some (v, r) \<Rightarrow>
          (case skip_ws r of
             [] \<Rightarrow> None
           | c # t \<Rightarrow>
               (if c = CHR '']'' then Some ([v], t)
                else if c = CHR '','' then map_option (\<lambda>(vs, r). (v # vs, r)) (pelems f d t)
                else None)))"
| "pmembers 0 d s = None"
| "pmembers (Suc f) d s =
     (case skip_ws s of
        [] \<Rightarrow> None
      | q # s1 \<Rightarrow>
          (if q \<noteq> CHR 0x22 then None
           else (case pstr s1 of
              None \<Rightarrow> None
            | Some (k, s2) \<Rightarrow>
                (case skip_ws s2 of
                   [] \<Rightarrow> None
                 | e # s3 \<Rightarrow>
                     (if e \<noteq> CHR '':'' then None
                      else (case pval f d s3 of
                         None \<Rightarrow> None
                       | Some (v, r) \<Rightarrow>
                           (case skip_ws r of
                              [] \<Rightarrow> None
                            | c # t \<Rightarrow>
                                (if c = CHR ''}'' then Some ([(k, v)], t)
                                 else if c = CHR '','' then
                                   map_option (\<lambda>(ms, r). ((k, v) # ms, r)) (pmembers f d t)
                                 else None))))))))"

text \<open>
  \<open>json.Unmarshal\<close> accepts one value and white space around it, \<open>Decoder.Decode\<close> reads the first value
  and ignores what follows.
\<close>

definition json_first :: "string \<Rightarrow> json option" where
  "json_first s = map_option fst (pval (2 * length s + 1) 10000 s)"

definition json_parse :: "string \<Rightarrow> json option" where
  "json_parse s =
     (case pval (2 * length s + 1) 10000 s of
        None \<Rightarrow> None
      | Some (v, r) \<Rightarrow> (if skip_ws r = [] then Some v else None))"

text \<open>The tests of characters on their bits, with which the decoder evaluates quickly.\<close>

lemma byte_bits: "byte c = of_bool (digit0 c) + 2 * of_bool (digit1 c) + 4 * of_bool (digit2 c) + 8 * of_bool (digit3 c)
   + 16 * of_bool (digit4 c) + 32 * of_bool (digit5 c) + 64 * of_bool (digit6 c) + 128 * of_bool (digit7 c)"
  by (cases c) (simp add: byte_def of_char_def)

lemma byte_less_128 [code_unfold]: "byte c < 128 \<longleftrightarrow> \<not> digit7 c"
  by (cases c) (simp add: byte_bits of_bool_def)

lemma byte_less_32 [code_unfold]: "byte c < 32 \<longleftrightarrow> \<not> (digit5 c \<or> digit6 c \<or> digit7 c)"
  by (cases c) (simp add: byte_bits of_bool_def)

lemma byte_ge_32 [code_unfold]: "32 \<le> byte c \<longleftrightarrow> digit5 c \<or> digit6 c \<or> digit7 c"
  using byte_less_32 [of c] by auto

lemma is_digit_bits [code]: "is_digit c \<longleftrightarrow>
    \<not> digit7 c \<and> \<not> digit6 c \<and> digit5 c \<and> digit4 c \<and> (digit3 c \<longrightarrow> \<not> digit2 c \<and> \<not> digit1 c)"
  by (cases c) (simp add: is_digit_def byte_bits of_bool_def)

lemma json_space_code [code]: "json_space c \<longleftrightarrow> c = CHR 0x20 \<or> c = CHR 0x09 \<or> c = CHR 0x0A \<or> c = CHR 0x0D"
  by (auto simp: json_space_def)

lemma num_char_code [code]:
  "num_char c \<longleftrightarrow> is_digit c \<or> c = CHR ''+'' \<or> c = CHR ''-'' \<or> c = CHR ''.'' \<or> c = CHR ''e'' \<or> c = CHR ''E''"
  by (auto simp: num_char_def)

lemma json_safe_code [code]: "json_safe c \<longleftrightarrow> 32 \<le> byte c \<and> byte c < 128 \<and> c \<noteq> CHR 0x22 \<and> c \<noteq> CHR 0x26 \<and>
   c \<noteq> CHR 0x3C \<and> c \<noteq> CHR 0x3E \<and> c \<noteq> CHR 0x5C"
  by (auto simp: json_safe_def)

section \<open>Parsing inverts writing\<close>

definition is_num :: "string \<Rightarrow> bool" where
  "is_num l \<longleftrightarrow> num_ok l \<and> list_all num_char l"

text \<open>
  The documents the encoder writes: texts are UTF-8, numbers are number literals, and the nesting is
  at most \<open>d\<close>.
\<close>

fun jwf :: "nat \<Rightarrow> json \<Rightarrow> bool" where
  "jwf d (JNum l) = is_num l"
| "jwf d (JStr s) = valid_utf8 s"
| "jwf d (JArr vs) = (0 < d \<and> (\<forall>v \<in> set vs. jwf (d - 1) v))"
| "jwf d (JObj ms) = (0 < d \<and> (\<forall>(k, v) \<in> set ms. valid_utf8 k \<and> jwf (d - 1) v))"
| "jwf d _ = True"

definition delim :: "string \<Rightarrow> bool" where
  "delim rest \<longleftrightarrow> rest = [] \<or> \<not> num_char (hd rest)"

lemma skip_ws_Cons [simp]: "\<not> json_space c \<Longrightarrow> skip_ws (c # t) = c # t"
  by (simp add: skip_ws_def)

lemma skip_ws_length: "length (skip_ws s) \<le> length s"
  by (simp add: skip_ws_def length_dropWhile_le)

lemma num_ok_not_Nil: "num_ok l \<Longrightarrow> l \<noteq> []"
  by (auto simp: num_ok_def)

lemma num_char_not: "num_char c \<Longrightarrow>
    \<not> json_space c \<and> c \<notin> {CHR 0x22, CHR ''['', CHR ''{'', CHR '']'', CHR ''}'', CHR '','', CHR '':'',
      CHR ''t'', CHR ''f'', CHR ''n''}"
  by (auto simp: num_char_def is_digit_def json_space_def byte_def)

lemma pnum_is_num:
  assumes "is_num l" and "delim rest"
  shows "pnum (l @ rest) = Some (JNum l, rest)"
proof -
  have "takeWhile num_char (l @ rest) = l" and "dropWhile num_char (l @ rest) = rest"
    using assms by (cases rest; auto simp: is_num_def delim_def list_all_iff)+
  then show ?thesis using assms by (simp add: pnum_def is_num_def)
qed

lemma delim_simps [simp]: "delim []" "delim (CHR '']'' # t)" "delim (CHR ''}'' # t)" "delim (CHR '','' # t)"
  by (auto simp: delim_def num_char_def is_digit_def byte_def)

lemma space_simps [simp]:
  "\<not> json_space (CHR 0x22)" "\<not> json_space (CHR ''['')" "\<not> json_space (CHR ''{'')"
  "\<not> json_space (CHR '']'')" "\<not> json_space (CHR ''}'')" "\<not> json_space (CHR '','')"
  "\<not> json_space (CHR '':'')" "\<not> json_space (CHR ''t'')" "\<not> json_space (CHR ''f'')"
  "\<not> json_space (CHR ''n'')"
  by (auto simp: json_space_def)

text \<open>A written value starts neither with white space nor with a closing bracket.\<close>

lemma jprint_first:
  assumes "jwf d v"
  shows "\<exists>c t. jprint v = c # t \<and> \<not> json_space c \<and> c \<noteq> CHR '']'' \<and> c \<noteq> CHR ''}''"
proof (cases v)
  case (JNum l)
  then obtain c t where "l = c # t" using assms num_ok_not_Nil by (cases l) (auto simp: is_num_def)
  then show ?thesis using JNum assms num_char_not by (auto simp: is_num_def)
next
  case (JBool b)
  then show ?thesis by (cases b) auto
qed (auto simp: jquote_def)

lemma pval_num:
  assumes "is_num l" and "delim rest"
  shows "pval (Suc f) d (l @ rest) = Some (JNum l, rest)"
proof -
  obtain c t where l: "l = c # t" using assms num_ok_not_Nil by (cases l) (auto simp: is_num_def)
  then have c: "num_char c" using assms by (simp add: is_num_def)
  show ?thesis using pnum_is_num [OF assms] num_char_not [OF c] by (simp add: l)
qed

lemma pval_str: "valid_utf8 s \<Longrightarrow> pval (Suc f) d (jquote s @ rest) = Some (JStr s, rest)"
  by (simp add: jquote_def pstr_quote_body)

lemma jelems_first:
  "\<forall>v \<in> set vs. jwf d v \<Longrightarrow> vs \<noteq> [] \<Longrightarrow>
    \<exists>c t. jelems vs = c # t \<and> \<not> json_space c \<and> c \<noteq> CHR '']''"
  using jprint_first by (cases vs) fastforce+

lemma jmembers_first: "ms \<noteq> [] \<Longrightarrow> \<exists>t. jmembers ms = CHR 0x22 # t"
  by (cases ms) (auto simp: jquote_def)

lemma pval_jprint:
  "jwf d v \<Longrightarrow> delim rest \<Longrightarrow> 2 * length (jprint v) \<le> f \<Longrightarrow> pval f d (jprint v @ rest) = Some (v, rest)"
  and pelems_jelems:
  "\<forall>v \<in> set vs. jwf d v \<Longrightarrow> vs \<noteq> [] \<Longrightarrow> 2 * length (jelems vs) + 1 \<le> f \<Longrightarrow>
    pelems f d (jelems vs @ CHR '']'' # rest) = Some (vs, rest)"
  and pmembers_jmembers:
  "\<forall>(k, v) \<in> set ms. valid_utf8 k \<and> jwf d v \<Longrightarrow> ms \<noteq> [] \<Longrightarrow> 2 * length (jmembers ms) + 1 \<le> f \<Longrightarrow>
    pmembers f d (jmembers ms @ CHR ''}'' # rest) = Some (ms, rest)"
proof (induction v and vs and ms arbitrary: d f rest and d f rest and d f rest
    rule: jprint_jelems_jmembers.induct)
  case 1
  then show ?case by (cases f) (simp_all add: plit_def)
next
  case (2 b)
  then show ?case by (cases f; cases b) (auto simp: plit_def)
next
  case (3 l)
  then have "l \<noteq> []" using num_ok_not_Nil by (auto simp: is_num_def)
  then obtain g where "f = Suc g" using 3 by (cases f) auto
  then show ?case using 3 by (simp add: pval_num del: pval.simps)
next
  case (4 s)
  then obtain g where "f = Suc g" by (cases f) (auto simp: jquote_def)
  then show ?case using 4 by (simp add: pval_str del: pval.simps)
next
  case (5 vs)
  obtain g where f: "f = Suc g" using 5 by (cases f) auto
  show ?case
  proof (cases "vs = []")
    case True
    then show ?thesis using 5 f by simp
  next
    case False
    then obtain c t where ct: "jelems vs = c # t" "\<not> json_space c" "c \<noteq> CHR '']''"
      using jelems_first [of vs "d - 1"] "5.prems" by auto
    have "pelems g (d - 1) (jelems vs @ CHR '']'' # rest) = Some (vs, rest)"
      using "5.IH" [of "d - 1" g rest] False "5.prems" f by simp
    then show ?thesis using f ct "5.prems" by simp
  qed
next
  case (6 ms)
  obtain g where f: "f = Suc g" using 6 by (cases f) auto
  show ?case
  proof (cases "ms = []")
    case True
    then show ?thesis using 6 f by simp
  next
    case False
    then obtain t where ct: "jmembers ms = CHR 0x22 # t" using jmembers_first by blast
    have "pmembers g (d - 1) (jmembers ms @ CHR ''}'' # rest) = Some (ms, rest)"
      using "6.IH" [of "d - 1" g rest] False "6.prems" f by simp
    then show ?thesis using f ct "6.prems" by simp
  qed
next
  case 7
  then show ?case by simp
next
  case (8 v vs)
  obtain g where f: "f = Suc g" using 8 by (cases f) auto
  show ?case
  proof (cases "vs = []")
    case True
    then show ?thesis using "8.IH"(1) [of d "CHR '']'' # rest" g] "8.prems" f by simp
  next
    case False
    have "pval g d (jprint v @ CHR '','' # jelems vs @ CHR '']'' # rest)
      = Some (v, CHR '','' # jelems vs @ CHR '']'' # rest)"
      using "8.IH"(1) [of d "CHR '','' # jelems vs @ CHR '']'' # rest" g] "8.prems" f by simp
    moreover have "pelems g d (jelems vs @ CHR '']'' # rest) = Some (vs, rest)"
      using "8.IH"(2) [of d g rest] False "8.prems" f by simp
    ultimately show ?thesis using False f by simp
  qed
next
  case 9
  then show ?case by simp
next
  case (10 k v ms)
  obtain g where f: "f = Suc g" using 10 by (cases f) auto
  have k: "valid_utf8 k" using "10.prems" by simp
  show ?case
  proof (cases "ms = []")
    case True
    then have "pval g d (jprint v @ CHR ''}'' # rest) = Some (v, CHR ''}'' # rest)"
      using "10.IH"(1) [of d "CHR ''}'' # rest" g] "10.prems" f by simp
    then show ?thesis using True f k by (simp add: jquote_def pstr_quote_body)
  next
    case False
    have "pval g d (jprint v @ CHR '','' # jmembers ms @ CHR ''}'' # rest)
      = Some (v, CHR '','' # jmembers ms @ CHR ''}'' # rest)"
      using "10.IH"(1) [of d "CHR '','' # jmembers ms @ CHR ''}'' # rest" g] "10.prems" f by simp
    moreover have "pmembers g d (jmembers ms @ CHR ''}'' # rest) = Some (ms, rest)"
      using "10.IH"(2) [of d g rest] False "10.prems" f by simp
    ultimately show ?thesis using False f k by (simp add: jquote_def pstr_quote_body)
  qed
qed

lemma json_parse_jprint: "jwf 10000 v \<Longrightarrow> json_parse (jprint v) = Some v"
  using pval_jprint [of 10000 v "[]" "2 * length (jprint v) + 1"]
  by (simp add: json_parse_def skip_ws_def)

lemma json_first_jprint: "jwf 10000 v \<Longrightarrow> delim rest \<Longrightarrow> json_first (jprint v @ rest) = Some v"
  using pval_jprint [of 10000 v rest "2 * length (jprint v @ rest) + 1"]
  by (simp add: json_first_def)

subsection \<open>The fuel is enough\<close>

lemma pnum_length: "pnum s = Some (v, r) \<Longrightarrow> length r < length s"
proof -
  assume "pnum s = Some (v, r)"
  then have r: "r = dropWhile num_char s" and "num_ok (takeWhile num_char s)"
    by (auto simp: pnum_def Let_def split: if_splits)
  then have "takeWhile num_char s \<noteq> []" using num_ok_not_Nil by blast
  moreover have "length s = length (takeWhile num_char s) + length r"
    by (metis r length_append takeWhile_dropWhile_id)
  ultimately show ?thesis by simp
qed

lemma skip_ws_Cons_length: "skip_ws s = c # t \<Longrightarrow> length t < length s"
  using skip_ws_length [of s] by simp

lemma consumes_induct:
  "(\<forall>d s v r. pval f d s = Some (v, r) \<longrightarrow> length r < length s) \<and>
   (\<forall>d s vs r. pelems f d s = Some (vs, r) \<longrightarrow> length r < length s) \<and>
   (\<forall>d s ms r. pmembers f d s = Some (ms, r) \<longrightarrow> length r < length s)"
proof (induction f)
  case 0
  then show ?case by simp
next
  case (Suc f)
  note len = skip_ws_Cons_length pstr_length pnum_length
  have IHe: "pelems f d s = Some (vs, r) \<Longrightarrow> length r \<le> length s" for d s vs r
    using Suc.IH by (simp add: less_imp_le_nat)
  have IHm: "pmembers f d s = Some (ms, r) \<Longrightarrow> length r \<le> length s" for d s ms r
    using Suc.IH by (simp add: less_imp_le_nat)
  have val: "length r < length s" if run: "pval (Suc f) d s = Some (v, r)" for d s v r
  proof -
    obtain c t where ct: "skip_ws s = c # t" using run by (auto split: list.splits)
    have tl: "length (tl (skip_ws t)) \<le> length t" using skip_ws_length [of t] by simp
    have "length r < length (c # t)"
      using run ct tl
      by (auto split: if_splits simp: plit_def less_Suc_eq_le simp del: length_tl
          dest!: len(2,3) IHe IHm)
    then show ?thesis using skip_ws_length [of s] ct by simp
  qed
  have elems: "length r < length s" if run: "pelems (Suc f) d s = Some (vs, r)" for d s vs r
  proof -
    obtain v r1 where v: "pval f d s = Some (v, r1)" using run by (auto split: option.splits)
    obtain c t where ct: "skip_ws r1 = c # t" using run v by (auto split: list.splits)
    have "r = t \<or> (\<exists>vs'. pelems f d t = Some (vs', r))"
      using run v ct by (auto split: if_splits)
    then have "length r \<le> length t" using IHe by blast
    moreover have "length t < length r1" "length r1 < length s" using len(1) ct v Suc.IH by blast+
    ultimately show ?thesis by simp
  qed
  have members: "length r < length s" if run: "pmembers (Suc f) d s = Some (ms, r)" for d s ms r
  proof -
    obtain s1 where q: "skip_ws s = CHR 0x22 # s1" using run by (auto split: list.splits if_splits)
    obtain k s2 where k: "pstr s1 = Some (k, s2)" using run q by (auto split: option.splits)
    obtain s3 where e: "skip_ws s2 = CHR '':'' # s3"
      using run q k by (auto split: list.splits if_splits)
    obtain v r1 where v: "pval f d s3 = Some (v, r1)" using run q k e by (auto split: option.splits)
    obtain c t where ct: "skip_ws r1 = c # t" using run q k e v by (auto split: list.splits)
    have "r = t \<or> (\<exists>ms'. pmembers f d t = Some (ms', r))"
      using run q k e v ct by (auto split: if_splits)
    then have "length r \<le> length t" using IHm by blast
    moreover have "length t < length r1" "length s1 < length s" "length s3 < length s2"
      using len(1) ct q e by blast+
    moreover have "length s2 < length s1" "length r1 < length s3" using len(2) k v Suc.IH by blast+
    ultimately show ?thesis by simp
  qed
  show ?case using val elems members by blast
qed

lemma pval_length: "pval f d s = Some (v, r) \<Longrightarrow> length r < length s"
  and pelems_length: "pelems f d s = Some (vs, r) \<Longrightarrow> length r < length s"
  and pmembers_length: "pmembers f d s = Some (ms, r) \<Longrightarrow> length r < length s"
  using consumes_induct by blast+

lemma fuel_induct:
  "(\<forall>d s. 2 * length s + 1 \<le> f \<longrightarrow> pval (Suc f) d s = pval f d s) \<and>
   (\<forall>d s. 2 * length s + 2 \<le> f \<longrightarrow> pelems (Suc f) d s = pelems f d s) \<and>
   (\<forall>d s. 2 * length s + 2 \<le> f \<longrightarrow> pmembers (Suc f) d s = pmembers f d s)"
proof (induction f)
  case 0
  then show ?case by simp
next
  case (Suc f)
  have val: "pval (Suc (Suc f)) d s = pval (Suc f) d s" if f: "2 * length s + 1 \<le> Suc f" for d s
  proof (cases "skip_ws s")
    case Nil
    then show ?thesis by simp
  next
    case (Cons c t)
    then have "2 * length t + 2 \<le> f" using f skip_ws_Cons_length [OF Cons] by simp
    then have "pelems (Suc f) (d - 1) t = pelems f (d - 1) t"
      and "pmembers (Suc f) (d - 1) t = pmembers f (d - 1) t"
      using Suc.IH by blast+
    then show ?thesis using Cons by (simp del: pelems.simps pmembers.simps)
  qed
  have elems: "pelems (Suc (Suc f)) d s = pelems (Suc f) d s" if f: "2 * length s + 2 \<le> Suc f" for d s
  proof -
    have v: "pval (Suc f) d s = pval f d s" using Suc.IH f by simp
    have "pelems (Suc f) d t = pelems f d t" if "pval f d s = Some (w, r)" "skip_ws r = c # t" for w r c t
    proof -
      have "length t + 2 \<le> length s"
        using pval_length [OF that(1)] skip_ws_Cons_length [OF that(2)] by simp
      then have "2 * length t + 2 \<le> f" using f by simp
      then show ?thesis using Suc.IH by blast
    qed
    then show ?thesis
      by (subst (1 2) pelems.simps(2)) (auto simp: v simp del: pval.simps pelems.simps split: option.split list.split)
  qed
  have members: "pmembers (Suc (Suc f)) d s = pmembers (Suc f) d s" if f: "2 * length s + 2 \<le> Suc f" for d s
  proof -
    have v: "pval (Suc f) d s3 = pval f d s3"
      if "skip_ws s = q # s1" "pstr s1 = Some (k, s2)" "skip_ws s2 = e # s3" for q s1 k s2 e s3
    proof -
      have "length s3 + 3 \<le> length s"
        using skip_ws_Cons_length [OF that(1)] pstr_length [OF that(2)] skip_ws_Cons_length [OF that(3)] by simp
      then have "2 * length s3 + 1 \<le> f" using f by simp
      then show ?thesis using Suc.IH by blast
    qed
    have m: "pmembers (Suc f) d t = pmembers f d t"
      if "skip_ws s = q # s1" "pstr s1 = Some (k, s2)" "skip_ws s2 = e # s3"
        "pval f d s3 = Some (w, r)" "skip_ws r = c # t" for q s1 k s2 e s3 w r c t
    proof -
      have "length t + 3 \<le> length s"
        using skip_ws_Cons_length [OF that(1)] pstr_length [OF that(2)] skip_ws_Cons_length [OF that(3)]
          pval_length [OF that(4)] skip_ws_Cons_length [OF that(5)] by simp
      then have "2 * length t + 2 \<le> f" using f by simp
      then show ?thesis using Suc.IH by blast
    qed
    show ?thesis
      by (subst (1 2) pmembers.simps(2))
        (auto simp: v m simp del: pval.simps pmembers.simps split: option.split list.split)
  qed
  show ?case using val elems members by blast
qed

lemma pval_fuel: "2 * length s + 1 \<le> f \<Longrightarrow> pval f d s = pval (2 * length s + 1) d s"
proof (induction f)
  case (Suc f)
  then show ?case
  proof (cases "2 * length s + 1 \<le> f")
    case True
    then show ?thesis using Suc.IH fuel_induct by metis
  next
    case False
    then show ?thesis using Suc.prems by (simp add: le_Suc_eq del: pval.simps)
  qed
qed simp

subsection \<open>What the parser returns can be written again\<close>

lemma valid_utf8_Nil [simp]: "valid_utf8 []"
  by (subst valid_utf8.simps) simp

lemma valid_utf8_append: "valid_utf8 u \<Longrightarrow> valid_utf8 v \<Longrightarrow> valid_utf8 (u @ v)"
proof (induction u rule: valid_utf8.induct)
  case (1 u)
  show ?case
  proof (cases "u = []")
    case True
    then show ?thesis using "1.prems" by simp
  next
    case False
    then have n: "rune_len u \<noteq> 0" and d: "valid_utf8 (drop (rune_len u) u)"
      using "1.prems"(1) by (subst (asm) valid_utf8.simps, simp split: if_splits)+
    have "valid_utf8 (drop (rune_len u) u @ v)" using "1.IH" [OF False n d] "1.prems" by simp
    then show ?thesis
      using n False rune_len_le [of u] by (subst valid_utf8.simps) (simp add: rune_len_append)
  qed
qed

lemma valid_utf8_rune: "rune_len u = length u \<Longrightarrow> valid_utf8 u"
  by (subst valid_utf8.simps) (cases u; simp)

lemma valid_utf8_ascii [simp]: "byte c < 128 \<Longrightarrow> valid_utf8 [c]"
  by (rule valid_utf8_rune) (simp add: rune_len_def)

lemma valid_utf8_repl [simp]: "valid_utf8 repl_char"
  by code_simp

lemma utf8_lead_take_self: "utf8_lead (take (utf8_lead bs) bs) = utf8_lead bs"
  by (induction bs rule: utf8_lead.induct) (auto split: list.splits simp: numeral_eq_Suc)

lemma valid_utf8_take: "valid_utf8 (take (utf8_len s) s)"
proof (cases "utf8_len s")
  case (Suc n)
  have le: "utf8_len s \<le> length s"
    using utf8_lead_le [of "map of_char s"] by (simp add: utf8_len_lead)
  have "utf8_len (take (utf8_len s) s) = utf8_len s"
    by (simp add: utf8_len_lead take_map [symmetric] utf8_lead_take_self)
  moreover have "128 \<le> byte (hd s)" using Suc by (intro utf8_len_high) simp
  moreover obtain c t where "s = c # t" using Suc le by (cases s) auto
  ultimately show ?thesis using le Suc
    by (intro valid_utf8_rune) (auto simp: rune_len_def)
qed simp

lemma byte_char_of [simp]: "byte (char_of n) = n mod 256"
  by (simp add: byte_def)

lemma cont_byte_less: "z < 64 \<Longrightarrow> cont_byte (128 + z)"
  by (simp add: cont_byte_def)

lemma valid_utf8_bytes:
  assumes "utf8_lead bs = length bs" and "bs \<noteq> []" and "128 \<le> hd bs" and "\<forall>b \<in> set bs. b < 256"
  shows "valid_utf8 (map char_of bs)"
proof -
  have map: "map of_char (map char_of bs :: string) = bs"
    using assms(4) by (simp add: list.map_comp comp_def map_idI)
  obtain b t where bs: "bs = b # t" using assms(1,2) by (cases bs) auto
  have "utf8_len (map char_of bs) = length bs"
    unfolding utf8_len_lead map using assms(1) by simp
  moreover have "\<not> byte (char_of b) < 128" using assms bs by simp
  ultimately show ?thesis
    using bs by (intro valid_utf8_rune) (simp add: rune_len_def)
qed

lemma lead_three:
  "x < 16 \<Longrightarrow> y < 64 \<Longrightarrow> z < 64 \<Longrightarrow> (x = 0 \<Longrightarrow> 32 \<le> y) \<Longrightarrow> (x = 13 \<Longrightarrow> y < 32) \<Longrightarrow>
   utf8_lead [224 + x, 128 + y, 128 + z] = 3"
  by (cases "x = 0"; cases "x = 13"; simp add: cont_byte_def)

lemma lead_four:
  "x < 5 \<Longrightarrow> y < 64 \<Longrightarrow> z < 64 \<Longrightarrow> w < 64 \<Longrightarrow> (x = 0 \<Longrightarrow> 16 \<le> y) \<Longrightarrow> (x = 4 \<Longrightarrow> y < 16) \<Longrightarrow>
   utf8_lead [240 + x, 128 + y, 128 + z, 128 + w] = 4"
  by (cases "x = 0"; cases "x = 4"; simp add: cont_byte_def)

lemma valid_utf8_three:
  "(x::nat) < 16 \<Longrightarrow> (y::nat) < 64 \<Longrightarrow> (z::nat) < 64 \<Longrightarrow> (x = 0 \<Longrightarrow> 32 \<le> y) \<Longrightarrow> (x = 13 \<Longrightarrow> y < 32) \<Longrightarrow>
   valid_utf8 [char_of (224 + x), char_of (128 + y), char_of (128 + z)]"
  using valid_utf8_bytes [of "[224 + x, 128 + y, 128 + z]"] lead_three [of x y z] by simp

lemma valid_utf8_four:
  "(x::nat) < 5 \<Longrightarrow> (y::nat) < 64 \<Longrightarrow> (z::nat) < 64 \<Longrightarrow> (w::nat) < 64 \<Longrightarrow> (x = 0 \<Longrightarrow> 16 \<le> y) \<Longrightarrow> (x = 4 \<Longrightarrow> y < 16) \<Longrightarrow>
   valid_utf8 [char_of (240 + x), char_of (128 + y), char_of (128 + z), char_of (128 + w)]"
  using valid_utf8_bytes [of "[240 + x, 128 + y, 128 + z, 128 + w]"] lead_four [of x y z w] by simp

lemma sextet:
  fixes q :: nat
  shows "q div 64 = 13 \<Longrightarrow> q < 864 \<Longrightarrow> q mod 64 < 32"
    and "q div 64 = 0 \<Longrightarrow> 32 \<le> q \<Longrightarrow> 32 \<le> q mod 64"
    and "q div 64 = 0 \<Longrightarrow> 16 \<le> q \<Longrightarrow> 16 \<le> q mod 64"
    and "q div 64 = 4 \<Longrightarrow> q < 272 \<Longrightarrow> q mod 64 < 16"
  using div_mult_mod_eq [of q 64] by linarith+

lemma sextets:
  fixes n :: nat
  shows "n div 4096 = 13 \<Longrightarrow> n < 55296 \<Longrightarrow> n div 64 mod 64 < 32"
    and "n div 4096 = 0 \<Longrightarrow> 2048 \<le> n \<Longrightarrow> 32 \<le> n div 64 mod 64"
    and "n div 262144 = 0 \<Longrightarrow> 65536 \<le> n \<Longrightarrow> 16 \<le> n div 4096 mod 64"
    and "n div 262144 = 4 \<Longrightarrow> n < 1114112 \<Longrightarrow> n div 4096 mod 64 < 16"
proof -
  have "n div 4096 = n div 64 div 64" and "n div 262144 = n div 4096 div 64"
    by (simp_all add: div_mult2_eq [symmetric])
  moreover have "n < 55296 \<Longrightarrow> n div 64 < 864" "2048 \<le> n \<Longrightarrow> 32 \<le> n div 64"
    "65536 \<le> n \<Longrightarrow> 16 \<le> n div 4096" "n < 1114112 \<Longrightarrow> n div 4096 < 272"
    by linarith+
  ultimately show "n div 4096 = 13 \<Longrightarrow> n < 55296 \<Longrightarrow> n div 64 mod 64 < 32"
    and "n div 4096 = 0 \<Longrightarrow> 2048 \<le> n \<Longrightarrow> 32 \<le> n div 64 mod 64"
    and "n div 262144 = 0 \<Longrightarrow> 65536 \<le> n \<Longrightarrow> 16 \<le> n div 4096 mod 64"
    and "n div 262144 = 4 \<Longrightarrow> n < 1114112 \<Longrightarrow> n div 4096 mod 64 < 16"
    using sextet [of "n div 64"] sextet [of "n div 4096"] by metis+
qed

lemma valid_utf8_encode:
  assumes "n < 1114112" and "\<not> (55296 \<le> n \<and> n < 57344)"
  shows "valid_utf8 (utf8_encode n)"
proof -
  consider (a) "n < 128" | (b) "128 \<le> n" "n < 2048" | (c) "2048 \<le> n" "n < 65536" | (d) "65536 \<le> n"
    by linarith
  then show ?thesis
  proof cases
    case a
    then show ?thesis by (simp add: utf8_encode_def)
  next
    case b
    then have "2 \<le> n div 64" "n div 64 < 32" by auto
    then have "valid_utf8 (map char_of [192 + n div 64, 128 + n mod 64])"
      by (intro valid_utf8_bytes) (simp_all add: cont_byte_less)
    then show ?thesis using b by (simp add: utf8_encode_def)
  next
    case c
    have "n < 57344" if "n div 4096 = 13" using that by linarith
    then have "n div 64 mod 64 < 32" if "n div 4096 = 13"
      using that assms(2) sextets(1) [of n] by linarith
    moreover have "n div 4096 < 16" using c by linarith
    ultimately have "valid_utf8 [char_of (224 + n div 4096), char_of (128 + n div 64 mod 64), char_of (128 + n mod 64)]"
      using sextets(2) [of n] c by (intro valid_utf8_three) simp_all
    then show ?thesis using c by (simp add: utf8_encode_def)
  next
    case d
    have "n div 262144 < 5" using assms(1) by linarith
    then have "valid_utf8 [char_of (240 + n div 262144), char_of (128 + n div 4096 mod 64),
        char_of (128 + n div 64 mod 64), char_of (128 + n mod 64)]"
      using sextets(3,4) [of n] assms(1) d by (intro valid_utf8_four) simp_all
    then show ?thesis using d by (simp add: utf8_encode_def)
  qed
qed

lemma hex_val_less: "hex_val c = Some i \<Longrightarrow> i < 16"
  by (auto simp: hex_val_def Let_def split: if_splits)

lemma hex4_less:
  assumes "hex4 s = Some n"
  shows "n < 65536"
proof -
  obtain i j k l where n: "n = 4096 * i + 256 * j + 16 * k + l"
    and "i < 16" "j < 16" "k < 16" "l < 16"
    using assms by (cases s rule: hex4.cases) (auto split: option.splits dest!: hex_val_less)
  then show ?thesis by linarith
qed

lemma join_unit_valid: "hex4 h = Some n \<Longrightarrow> valid_utf8 (fst (join_unit n t))"
proof -
  assume h: "hex4 h = Some n"
  show ?thesis
    using hex4_less [OF h] unfolding join_unit_def
    by (auto split: option.splits intro!: valid_utf8_encode)
qed

lemma unescape_ascii: "unescape e = Some b \<Longrightarrow> valid_utf8 [b]"
  by (auto simp: unescape_def byte_def split: if_splits)

lemma pstr_valid_step:
  assumes "pstr s = Some (v, rest)"
  shows "v = [] \<or> (\<exists>u t v'. v = u @ v' \<and> valid_utf8 u \<and> pstr t = Some (v', rest) \<and> length t < length s)"
proof -
  let ?Q = "\<lambda>u t. \<exists>v'. v = u @ v' \<and> valid_utf8 u \<and> pstr t = Some (v', rest) \<and> length t < length s"
  obtain c t where s: "s = c # t" using assms by (cases s) (auto simp: pstr.simps [of "[]"])
  consider (quote) "c = CHR 0x22" | (esc) "c = CHR 0x5C"
    | (ascii) "c \<noteq> CHR 0x22" "c \<noteq> CHR 0x5C" "byte c < 128"
    | (high) "128 \<le> byte c" "c \<noteq> CHR 0x22" "c \<noteq> CHR 0x5C"
    by (metis not_less)
  then show ?thesis
  proof cases
    case quote
    then show ?thesis using assms s by (simp add: pstr_quote)
  next
    case esc
    then obtain e t' where t: "t = e # t'"
      using assms s by (subst (asm) pstr.simps) (auto split: list.splits)
    show ?thesis
    proof (cases "e = CHR ''u''")
      case True
      then obtain n where n: "hex4 t' = Some n"
        using assms s t esc by (subst (asm) pstr.simps) (auto split: option.splits)
      then have "?Q (fst (join_unit n (drop 4 t'))) (drop (snd (join_unit n (drop 4 t'))) (drop 4 t'))"
        using assms s t esc True join_unit_valid [OF n]
        by (subst (asm) pstr.simps) (auto simp: prepend_eq_Some)
      then show ?thesis by blast
    next
      case False
      then obtain b where b: "unescape e = Some b"
        using assms s t esc by (subst (asm) pstr.simps) (auto split: option.splits)
      then have "?Q [b] t'"
        using assms s t esc False unescape_ascii [OF b]
        by (subst (asm) pstr.simps) (auto simp: prepend_eq_Some)
      then show ?thesis by blast
    qed
  next
    case ascii
    then have "?Q [c] t"
      using assms s by (subst (asm) pstr.simps) (auto simp: prepend_eq_Some split: if_splits)
    then show ?thesis by blast
  next
    case high
    show ?thesis
    proof (cases "utf8_len s = 0")
      case True
      then have "?Q repl_char t"
        using assms s high by (subst (asm) pstr.simps) (auto simp: prepend_eq_Some split: if_splits)
      then show ?thesis by blast
    next
      case False
      then have "?Q (take (utf8_len s) s) (drop (utf8_len s) s)"
        using assms s high valid_utf8_take [of s]
        by (subst (asm) pstr.simps) (auto simp: prepend_eq_Some split: if_splits)
      then show ?thesis by blast
    qed
  qed
qed

lemma pstr_valid: "pstr s = Some (v, rest) \<Longrightarrow> valid_utf8 v"
proof (induction s arbitrary: v rule: length_induct)
  case (1 s)
  then show ?case using pstr_valid_step [OF "1.prems"] valid_utf8_append valid_utf8_Nil by blast
qed

lemma pnum_is: "pnum s = Some (v, r) \<Longrightarrow> jwf d v"
  by (auto simp: pnum_def is_num_def list_all_iff Let_def dest: set_takeWhileD split: if_splits)

lemma jwf_induct:
  "(\<forall>d s v r. pval f d s = Some (v, r) \<longrightarrow> jwf d v) \<and>
   (\<forall>d s vs r. pelems f d s = Some (vs, r) \<longrightarrow> (\<forall>v \<in> set vs. jwf d v)) \<and>
   (\<forall>d s ms r. pmembers f d s = Some (ms, r) \<longrightarrow> (\<forall>(k, v) \<in> set ms. valid_utf8 k \<and> jwf d v))"
proof (induction f)
  case 0
  then show ?case by simp
next
  case (Suc f)
  have val: "jwf d v" if run: "pval (Suc f) d s = Some (v, r)" for d s v r
  proof -
    have e: "pelems f d s = Some (vs, r) \<Longrightarrow> \<forall>v \<in> set vs. jwf d v" for d s vs r
      using Suc.IH by blast
    have m: "pmembers f d s = Some (ms, r) \<Longrightarrow> \<forall>(k, v) \<in> set ms. valid_utf8 k \<and> jwf d v" for d s ms r
      using Suc.IH by blast
    show ?thesis using run
      by (auto split: list.splits if_splits simp: plit_def
          dest!: e m intro: pnum_is pstr_valid)
  qed
  have elems: "\<forall>v \<in> set vs. jwf d v" if run: "pelems (Suc f) d s = Some (vs, r)" for d s vs r
  proof -
    obtain v r1 where v: "pval f d s = Some (v, r1)" using run by (auto split: option.splits)
    obtain c t where ct: "skip_ws r1 = c # t" using run v by (auto split: list.splits)
    have "vs = [v] \<or> (\<exists>vs'. pelems f d t = Some (vs', r) \<and> vs = v # vs')"
      using run v ct by (auto split: if_splits)
    moreover have "jwf d v" using v Suc.IH by blast
    moreover have "pelems f d t = Some (vs', r) \<Longrightarrow> \<forall>v \<in> set vs'. jwf d v" for vs'
      using Suc.IH by blast
    ultimately show ?thesis by auto
  qed
  have members: "\<forall>(k, v) \<in> set ms. valid_utf8 k \<and> jwf d v"
    if run: "pmembers (Suc f) d s = Some (ms, r)" for d s ms r
  proof -
    obtain s1 where q: "skip_ws s = CHR 0x22 # s1" using run by (auto split: list.splits if_splits)
    obtain k s2 where k: "pstr s1 = Some (k, s2)" using run q by (auto split: option.splits)
    obtain s3 where e: "skip_ws s2 = CHR '':'' # s3"
      using run q k by (auto split: list.splits if_splits)
    obtain v r1 where v: "pval f d s3 = Some (v, r1)" using run q k e by (auto split: option.splits)
    obtain c t where ct: "skip_ws r1 = c # t" using run q k e v by (auto split: list.splits)
    have "ms = [(k, v)] \<or> (\<exists>ms'. pmembers f d t = Some (ms', r) \<and> ms = (k, v) # ms')"
      using run q k e v ct by (auto split: if_splits)
    moreover have "jwf d v" using v Suc.IH by blast
    moreover have "valid_utf8 k" using k by (rule pstr_valid)
    moreover have "pmembers f d t = Some (ms', r) \<Longrightarrow> \<forall>(k, v) \<in> set ms'. valid_utf8 k \<and> jwf d v" for ms'
      using Suc.IH by blast
    ultimately show ?thesis by auto
  qed
  show ?case using val elems members by blast
qed

lemma pval_jwf: "pval f d s = Some (v, r) \<Longrightarrow> jwf d v"
  using jwf_induct by blast

lemma json_first_jwf: "json_first s = Some v \<Longrightarrow> jwf 10000 v"
  by (auto simp: json_first_def simp del: pval.simps dest: pval_jwf)

lemma json_parse_jwf: "json_parse s = Some v \<Longrightarrow> jwf 10000 v"
  by (auto simp: json_parse_def simp del: pval.simps split: option.splits if_splits dest: pval_jwf)

text \<open>\<open>json.Unmarshal\<close> up to the typed decoding, with the error of a malformed document.\<close>

definition json_read :: "string \<Rightarrow> goerr + json" where
  "json_read s = (case json_parse s of
     None \<Rightarrow> Inl (ErrorString ''invalid JSON document'') | Some v \<Rightarrow> Inr v)"

interpretation doc: codec jprint json_read "jwf 10000"
  by unfold_locales (simp add: json_read_def json_parse_jprint)

section \<open>Dynamic values\<close>

text \<open>
  A document decoded into an \<open>interface{}\<close> and encoded again: an object becomes a map, so of several
  members with one name the last counts and the names are sorted; a number becomes a \<open>float64\<close>. The
  integers up to \<open>2 ^ 53\<close> in canonical form are written as they were read; what becomes of any other
  literal (fractions, exponents, larger integers) is the argument \<open>f64\<close>: the text of the float it is
  rounded to, \<open>None\<close> if it is too large for one.
\<close>

definition num_any :: "(string \<Rightarrow> string option) \<Rightarrow> string \<Rightarrow> string option" where
  "num_any f64 l =
     (case ParseInt l of
        Inr n \<Rightarrow> (if \<bar>n\<bar> \<le> 2 ^ 53 \<and> Itoa n = l then Some l else f64 l)
      | Inl _ \<Rightarrow> f64 l)"

definition sorted_members :: "(string \<times> 'a) list \<Rightarrow> (string \<times> 'a) list" where
  "sorted_members ms = sort_key fst (merge_into ms [])"

fun any_ok :: "(string \<Rightarrow> string option) \<Rightarrow> json \<Rightarrow> bool" where
  "any_ok f64 (JNum l) = (num_any f64 l \<noteq> None)"
| "any_ok f64 (JArr vs) = (\<forall>v \<in> set vs. any_ok f64 v)"
| "any_ok f64 (JObj ms) = (\<forall>(k, v) \<in> set ms. any_ok f64 v)"
| "any_ok f64 _ = True"

fun any_val :: "(string \<Rightarrow> string option) \<Rightarrow> json \<Rightarrow> json" where
  "any_val f64 (JNum l) = JNum (case num_any f64 l of None \<Rightarrow> l | Some m \<Rightarrow> m)"
| "any_val f64 (JArr vs) = JArr (map (any_val f64) vs)"
| "any_val f64 (JObj ms) = JObj (sorted_members (map (\<lambda>(k, v). (k, any_val f64 v)) ms))"
| "any_val f64 v = v"

definition f64_ok :: "(string \<Rightarrow> string option) \<Rightarrow> bool" where
  "f64_ok f64 \<longleftrightarrow> (\<forall>l m. f64 l = Some m \<longrightarrow> is_num m)"

lemma set_merge_into: "set (merge_into ms acc) \<subseteq> set ms \<union> set acc"
proof (induction ms arbitrary: acc)
  case Nil
  then show ?case by (simp add: merge_into_def)
next
  case (Cons kv ms)
  have upd: "set (AList.update k v acc) \<subseteq> insert (k, v) (set acc)" for k v
    by (induction acc) auto
  show ?case using Cons [of "AList.update (fst kv) (snd kv) acc"] upd [of "fst kv" "snd kv"]
    by (auto simp: merge_into_def case_prod_unfold)
qed

lemma set_sorted_members: "set (sorted_members ms) \<subseteq> set ms"
  using set_merge_into [of ms "[]"] by (simp add: sorted_members_def)

lemma distinct_sorted_members: "distinct (map fst (sorted_members ms))"
proof -
  have "distinct (map fst (merge_into ms []))" by (rule distinct_merge_into) simp
  then show ?thesis by (simp add: sorted_members_def distinct_map)
qed

lemma map_of_sorted_members: "distinct (map fst ms) \<Longrightarrow> map_of (sorted_members ms) = map_of ms"
proof -
  assume d: "distinct (map fst ms)"
  have du: "distinct (map fst (merge_into ms []))" by (rule distinct_merge_into) simp
  have "set (sorted_members ms) = set (merge_into ms [])" by (simp add: sorted_members_def)
  then have "map_of (sorted_members ms) = map_of (merge_into ms [])"
    using map_of_inject_set [OF distinct_sorted_members du] by simp
  also have "\<dots> = map_of ms" using map_of_merge_into [OF d, of "[]"] by simp
  finally show ?thesis .
qed

lemma is_num_Itoa: "is_num (Itoa n)"
proof -
  have digits: "list_all is_digit (nat_digits m)" for m
    by (auto simp: list_all_iff is_digit_def byte_def dest: nat_digits_all)
  have tw: "takeWhile is_digit (nat_digits m) = nat_digits m" "dropWhile is_digit (nat_digits m) = []" for m
    using digits [of m] by (simp_all add: list_all_iff)
  have hd: "length (nat_digits m) = 1 \<or> hd (nat_digits m) \<noteq> CHR ''0''" for m
  proof (induction m rule: nat_digits.induct)
    case (1 m)
    show ?case
    proof (cases "m < 10")
      case True
      then show ?thesis by (subst nat_digits.simps) simp
    next
      case False
      have "nat_digits m = nat_digits (m div 10) @ [digit_char (m mod 10)]"
        using False by (subst nat_digits.simps) simp
      moreover have "hd (nat_digits (m div 10)) \<noteq> CHR ''0''"
      proof (cases "m div 10 < 10")
        case True
        then have "m div 10 \<noteq> 0" "nat_digits (m div 10) = [digit_char (m div 10)]"
          using False by (simp, subst nat_digits.simps, simp)
        moreover have "of_char (digit_char (m div 10)) \<noteq> (48::nat)"
          using True calculation(1) by simp
        ultimately show ?thesis by auto
      next
        case False
        then have "length (nat_digits (m div 10)) \<noteq> 1"
          by (subst nat_digits.simps) simp
        then show ?thesis using "1.IH" \<open>\<not> m < 10\<close> by blast
      qed
      ultimately show ?thesis by simp
    qed
  qed
  have sign: "(if nat_digits m \<noteq> [] \<and> hd (nat_digits m) = CHR ''-'' then tl (nat_digits m) else nat_digits m)
      = nat_digits m"
    "(if CHR ''-'' # nat_digits m \<noteq> [] \<and> hd (CHR ''-'' # nat_digits m) = CHR ''-''
      then tl (CHR ''-'' # nat_digits m) else CHR ''-'' # nat_digits m) = nat_digits m" for m
    by simp_all
  have "num_ok (nat_digits m)" "num_ok (CHR ''-'' # nat_digits m)" for m
    unfolding num_ok_def Let_def sign tw using hd by (simp_all add: frac_ok_def)
  moreover have "list_all num_char (nat_digits m)" for m
    using digits [of m] by (auto simp: list_all_iff num_char_def)
  moreover have "num_char (CHR ''-'')" by (simp add: num_char_def)
  ultimately show ?thesis by (simp add: is_num_def Itoa_def)
qed

end
