(* ===== verification/JsonData.thy ===== *)
theory JsonData
  imports GoJson
begin

text \<open>
  Typed decoding and encoding of JSON values as \<open>encoding/json\<close> does it for the structs of the driver:
  one decoder per Go type, an object's members matched to struct fields by name (exactly, else up to
  case), \<open>null\<close> leaving a field as it is, and the first mismatch making the whole result an error.
\<close>

section \<open>Decoders\<close>

text \<open>
  A decoder takes the document and the value the target holds so far. The text of a mismatch names the
  kind of the document only; no code of the driver looks at it.
\<close>

type_synonym 'a decoder = "json \<Rightarrow> 'a \<Rightarrow> goerr + 'a"

fun json_kind :: "json \<Rightarrow> string" where
  "json_kind JNull = ''null''"
| "json_kind (JBool b) = ''bool''"
| "json_kind (JNum l) = ''number''"
| "json_kind (JStr s) = ''string''"
| "json_kind (JArr vs) = ''array''"
| "json_kind (JObj ms) = ''object''"

definition type_error :: "json \<Rightarrow> goerr" where
  "type_error v = ErrorString (''json: cannot unmarshal '' @ json_kind v)"

fun dec_string :: "string decoder" where
  "dec_string (JStr t) s = Inr t"
| "dec_string JNull s = Inr s"
| "dec_string v s = Inl (type_error v)"

text \<open>An integer field wants a literal that \<open>strconv.ParseInt\<close> accepts; \<open>1.0\<close> and \<open>1e3\<close> are errors.\<close>

fun dec_int :: "int decoder" where
  "dec_int (JNum l) n = (case ParseInt l of Inr k \<Rightarrow> Inr k | Inl _ \<Rightarrow> Inl (type_error (JNum l)))"
| "dec_int JNull n = Inr n"
| "dec_int v n = Inl (type_error v)"

fun dec_elems :: "('b \<Rightarrow> goerr + 'a) \<Rightarrow> 'b list \<Rightarrow> goerr + 'a list" where
  "dec_elems f [] = Inr []"
| "dec_elems f (v # vs) =
     (case f v of
        Inl e \<Rightarrow> Inl e
      | Inr a \<Rightarrow> (case dec_elems f vs of Inl e \<Rightarrow> Inl e | Inr as \<Rightarrow> Inr (a # as)))"

text \<open>Slices (elements start from the zero value) and pointers (\<open>null\<close> is the nil pointer).\<close>

fun dec_slice :: "'a decoder \<Rightarrow> 'a \<Rightarrow> 'a list decoder" where
  "dec_slice f z (JArr vs) xs = dec_elems (\<lambda>v. f v z) vs"
| "dec_slice f z JNull xs = Inr []"
| "dec_slice f z v xs = Inl (type_error v)"

fun dec_ptr :: "'a decoder \<Rightarrow> 'a \<Rightarrow> 'a option decoder" where
  "dec_ptr f z JNull p = Inr None"
| "dec_ptr f z v p =
     (case f v (case p of None \<Rightarrow> z | Some a \<Rightarrow> a) of Inl e \<Rightarrow> Inl e | Inr a \<Rightarrow> Inr (Some a))"

text \<open>
  Names are compared up to case with the folding of \<open>encoding/json\<close>: the ASCII letters, and the two
  non-ASCII characters (the Kelvin sign and the long s) that fold to one.
\<close>

fun fold_name :: "string \<Rightarrow> string" where
  "fold_name [] = []"
| "fold_name (c # s) =
     (if c = CHR 0xE2 \<and> prefix [CHR 0x84, CHR 0xAA] s then CHR ''K'' # fold_name (drop 2 s)
      else if c = CHR 0xC5 \<and> prefix [CHR 0xBF] s then CHR ''S'' # fold_name (drop 1 s)
      else (if 97 \<le> byte c \<and> byte c \<le> 122 then char_of (byte c - 32) else c) # fold_name s)"

definition field_of :: "(string \<times> 'a) list \<Rightarrow> string \<Rightarrow> 'a option" where
  "field_of fs k =
     (case map_of fs k of
        Some f \<Rightarrow> Some f
      | None \<Rightarrow> map_option snd (find (\<lambda>(n, f). fold_name n = fold_name k) fs))"

fun dec_members :: "(string \<times> 'a decoder) list \<Rightarrow> (string \<times> json) list \<Rightarrow> 'a \<Rightarrow> goerr + 'a" where
  "dec_members fs [] s = Inr s"
| "dec_members fs ((k, v) # ms) s =
     (case field_of fs k of
        None \<Rightarrow> dec_members fs ms s
      | Some f \<Rightarrow> (case f v s of Inl e \<Rightarrow> Inl e | Inr s' \<Rightarrow> dec_members fs ms s'))"

fun dec_struct :: "(string \<times> 'a decoder) list \<Rightarrow> 'a decoder" where
  "dec_struct fs (JObj ms) s = dec_members fs ms s"
| "dec_struct fs JNull s = Inr s"
| "dec_struct fs v s = Inl (type_error v)"

text \<open>A struct field: the decoder of its type and how the struct is read and updated.\<close>

definition field :: "'b decoder \<Rightarrow> ('a \<Rightarrow> 'b) \<Rightarrow> ('b \<Rightarrow> 'a \<Rightarrow> 'a) \<Rightarrow> 'a decoder" where
  "field f get upd v s = (case f v (get s) of Inl e \<Rightarrow> Inl e | Inr b \<Rightarrow> Inr (upd b s))"

text \<open>\<open>json.Unmarshal\<close>: parse the text, then decode it.\<close>

definition json_unmarshal :: "'a decoder \<Rightarrow> 'a \<Rightarrow> string \<Rightarrow> goerr + 'a" where
  "json_unmarshal f z s = (case json_read s of Inl e \<Rightarrow> Inl e | Inr v \<Rightarrow> f v z)"

lemma json_unmarshal_jprint: "jwf 10000 v \<Longrightarrow> json_unmarshal f z (jprint v) = f v z"
  by (simp add: json_unmarshal_def doc.dec_enc)

lemma dec_elems_length: "dec_elems f vs = Inr xs \<Longrightarrow> length xs = length vs"
  by (induction vs arbitrary: xs) (auto split: sum.splits)

lemma dec_elems_map: "(\<And>x. x \<in> set xs \<Longrightarrow> f (g x) = Inr (h x)) \<Longrightarrow> dec_elems f (map g xs) = Inr (map h xs)"
  by (induction xs) auto

lemma dec_int_Itoa: "int64_range n \<Longrightarrow> dec_int (JNum (Itoa n)) m = Inr n"
  by (simp add: dec64.dec_enc)

section \<open>Dynamic values\<close>

text \<open>Decoding into an \<open>interface{}\<close>: any document, unless a number is too large for a \<open>float64\<close>.\<close>

definition dec_any :: "(string \<Rightarrow> string option) \<Rightarrow> json decoder" where
  "dec_any f64 v a = (if any_ok f64 v then Inr (any_val f64 v) else Inl (type_error v))"

lemma any_val_jwf: "jwf d v \<Longrightarrow> f64_ok f64 \<Longrightarrow> jwf d (any_val f64 v)"
proof (induction d v rule: jwf.induct)
  case (1 d l)
  then show ?case
    by (auto simp: num_any_def f64_ok_def split: option.splits sum.splits if_splits)
next
  case (4 d ms)
  let ?ms = "map (\<lambda>(k, v). (k, any_val f64 v)) ms"
  have "\<forall>(k, v) \<in> set ?ms. valid_utf8 k \<and> jwf (d - 1) v" using 4 by fastforce
  then have "\<forall>(k, v) \<in> set (sorted_members ?ms). valid_utf8 k \<and> jwf (d - 1) v"
    using set_sorted_members [of ?ms] by blast
  then show ?case using 4 by simp
qed auto

text \<open>
  Encoding a dynamic value and decoding the text again, which the client does with every reply, is
  decoding the value.
\<close>

lemma unmarshal_marshal_any:
  "jwf 10000 v \<Longrightarrow> f64_ok f64 \<Longrightarrow>
   json_unmarshal f z (jprint (any_val f64 v)) = f (any_val f64 v) z"
  by (simp add: json_unmarshal_jprint any_val_jwf)

section \<open>String maps\<close>

text \<open>
  \<open>json.Marshal\<close> of a \<open>map[string]string\<close> (names sorted) and the reverse the driver uses: decoding into an
  \<open>interface{}\<close> and converting that value by value.
\<close>

definition enc_strmap :: "gomap \<Rightarrow> json" where
  "enc_strmap m = JObj (sorted_members (map (\<lambda>(k, v). (k, JStr v)) m))"

definition utf8_map :: "gomap \<Rightarrow> bool" where
  "utf8_map m \<longleftrightarrow> distinct (map fst m) \<and> (\<forall>(k, v) \<in> set m. valid_utf8 k \<and> valid_utf8 v)"

lemma map_of_map_JStr: "map_of (map (\<lambda>(k, v). (k, JStr v)) m) k = map_option JStr (map_of m k)"
  by (induction m) auto

lemma enc_strmap_jwf: "utf8_map m \<Longrightarrow> 0 < d \<Longrightarrow> jwf d (enc_strmap m)"
proof -
  assume m: "utf8_map m" and d: "0 < d"
  let ?ms = "map (\<lambda>(k, v). (k, JStr v)) m"
  have "\<forall>(k, v) \<in> set ?ms. valid_utf8 k \<and> jwf (d - 1) v" using m by (fastforce simp: utf8_map_def)
  then have "\<forall>(k, v) \<in> set (sorted_members ?ms). valid_utf8 k \<and> jwf (d - 1) v"
    using set_sorted_members [of ?ms] by blast
  then show ?thesis using d by (simp add: enc_strmap_def)
qed

end
