(* ===== verification/Host.thy ===== *)
theory Host
  imports JsonData "HOL-Library.Code_Target_Nat"
begin

text \<open>
  The world the driver runs in. Everything that is not code of the repository is an argument: the
  record \<open>env\<close> holds one function per outside service (the storage cluster behind HTTP, the Kubernetes
  API, the commands of nvme-cli, the mount library, the kernel's device files, the clock), each on an
  outside state of any type \<open>'x\<close>. The state of a program is a \<open>world\<close>: that outside state, the files
  of the container, and the trace of the calls made so far. Files follow the rules of a POSIX tree; the
  function \<open>os_fault\<close> may let any file operation fail, before it has an effect or, when a tree is removed, after a part
  of it was.
\<close>

section \<open>Paths and files\<close>

text \<open>
  A path denotes the list of its components, resolved lexically from the root (the containers of the
  driver run in the root directory and their paths have no symbolic links).
\<close>

definition comp_step :: "string \<Rightarrow> string list \<Rightarrow> string list" where
  "comp_step c st = (if c = [] \<or> c = ''.'' then st else if c = ''..'' then drop 1 st else c # st)"

definition path_comps :: "string \<Rightarrow> string list" where
  "path_comps p = rev (fold comp_step (Split ''/'' p) [])"

text \<open>\<open>filepath.Clean\<close> and \<open>filepath.Join\<close> of two elements.\<close>

definition clean_step :: "bool \<Rightarrow> string \<Rightarrow> string list \<Rightarrow> string list" where
  "clean_step rooted c st =
     (if c = [] \<or> c = ''.'' then st
      else if c = ''..'' then
        (case st of [] \<Rightarrow> if rooted then [] else [c] | d # ds \<Rightarrow> if d = ''..'' then c # st else ds)
      else c # st)"

definition Clean :: "string \<Rightarrow> string" where
  "Clean s =
     (if s = [] then ''.''
      else let rooted = hd s = CHR ''/''; st = rev (fold (clean_step rooted) (Split ''/'' s) [])
           in if rooted then CHR ''/'' # Join ''/'' st
              else if st = [] then ''.'' else Join ''/'' st)"

definition JoinPath :: "string \<Rightarrow> string \<Rightarrow> string" where
  "JoinPath a b =
     (if a = [] then (if b = [] then [] else Clean b)
      else if b = [] then Clean a else Clean (a @ ''/'' @ b))"

datatype fnode = FFile string | FDir

type_synonym fs = "(string list \<times> fnode) list"

definition node_at :: "fs \<Rightarrow> string list \<Rightarrow> fnode option" where
  "node_at fs c = (if c = [] then Some FDir else map_of fs c)"

definition is_file :: "fs \<Rightarrow> string list \<Rightarrow> bool" where
  "is_file fs c = (case node_at fs c of Some (FFile _) \<Rightarrow> True | _ \<Rightarrow> False)"

definition missing_errno :: "fs \<Rightarrow> string list \<Rightarrow> errno" where
  "missing_errno fs c = (if list_ex (is_file fs) (prefixes (butlast c)) then ENOTDIR else ENOENT)"

definition fs_read :: "string list \<Rightarrow> fs \<Rightarrow> errno + (string \<times> fs)" where
  "fs_read c fs = (case node_at fs c of
     None \<Rightarrow> Inl (missing_errno fs c) | Some FDir \<Rightarrow> Inl EISDIR | Some (FFile t) \<Rightarrow> Inr (t, fs))"

definition fs_stat :: "string list \<Rightarrow> fs \<Rightarrow> errno + (fnode \<times> fs)" where
  "fs_stat c fs = (case node_at fs c of None \<Rightarrow> Inl (missing_errno fs c) | Some n \<Rightarrow> Inr (n, fs))"

definition fs_mkdir_all :: "string list \<Rightarrow> fs \<Rightarrow> errno + (unit \<times> fs)" where
  "fs_mkdir_all c fs =
     (if list_ex (is_file fs) (prefixes c) then Inl ENOTDIR
      else Inr ((), fold (\<lambda>q fs. if node_at fs q = None then AList.update q FDir fs else fs) (prefixes c) fs))"

definition fs_put :: "(string option \<Rightarrow> string) \<Rightarrow> string list \<Rightarrow> fs \<Rightarrow> errno + (unit \<times> fs)" where
  "fs_put new c fs =
     (if node_at fs c = Some FDir then Inl EISDIR
      else (case node_at fs (butlast c) of
              Some FDir \<Rightarrow>
                Inr ((), AList.update c
                  (FFile (new (case node_at fs c of Some (FFile t) \<Rightarrow> Some t | _ \<Rightarrow> None))) fs)
            | Some (FFile _) \<Rightarrow> Inl ENOTDIR
            | None \<Rightarrow> Inl (missing_errno fs c)))"

definition fs_write :: "string \<Rightarrow> string list \<Rightarrow> fs \<Rightarrow> errno + (unit \<times> fs)" where
  "fs_write t = fs_put (\<lambda>_. t)"

definition fs_create :: "string list \<Rightarrow> fs \<Rightarrow> errno + (unit \<times> fs)" where
  "fs_create = fs_put (\<lambda>old. case old of None \<Rightarrow> [] | Some t \<Rightarrow> t)"

definition fs_remove :: "string list \<Rightarrow> fs \<Rightarrow> errno + (unit \<times> fs)" where
  "fs_remove c fs =
     (case node_at fs c of
        None \<Rightarrow> Inl (missing_errno fs c)
      | Some n \<Rightarrow>
          (if n = FDir \<and> (c = [] \<or> list_ex (\<lambda>(q, _). strict_prefix c q) fs) then Inl ENOTEMPTY
           else Inr ((), AList.delete c fs)))"

definition fs_remove_all :: "string list \<Rightarrow> fs \<Rightarrow> errno + (unit \<times> fs)" where
  "fs_remove_all c fs =
     (if node_at fs c = None \<and> missing_errno fs c = ENOTDIR then Inl ENOTDIR
      else Inr ((), filter (\<lambda>(q, _). \<not> prefix c q) fs))"

lemma map_of_filter_key: "map_of (filter (\<lambda>(k, _). P k) m) k = (if P k then map_of m k else None)"
  by (induction m) auto

lemma fs_read_write:
  assumes "fs_write t c fs = Inr (u, fs')"
  shows "fs_read c fs' = Inr (t, fs')"
proof -
  have "c \<noteq> []" using assms by (auto simp: fs_write_def fs_put_def node_at_def)
  then show ?thesis using assms
    by (auto simp: fs_write_def fs_put_def fs_read_def node_at_def
        split: if_splits option.splits fnode.splits)
qed

lemma node_at_write_other:
  assumes "fs_write t c fs = Inr (u, fs')" and "q \<noteq> c"
  shows "node_at fs' q = node_at fs q"
  using assms
  by (auto simp: fs_write_def fs_put_def node_at_def split: if_splits option.splits fnode.splits)

lemma fs_read_remove:
  assumes "fs_remove c fs = Inr (u, fs')"
  shows "node_at fs' c = None"
  using assms by (auto simp: fs_remove_def node_at_def delete_conv' split: option.splits if_splits)

lemma node_at_remove_all:
  "fs_remove_all c fs = Inr (u, fs') \<Longrightarrow> q \<noteq> [] \<Longrightarrow>
   node_at fs' q = (if prefix c q then None else node_at fs q)"
  by (auto simp: fs_remove_all_def node_at_def map_of_filter_key split: if_splits)

section \<open>Services and the world\<close>

record http_request =
  rq_method :: string
  rq_url :: string
  rq_headers :: gomap
  rq_body :: string

record http_response =
  rs_status :: int
  rs_body :: string

datatype fsop =
    OpRead string
  | OpStat string
  | OpMkdirAll string
  | OpWrite string string
  | OpRemove string
  | OpRemoveAll string
  | OpCreate string

text \<open>A command that ran to its end (its error, its output), or that its time limit stopped.\<close>

datatype cmd_result = CmdDone "goerr option" string | CmdTimeout

datatype event =
    EvHttp http_request
  | EvLock string
  | EvUnlock string
  | EvCmd "string list"
  | EvSleep nat
  | EvFile fsop
  | EvMount string string string "string list"
  | EvFormatMount string string string "string list" "string list"
  | EvUnmount string
  | EvResize string string

text \<open>
  The outside services. \<open>run_cmd\<close> takes the command line and its time limit in seconds; \<open>dev_glob\<close> and
  \<open>dev_realpath\<close> are \<open>filepath.Glob\<close> and \<open>filepath.EvalSymlinks\<close> over the kernel's device files, \<open>sys_read\<close> and
  \<open>sys_readdir\<close> read sysfs (an entry of a directory is its name and the text it prints as); \<open>slice_sort\<close> is the
  order in which \<open>sort.Slice\<close> leaves more than 12 elements, from the values its comparison looks at; \<open>k8s_pvc\<close> and
  \<open>k8s_secret\<close> take a namespace, then a name; the \<open>mnt\<close> functions are the mount library's, which sees the files.
\<close>

record 'x env =
  os_getenv :: "string \<Rightarrow> string"
  os_hostname :: "goerr + string"
  os_fault :: "fsop \<Rightarrow> 'x \<Rightarrow> errno option \<times> 'x"
  os_partial :: "string \<Rightarrow> 'x \<Rightarrow> string list \<Rightarrow> bool"
  http_check :: "string \<Rightarrow> string \<Rightarrow> goerr option"
  http_do :: "http_request \<Rightarrow> 'x \<Rightarrow> (goerr + http_response) \<times> 'x"
  float_text :: "string \<Rightarrow> string option"
  fmt_v :: "json \<Rightarrow> string"
  clock_now :: "'x \<Rightarrow> int \<times> 'x"
  time_sleep :: "nat \<Rightarrow> 'x \<Rightarrow> 'x"
  run_cmd :: "string list \<Rightarrow> nat option \<Rightarrow> 'x \<Rightarrow> cmd_result \<times> 'x"
  dev_glob :: "string \<Rightarrow> 'x \<Rightarrow> (goerr + string list) \<times> 'x"
  dev_realpath :: "string \<Rightarrow> 'x \<Rightarrow> (goerr + string) \<times> 'x"
  sys_read :: "string \<Rightarrow> 'x \<Rightarrow> (goerr + string) \<times> 'x"
  sys_readdir :: "string \<Rightarrow> 'x \<Rightarrow> (goerr + (string \<times> string) list) \<times> 'x"
  slice_sort :: "bool list \<Rightarrow> nat list"
  grpc_dial :: "string \<Rightarrow> 'x \<Rightarrow> goerr option \<times> 'x"
  k8s_config :: "'x \<Rightarrow> goerr option \<times> 'x"
  k8s_client :: "'x \<Rightarrow> goerr option \<times> 'x"
  k8s_pvc :: "string \<Rightarrow> string \<Rightarrow> 'x \<Rightarrow> (goerr + gomap) \<times> 'x"
  k8s_secret :: "string \<Rightarrow> string \<Rightarrow> 'x \<Rightarrow> (goerr + gomap) \<times> 'x"
  mnt_is_mount :: "string \<Rightarrow> fs \<Rightarrow> 'x \<Rightarrow> (bool \<times> goerr option) \<times> 'x"
  mnt_corrupted :: "goerr \<Rightarrow> bool"
  mnt_mount :: "string \<Rightarrow> string \<Rightarrow> string \<Rightarrow> string list \<Rightarrow> 'x \<Rightarrow> goerr option \<times> 'x"
  mnt_format_mount :: "string \<Rightarrow> string \<Rightarrow> string \<Rightarrow> string list \<Rightarrow> string list \<Rightarrow> 'x \<Rightarrow> goerr option \<times> 'x"
  mnt_unmount :: "string \<Rightarrow> 'x \<Rightarrow> goerr option \<times> 'x"
  fs_need_resize :: "string \<Rightarrow> string \<Rightarrow> 'x \<Rightarrow> (goerr + bool) \<times> 'x"
  fs_resize :: "string \<Rightarrow> string \<Rightarrow> 'x \<Rightarrow> (goerr + bool) \<times> 'x"

record 'x world =
  w_ext :: 'x
  w_fs :: fs
  w_trace :: "event list"

type_synonym ('x, 'a) io = "('x world, 'a) prog"
type_synonym ('x, 'a) ioE = "('x world, goerr + 'a) prog"

section \<open>Elementary calls\<close>

text \<open>A call of a service: the outside state changes, the event (if any) is recorded.\<close>

definition service :: "event list \<Rightarrow> ('x \<Rightarrow> 'a \<times> 'x) \<Rightarrow> ('x, 'a) io" where
  "service ev f = (\<lambda>w. let (a, x) = f (w_ext w)
     in (Ret a, w\<lparr>w_ext := x, w_trace := w_trace w @ ev\<rparr>))"

text \<open>A file operation: refused by the kernel without effect, or carried out on the files.\<close>

definition file_op :: "'x env \<Rightarrow> fsop \<Rightarrow> (fs \<Rightarrow> errno + ('a \<times> fs)) \<Rightarrow> ('x, errno + 'a) io" where
  "file_op E op act = (\<lambda>w.
     let (fault, x) = os_fault E op (w_ext w);
         w1 = w\<lparr>w_ext := x, w_trace := w_trace w @ [EvFile op]\<rparr>
     in (case fault of
           Some n \<Rightarrow> (Ret (Inl n), w1)
         | None \<Rightarrow> (case act (w_fs w) of
                     Inl n \<Rightarrow> (Ret (Inl n), w1)
                   | Inr (a, fs) \<Rightarrow> (Ret (Inr a), w1\<lparr>w_fs := fs\<rparr>))))"

definition pathErr :: "string \<Rightarrow> string \<Rightarrow> ('x, errno + 'a) io \<Rightarrow> ('x, 'a) ioE" where
  "pathErr op p m = bindP m (\<lambda>r. ret (case r of Inl n \<Rightarrow> Inl (PathError op p n) | Inr a \<Rightarrow> Inr a))"

definition ReadFile :: "'x env \<Rightarrow> string \<Rightarrow> ('x, string) ioE" where
  "ReadFile E p = pathErr ''open'' p (file_op E (OpRead p) (fs_read (path_comps p)))"

definition Stat :: "'x env \<Rightarrow> string \<Rightarrow> ('x, fnode) ioE" where
  "Stat E p = pathErr ''stat'' p (file_op E (OpStat p) (fs_stat (path_comps p)))"

definition MkdirAll :: "'x env \<Rightarrow> string \<Rightarrow> ('x, unit) ioE" where
  "MkdirAll E p = pathErr ''mkdir'' p (file_op E (OpMkdirAll p) (fs_mkdir_all (path_comps p)))"

definition WriteFile :: "'x env \<Rightarrow> string \<Rightarrow> string \<Rightarrow> ('x, unit) ioE" where
  "WriteFile E p t = pathErr ''open'' p (file_op E (OpWrite p t) (fs_write t (path_comps p)))"

definition Remove :: "'x env \<Rightarrow> string \<Rightarrow> ('x, unit) ioE" where
  "Remove E p = pathErr ''remove'' p (file_op E (OpRemove p) (fs_remove (path_comps p)))"

text \<open>
  \<open>os.RemoveAll\<close>. A path that ends in a dot is refused at once. If the kernel refuses to remove something, what was
  removed before stays removed; \<open>os_partial\<close> says what that is.
\<close>

definition remove_tree :: "'x env \<Rightarrow> string \<Rightarrow> ('x, errno + unit) io" where
  "remove_tree E p = (\<lambda>w. case os_fault E (OpRemoveAll p) (w_ext w) of
     (None, x) \<Rightarrow> file_op E (OpRemoveAll p) (fs_remove_all (path_comps p)) w
   | (Some n, x) \<Rightarrow> (Ret (Inl n), w\<lparr>w_ext := x, w_trace := w_trace w @ [EvFile (OpRemoveAll p)],
        w_fs := filter (\<lambda>(q, _). \<not> (prefix (path_comps p) q \<and> os_partial E p (w_ext w) q)) (w_fs w)\<rparr>))"

definition RemoveAll :: "'x env \<Rightarrow> string \<Rightarrow> ('x, unit) ioE" where
  "RemoveAll E p =
     (if p = [] then ret (Inr ())
      else if p = ''.'' \<or> suffix ''/.'' p then throw (PathError ''RemoveAll'' p EINVAL)
      else pathErr ''unlinkat'' p (remove_tree E p))"

text \<open>\<open>os.OpenFile(p, O_CREATE|O_RDWR)\<close> followed by a close.\<close>

definition CreateFile :: "'x env \<Rightarrow> string \<Rightarrow> ('x, unit) ioE" where
  "CreateFile E p = pathErr ''open'' p (file_op E (OpCreate p) (fs_create (path_comps p)))"

definition http_send :: "'x env \<Rightarrow> http_request \<Rightarrow> ('x, http_response) ioE" where
  "http_send E rq = service [EvHttp rq] (http_do E rq)"

definition Sleep :: "'x env \<Rightarrow> nat \<Rightarrow> ('x, unit) io" where
  "Sleep E n = service [EvSleep n] (\<lambda>x. ((), time_sleep E n x))"

definition exec_run :: "'x env \<Rightarrow> string list \<Rightarrow> nat option \<Rightarrow> ('x, cmd_result) io" where
  "exec_run E cmd limit = service [EvCmd cmd] (run_cmd E cmd limit)"

definition Glob :: "'x env \<Rightarrow> string \<Rightarrow> ('x, string list) ioE" where
  "Glob E pat = service [] (dev_glob E pat)"

definition EvalSymlinks :: "'x env \<Rightarrow> string \<Rightarrow> ('x, string) ioE" where
  "EvalSymlinks E p = service [] (dev_realpath E p)"

lemmas host_code [code] = service_def [THEN fun_cong] file_op_def [THEN fun_cong] pathErr_def [THEN fun_cong]
  ReadFile_def [THEN fun_cong] Stat_def [THEN fun_cong] MkdirAll_def [THEN fun_cong]
  WriteFile_def [THEN fun_cong] Remove_def [THEN fun_cong] remove_tree_def [THEN fun_cong] RemoveAll_def [THEN fun_cong]
  CreateFile_def [THEN fun_cong] http_send_def [THEN fun_cong] Sleep_def [THEN fun_cong]
  exec_run_def [THEN fun_cong] Glob_def [THEN fun_cong] EvalSymlinks_def [THEN fun_cong]

section \<open>Effects\<close>

text \<open>
  The files are not changed; the trace grows by events of one kind only. Both are effects in the sense
  of the prelude, so they compose along every program of the driver.
\<close>

definition same_fs :: "'x world \<Rightarrow> 'x world \<Rightarrow> bool" where
  "same_fs w w' \<longleftrightarrow> w_fs w' = w_fs w"

definition extends :: "(event \<Rightarrow> bool) \<Rightarrow> 'x world \<Rightarrow> 'x world \<Rightarrow> bool" where
  "extends P w w' \<longleftrightarrow> (\<exists>es. w_trace w' = w_trace w @ es \<and> list_all P es)"

interpretation fsf: effect_rel same_fs
  by unfold_locales (simp_all add: same_fs_def)

interpretation tr: effect_rel "extends P" for P
proof unfold_locales
  fix s t u :: "'a world"
  show "extends P s s" by (simp add: extends_def)
  assume "extends P s t" and "extends P t u"
  then show "extends P s u" unfolding extends_def by fastforce
qed

lemma extends_mono: "extends P w w' \<Longrightarrow> (\<And>e. P e \<Longrightarrow> Q e) \<Longrightarrow> extends Q w w'"
  unfolding extends_def list_all_iff by blast

lemma keeps_mono: "keeps R m \<Longrightarrow> (\<And>s t. R s t \<Longrightarrow> Q s t) \<Longrightarrow> keeps Q m"
  by (simp add: keeps_def)

lemma keeps_service_fs [intro]: "keeps same_fs (service ev f)"
  by (simp add: keeps_def same_fs_def service_def split: prod.splits)

lemma keeps_service_tr: "list_all P ev \<Longrightarrow> keeps (extends P) (service ev f)"
  by (simp add: keeps_def extends_def service_def split: prod.splits)

lemma keeps_file_op_tr: "P (EvFile op) \<Longrightarrow> keeps (extends P) (file_op E op act)"
  by (rule keepsI)
    (auto simp: extends_def file_op_def Let_def split: prod.splits option.splits sum.splits)

lemma keeps_file_op_fs:
  assumes "\<And>fs a fs'. act fs = Inr (a, fs') \<Longrightarrow> fs' = fs"
  shows "keeps same_fs (file_op E op act)"
  by (rule keepsI)
    (auto simp: same_fs_def file_op_def Let_def dest: assms split: prod.splits option.splits sum.splits)

lemma keeps_ReadFile_fs [intro]: "keeps same_fs (ReadFile E p)"
  unfolding ReadFile_def pathErr_def
  by (intro fsf.keeps_rules keeps_file_op_fs)
    (auto simp: fs_read_def split: option.splits fnode.splits)

lemma keeps_ReadFile_tr: "P (EvFile (OpRead p)) \<Longrightarrow> keeps (extends P) (ReadFile E p)"
  unfolding ReadFile_def pathErr_def by (intro tr.keeps_rules keeps_file_op_tr)

lemma keeps_remove_tree_tr: "P (EvFile (OpRemoveAll p)) \<Longrightarrow> keeps (extends P) (remove_tree E p)"
  by (rule keepsI)
    (auto simp: remove_tree_def extends_def file_op_def Let_def split: prod.splits option.splits sum.splits)

lemma RemoveAll_node:
  assumes "RemoveAll E p w = (r, w')"
  shows "node_at (w_fs w') q = node_at (w_fs w) q \<or>
    prefix (path_comps p) q \<and> node_at (w_fs w') q = None"
proof (cases "q = []")
  case False
  then show ?thesis using assms
    by (auto simp: RemoveAll_def pathErr_def remove_tree_def file_op_def Let_def bindP_def ret_def throw_def node_at_def
        map_of_filter_key fs_remove_all_def split: prod.splits option.splits sum.splits if_splits outcome.splits)
qed (simp add: node_at_def)

section \<open>A world to evaluate in\<close>

text \<open>
  The environment of the examples: files never fail, the storage cluster answers with the replies in its
  state, one after the other, every command succeeds without output, devices resolve to themselves,
  nothing is mounted, and in Kubernetes every claim exists, without annotations, and no secret does. It instantiates \<open>env\<close> in the examples only.
\<close>

definition demo_env :: "(goerr + http_response) list env" where
  "demo_env = \<lparr>
     os_getenv = (\<lambda>_. []),
     os_hostname = Inr ''node-1'',
     os_fault = (\<lambda>_ x. (None, x)),
     os_partial = (\<lambda>_ _ _. False),
     http_check = (\<lambda>_ _. None),
     http_do = (\<lambda>_ x. (case x of [] \<Rightarrow> (Inl (ErrorString ''connection refused''), []) | r # rs \<Rightarrow> (r, rs))),
     float_text = (\<lambda>_. None),
     fmt_v = (\<lambda>_. []),
     clock_now = (\<lambda>x. (0, x)),
     time_sleep = (\<lambda>_ x. x),
     run_cmd = (\<lambda>_ _ x. (CmdDone None [], x)),
     dev_glob = (\<lambda>p x. (Inr [p], x)),
     dev_realpath = (\<lambda>p x. (Inr p, x)),
     sys_read = (\<lambda>_ x. (Inr [], x)),
     sys_readdir = (\<lambda>_ x. (Inr [], x)),
     slice_sort = (\<lambda>bs. [0..<length bs]),
     grpc_dial = (\<lambda>_ x. (None, x)),
     k8s_config = (\<lambda>x. (None, x)),
     k8s_client = (\<lambda>x. (None, x)),
     k8s_pvc = (\<lambda>_ _ x. (Inr [], x)),
     k8s_secret = (\<lambda>_ _ x. (Inl (ErrorString ''not found''), x)),
     mnt_is_mount = (\<lambda>p fs x. ((False, if node_at fs (path_comps p) = None then Some ErrNotExist else None), x)),
     mnt_corrupted = (\<lambda>_. False),
     mnt_mount = (\<lambda>_ _ _ _ x. (None, x)),
     mnt_format_mount = (\<lambda>_ _ _ _ _ x. (None, x)),
     mnt_unmount = (\<lambda>_ x. (None, x)),
     fs_need_resize = (\<lambda>_ _ x. (Inr False, x)),
     fs_resize = (\<lambda>_ _ x. (Inr True, x))\<rparr>"

definition demo_world :: "fs \<Rightarrow> (goerr + http_response) list \<Rightarrow> (goerr + http_response) list world" where
  "demo_world fs replies = \<lparr>w_ext = replies, w_fs = fs, w_trace = []\<rparr>"

end
