(* ===== verification/UtilBase.thy ===== *)
theory UtilBase
  imports Host "HOL-Library.Signed_Division"
begin

text \<open>
  The helpers of \<^verbatim>\<open>pkg/util/util.go\<close> which the servers call: rounding to mebibytes, environment variables,
  JSON files, and the stash of a volume's context in the staging directory. The stash is an interface,
  the locale \<open>ctx_store\<close>: what was stashed is what a lookup returns, until it is cleaned up.
\<close>

section \<open>Numbers, environment, files\<close>

text \<open>\<open>int64\<close> arithmetic: the sum wraps, the division truncates towards zero.\<close>

definition ToMiB :: "int \<Rightarrow> int" where
  "ToMiB bytes = (let mi = 1024 * 1024 in wrap64 (bytes + mi - 1) sdiv mi)"

definition FromEnv :: "'x env \<Rightarrow> string \<Rightarrow> string \<Rightarrow> string" where
  "FromEnv E env def = (let s = os_getenv E env in if s \<noteq> [] then s else def)"

definition ParseJSONFile :: "'x env \<Rightarrow> 'a decoder \<Rightarrow> 'a \<Rightarrow> string \<Rightarrow> ('x, 'a) ioE" where
  "ParseJSONFile E f z fileName =
     bindE (ReadFile E fileName) (\<lambda>bytes. ret (json_unmarshal f z bytes))"

lemma ToMiB_nonneg: "0 \<le> bytes \<Longrightarrow> bytes \<le> 2 ^ 63 - 2 ^ 20 \<Longrightarrow> ToMiB bytes = (bytes + 2 ^ 20 - 1) div 2 ^ 20"
  by (simp add: ToMiB_def wrap64_id int64_range_def signed_divide_int_def sgn_if)

text \<open>
  Requested capacities are rounded up to mebibytes: for every size that is not within a mebibyte of the
  \<open>int64\<close> limit the result is the least number of mebibytes that holds it.
\<close>

theorem ToMiB_rounds_up:
  assumes "0 \<le> bytes" and "bytes \<le> 2 ^ 63 - 2 ^ 20"
  shows "ToMiB bytes \<le> m \<longleftrightarrow> bytes \<le> m * 2 ^ 20"
proof -
  have "x div 1048576 \<le> m \<longleftrightarrow> x \<le> m * 1048576 + 1048575" for x :: int
  proof -
    obtain q r where "x div 1048576 = q" and "x = q * 1048576 + r" and "0 \<le> r" and "r < 1048576"
      by (metis div_mult_mod_eq pos_mod_bound pos_mod_sign zero_less_numeral)
    then show ?thesis by linarith
  qed
  then have "(bytes + 1048575) div 1048576 \<le> m \<longleftrightarrow> bytes \<le> m * 1048576" by simp
  then show ?thesis using ToMiB_nonneg [OF assms] by (simp add: add.commute)
qed

theorem ToMiB_rounds_up_witness:
  "ToMiB 1048577 \<le> 2 \<and> \<not> ToMiB 1048577 \<le> 1"
  using ToMiB_rounds_up [of 1048577 2] ToMiB_rounds_up [of 1048577 1] by simp

text \<open>
  The addition in the rounding is not guarded: a request within a mebibyte of the \<open>int64\<close> limit wraps
  around and comes out as a negative number of mebibytes.
\<close>

theorem ToMiB_overflow:
  assumes "2 ^ 63 - 2 ^ 20 < bytes" and "bytes < 2 ^ 63"
  shows "ToMiB bytes < 0"
proof -
  have "(bytes + 1048575 + 2 ^ 63) mod 2 ^ 64 = (bytes + 1048575 - 2 ^ 63) mod 2 ^ 64"
    using mod_add_self2 [of "bytes + 1048575 - 2 ^ 63" "2 ^ 64"] by simp
  also have "\<dots> = bytes + 1048575 - 2 ^ 63" using assms by (intro mod_pos_pos_trivial) simp_all
  finally have "wrap64 (bytes + 1048575) = bytes + 1048575 - 2 ^ 64" by (simp add: wrap64_mod)
  moreover have "2 ^ 20 \<le> 2 ^ 64 - (bytes + 1048575)" using assms by simp
  then have "0 < (2 ^ 64 - (bytes + 1048575)) div 2 ^ 20"
    by (subst pos_imp_zdiv_pos_iff) simp_all
  ultimately show ?thesis using assms by (simp add: ToMiB_def signed_divide_int_def sgn_if add.commute)
qed

theorem ToMiB_overflow_witness: "ToMiB 9223372036854775807 < 0"
  using ToMiB_overflow [of 9223372036854775807] by simp

section \<open>The stash of a volume's context\<close>

definition volumeContextFileName :: string where "volumeContextFileName = ''volume-context.json''"

definition xpuContextFileName :: string where "xpuContextFileName = ''xpu-context.json''"

text \<open>
  A \<open>map[string]string\<close> given to the stash may be nil, \<open>None\<close> here; it is written as \<open>null\<close> then. The
  dynamic type test of the conversion fails on anything but an object whose members are all strings.
\<close>

definition enc_ctx :: "gomap option \<Rightarrow> json" where
  "enc_ctx data = (case data of None \<Rightarrow> JNull | Some m \<Rightarrow> enc_strmap m)"

fun ConvertInterfaceToMap :: "json \<Rightarrow> goerr + gomap" where
  "ConvertInterfaceToMap (JObj ms) =
     dec_elems (\<lambda>(k, v). case v of JStr t \<Rightarrow> Inr (k, t)
       | _ \<Rightarrow> Inl (ErrorString (''the value for key '' @ k @ '' is not a string''))) ms"
| "ConvertInterfaceToMap _ = Inl (ErrorString ''the data is not a map[string]interface{}'')"

definition stashContext :: "'x env \<Rightarrow> gomap option \<Rightarrow> string \<Rightarrow> string \<Rightarrow> ('x, unit) ioE" where
  "stashContext E data folder fileName =
     bindE
       (bindP (Stat E folder) (\<lambda>r. case r of
            Inl err \<Rightarrow> if is_not_exist err then MkdirAll E folder else ret (Inr ())
          | Inr _ \<Rightarrow> ret (Inr ())))
       (\<lambda>_. let fPath = JoinPath folder fileName in
         mapErr (Wrapped (''failed to marshall context JSON at path ('' @ fPath @ ''): ''))
           (WriteFile E fPath (jprint (enc_ctx data))))"

definition lookupContext :: "'x env \<Rightarrow> string \<Rightarrow> string \<Rightarrow> ('x, json) ioE" where
  "lookupContext E folder fileName =
     (let fPath = JoinPath folder fileName in
      bindE
        (mapErr (\<lambda>err. if is_not_exist err then ErrorString ''volume context JSON file not found''
             else Wrapped (''failed to read stashed context JSON from path ('' @ fPath @ ''): '') err)
           (ReadFile E fPath))
        (\<lambda>encodedBytes.
          mapErr (Wrapped (''failed to unmarshall stashed context JSON from path ('' @ fPath @ ''): ''))
            (ret (json_unmarshal (dec_any (float_text E)) JNull encodedBytes))))"

definition cleanUpContext :: "'x env \<Rightarrow> string \<Rightarrow> string \<Rightarrow> ('x, unit) ioE" where
  "cleanUpContext E folder fileName =
     (let fPath = JoinPath folder fileName in
      mapErr (Wrapped (''failed to cleanup volume context stash ('' @ fPath @ ''): '')) (Remove E fPath))"

definition StashVolumeContext :: "'x env \<Rightarrow> gomap option \<Rightarrow> string \<Rightarrow> ('x, unit) ioE" where
  "StashVolumeContext E volumeContext path = stashContext E volumeContext path volumeContextFileName"

definition LookupVolumeContext :: "'x env \<Rightarrow> string \<Rightarrow> ('x, gomap) ioE" where
  "LookupVolumeContext E path =
     bindE (lookupContext E path volumeContextFileName) (\<lambda>data. ret (ConvertInterfaceToMap data))"

definition CleanUpVolumeContext :: "'x env \<Rightarrow> string \<Rightarrow> ('x, unit) ioE" where
  "CleanUpVolumeContext E path = cleanUpContext E path volumeContextFileName"

definition StashXPUContext :: "'x env \<Rightarrow> gomap option \<Rightarrow> string \<Rightarrow> ('x, unit) ioE" where
  "StashXPUContext E xpuContext path = stashContext E xpuContext path xpuContextFileName"

definition LookupXPUContext :: "'x env \<Rightarrow> string \<Rightarrow> ('x, gomap) ioE" where
  "LookupXPUContext E path =
     bindE (lookupContext E path xpuContextFileName) (\<lambda>data. ret (ConvertInterfaceToMap data))"

definition CleanUpXPUContext :: "'x env \<Rightarrow> string \<Rightarrow> ('x, unit) ioE" where
  "CleanUpXPUContext E path = cleanUpContext E path xpuContextFileName"

section \<open>The contract of the stash\<close>

text \<open>
  The contract between the stash and the node server. \<open>slot w p\<close> is what the world holds for the staging
  directory \<open>p\<close>; a later state in which that is unchanged still has the context, whatever else happened.
  \<open>readable w p\<close> says that the next read of the file is not refused by the kernel.
\<close>

locale ctx_store =
  fixes stash :: "gomap option \<Rightarrow> string \<Rightarrow> ('w, goerr + unit) prog"
    and lookup :: "string \<Rightarrow> ('w, goerr + gomap) prog"
    and cleanup :: "string \<Rightarrow> ('w, goerr + unit) prog"
    and slot :: "'w \<Rightarrow> string \<Rightarrow> 's"
    and readable :: "'w \<Rightarrow> string \<Rightarrow> bool"
  assumes lookup_stash: "utf8_map m \<Longrightarrow> stash (Some m) p w = (Ret (Inr ()), w1) \<Longrightarrow>
      slot w2 p = slot w1 p \<Longrightarrow> readable w2 p \<Longrightarrow>
      \<exists>m' w3. lookup p w2 = (Ret (Inr m'), w3) \<and> map_of m' = map_of m"
    and lookup_slot: "lookup p w = (r, w1) \<Longrightarrow> slot w1 q = slot w q"
    and lookup_cleanup: "cleanup p w = (Ret (Inr ()), w1) \<Longrightarrow>
      slot w2 p = slot w1 p \<Longrightarrow> readable w2 p \<Longrightarrow> \<exists>e w3. lookup p w2 = (Ret (Inl e), w3)"
    and cleanup_once: "cleanup p w = (Ret (Inr ()), w1) \<Longrightarrow>
      slot w2 p = slot w1 p \<Longrightarrow> cleanup p w2 \<noteq> (Ret (Inr ()), w3)"
begin

lemma lookup_again:
  assumes "utf8_map m" and "stash (Some m) p w = (Ret (Inr ()), w1)" and "slot w2 p = slot w1 p"
    and "lookup q w2 = (r, w3)" and "readable w3 p"
  shows "\<exists>m' w4. lookup p w3 = (Ret (Inr m'), w4) \<and> map_of m' = map_of m"
  using lookup_stash [OF assms(1,2)] lookup_slot [OF assms(4)] assms(3,5) by metis

lemma restash_wins:
  assumes "utf8_map m'" and "stash (Some m) p w = (r, w1)" and "stash (Some m') p w1 = (Ret (Inr ()), w2)"
    and "readable w2 p"
  shows "\<exists>m'' w3. lookup p w2 = (Ret (Inr m''), w3) \<and> map_of m'' = map_of m'"
  using lookup_stash [OF assms(1,3) refl assms(4)] .

lemma not_stashed_twice_cleaned:
  assumes "cleanup p w = (Ret (Inr ()), w1)" and "lookup q w1 = (r, w2)"
  shows "cleanup p w2 \<noteq> (Ret (Inr ()), w3)"
  using cleanup_once [OF assms(1) lookup_slot [OF assms(2)]] .

end

lemma JObj_strings:
  assumes "\<forall>(k, v) \<in> set ms. \<exists>t. v = JStr t"
  shows "\<exists>m. ms = map (\<lambda>(k, t). (k, JStr t)) m"
  using assms
proof (induction ms)
  case (Cons kv ms)
  then obtain m where "ms = map (\<lambda>(k, t). (k, JStr t)) m" by auto
  moreover obtain k t where "kv = (k, JStr t)" using Cons.prems by (cases kv) auto
  ultimately have "kv # ms = map (\<lambda>(k, t). (k, JStr t)) ((k, t) # m)" by simp
  then show ?case by (rule exI)
qed simp

lemma ConvertInterfaceToMap_strings:
  "ConvertInterfaceToMap (JObj (map (\<lambda>(k, t). (k, JStr t)) m)) = Inr m"
proof -
  have "dec_elems (\<lambda>(k, v). case v of JStr t \<Rightarrow> Inr (k, t) | _ \<Rightarrow> Inl (f k))
      (map (\<lambda>(k, t). (k, JStr t)) m) = Inr (map id m)" for f
    by (rule dec_elems_map) auto
  then show ?thesis by simp
qed

text \<open>Writing a string map, reading it as a dynamic value and converting that gives the map back.\<close>

lemma strmap_roundtrip:
  assumes m: "utf8_map m"
  shows "\<exists>v m'. json_unmarshal (dec_any f64) JNull (jprint (enc_ctx (Some m))) = Inr v \<and>
    ConvertInterfaceToMap v = Inr m' \<and> map_of m' = map_of m"
proof -
  let ?js = "map (\<lambda>(k, t). (k, JStr t))"
  have strs: "\<exists>m'. sorted_members (?js q) = ?js m'" for q
    using set_sorted_members [of "?js q"] by (intro JObj_strings) auto
  obtain m1 where m1: "sorted_members (?js m) = ?js m1" using strs by blast
  obtain m2 where m2: "sorted_members (?js m1) = ?js m2" using strs by blast
  have vals: "map (\<lambda>(k, v). (k, any_val f64 v)) (?js q) = ?js q" for q by auto
  have "distinct (map fst (?js m))"
    using m by (simp add: utf8_map_def comp_def case_prod_unfold)
  then have "map_of (?js m2) = map_of (?js m)"
    using distinct_sorted_members [of "?js m"] m1 m2 by (metis map_of_sorted_members)
  then have eq: "map_option JStr (map_of m2 k) = map_option JStr (map_of m k)" for k
    by (metis map_of_map_JStr)
  have "map_of m2 k = map_of m k" for k
    using eq [of k] by (cases "map_of m2 k"; cases "map_of m k") auto
  then have map: "map_of m2 = map_of m" by blast
  have any: "any_val f64 (JObj (?js m1)) = JObj (?js m2)"
    by (simp only: any_val.simps vals m2)
  have "any_ok f64 (enc_strmap m)" by (auto simp: enc_strmap_def m1)
  then have "json_unmarshal (dec_any f64) JNull (jprint (enc_ctx (Some m))) = Inr (JObj (?js m2))"
    using m by (simp add: enc_ctx_def json_unmarshal_jprint enc_strmap_jwf dec_any_def)
      (simp only: enc_strmap_def m1 any)
  then show ?thesis using ConvertInterfaceToMap_strings map by blast
qed

section \<open>The stash meets its contract\<close>

definition ctx_file :: "string \<Rightarrow> string \<Rightarrow> string list" where
  "ctx_file fileName path = path_comps (JoinPath path fileName)"

definition ctx_slot :: "string \<Rightarrow> 'x world \<Rightarrow> string \<Rightarrow> fnode option" where
  "ctx_slot fileName w path = node_at (w_fs w) (ctx_file fileName path)"

definition ctx_readable :: "'x env \<Rightarrow> string \<Rightarrow> 'x world \<Rightarrow> string \<Rightarrow> bool" where
  "ctx_readable E fileName w path \<longleftrightarrow>
     fst (os_fault E (OpRead (JoinPath path fileName)) (w_ext w)) = None"

lemma file_op_InrE:
  assumes "file_op E op act w = (Ret (Inr a), w')"
  obtains fs where "act (w_fs w) = Inr (a, fs)" and "w_fs w' = fs"
  using assms by (auto simp: file_op_def Let_def split: prod.splits option.splits sum.splits)

lemma pathErr_InrE:
  assumes "pathErr op p m w = (Ret (Inr a), w')"
  shows "m w = (Ret (Inr a), w')"
  using assms unfolding pathErr_def by (auto elim!: bindP_RetE simp: ret_def split: sum.splits)

lemma WriteFile_InrE:
  assumes "WriteFile E p t w = (Ret (Inr a), w')"
  shows "fs_write t (path_comps p) (w_fs w) = Inr ((), w_fs w')"
  using assms by (auto simp: WriteFile_def dest!: pathErr_InrE elim!: file_op_InrE)

lemma Remove_InrE:
  assumes "Remove E p w = (Ret (Inr a), w')"
  shows "fs_remove (path_comps p) (w_fs w) = Inr ((), w_fs w')"
  using assms by (auto simp: Remove_def dest!: pathErr_InrE elim!: file_op_InrE)

lemma ReadFile_file:
  assumes "fst (os_fault E (OpRead p) (w_ext w)) = None"
    and "node_at (w_fs w) (path_comps p) = Some (FFile t)"
  shows "\<exists>w'. ReadFile E p w = (Ret (Inr t), w') \<and> w_fs w' = w_fs w"
  using assms
  by (auto simp: ReadFile_def pathErr_def bindP_def ret_def file_op_def fs_read_def split: prod.splits)

lemma ReadFile_missing:
  assumes "node_at (w_fs w) (path_comps p) = None"
  shows "\<exists>e w'. ReadFile E p w = (Ret (Inl e), w')"
  using assms
  by (auto simp: ReadFile_def pathErr_def bindP_def ret_def file_op_def Let_def fs_read_def
      split: prod.splits option.splits outcome.splits)

lemma stashContext_slot:
  assumes "stashContext E data p f w = (Ret (Inr ()), w')"
  shows "ctx_slot f w' p = Some (FFile (jprint (enc_ctx data)))"
proof -
  obtain w1 where "WriteFile E (JoinPath p f) (jprint (enc_ctx data)) w1 = (Ret (Inr ()), w')"
    using assms unfolding stashContext_def Let_def by (auto elim!: bindE_InrE dest!: mapErr_InrE)
  then have "fs_write (jprint (enc_ctx data)) (ctx_file f p) (w_fs w1) = Inr ((), w_fs w')"
    unfolding ctx_file_def by (rule WriteFile_InrE)
  then have "fs_read (ctx_file f p) (w_fs w') = Inr (jprint (enc_ctx data), w_fs w')"
    by (rule fs_read_write)
  then show ?thesis by (auto simp: ctx_slot_def fs_read_def split: option.splits fnode.splits)
qed

lemma cleanUpContext_slot:
  assumes "cleanUpContext E p f w = (Ret (Inr ()), w')"
  shows "ctx_slot f w p \<noteq> None" and "ctx_slot f w' p = None"
proof -
  have "fs_remove (ctx_file f p) (w_fs w) = Inr ((), w_fs w')"
    using assms unfolding cleanUpContext_def Let_def ctx_file_def
    by (auto dest!: mapErr_InrE Remove_InrE)
  then show "ctx_slot f w p \<noteq> None" "ctx_slot f w' p = None"
    by (auto simp: ctx_slot_def fs_read_remove) (auto simp: fs_remove_def split: option.splits)
qed

lemma keeps_lookupContext_fs: "keeps same_fs (lookupContext E p f)"
  unfolding lookupContext_def Let_def by (intro fsf.keeps_rules keeps_ReadFile_fs)

lemma keeps_LookupVolumeContext_fs [intro]: "keeps same_fs (LookupVolumeContext E p)"
  unfolding LookupVolumeContext_def by (intro fsf.keeps_rules keeps_lookupContext_fs)

lemma keeps_LookupXPUContext_fs: "keeps same_fs (LookupXPUContext E p)"
  unfolding LookupXPUContext_def by (intro fsf.keeps_rules keeps_lookupContext_fs)

lemma lookup_stashed:
  assumes "utf8_map m" and "ctx_slot f w p = Some (FFile (jprint (enc_ctx (Some m))))"
    and "ctx_readable E f w p"
  shows "\<exists>m' w'. bindE (lookupContext E p f) (\<lambda>data. ret (ConvertInterfaceToMap data)) w = (Ret (Inr m'), w')
    \<and> map_of m' = map_of m"
proof -
  obtain w' where w': "ReadFile E (JoinPath p f) w = (Ret (Inr (jprint (enc_ctx (Some m)))), w')"
    using ReadFile_file assms(2,3) unfolding ctx_readable_def ctx_slot_def ctx_file_def by metis
  obtain v m' where "json_unmarshal (dec_any (float_text E)) JNull (jprint (enc_ctx (Some m))) = Inr v"
    and "ConvertInterfaceToMap v = Inr m'" and map: "map_of m' = map_of m"
    using strmap_roundtrip [OF assms(1)] by metis
  then have "bindE (lookupContext E p f) (\<lambda>data. ret (ConvertInterfaceToMap data)) w = (Ret (Inr m'), w')"
    using w' by (simp add: lookupContext_def Let_def prog_simps)
  then show ?thesis using map by blast
qed

lemma lookup_absent:
  assumes "ctx_slot f w p = None"
  shows "\<exists>e w'. bindE (lookupContext E p f) (\<lambda>data. ret (ConvertInterfaceToMap data)) w = (Ret (Inl e), w')"
proof -
  obtain e w' where "ReadFile E (JoinPath p f) w = (Ret (Inl e), w')"
    using ReadFile_missing assms unfolding ctx_slot_def ctx_file_def by metis
  then obtain e' where "lookupContext E p f w = (Ret (Inl e'), w')"
    unfolding lookupContext_def Let_def by (blast intro: bindE_Inl mapErr_Inl)
  then show ?thesis by (blast intro: bindE_Inl)
qed

interpretation vol_ctx: ctx_store "StashVolumeContext E" "LookupVolumeContext E" "CleanUpVolumeContext E"
  "ctx_slot volumeContextFileName" "ctx_readable E volumeContextFileName" for E
proof (unfold_locales, goal_cases)
  case (1 m p w w1 w2)
  then show ?case unfolding StashVolumeContext_def LookupVolumeContext_def
    using lookup_stashed stashContext_slot by metis
next
  case (2 p w r w1 q)
  then show ?case using keepsD [OF keeps_LookupVolumeContext_fs] by (metis ctx_slot_def same_fs_def)
next
  case (3 p w w1 w2)
  then show ?case unfolding CleanUpVolumeContext_def LookupVolumeContext_def
    using cleanUpContext_slot(2) lookup_absent by metis
next
  case (4 p w w1 w2 w3)
  then show ?case unfolding CleanUpVolumeContext_def using cleanUpContext_slot by metis
qed

interpretation xpu_ctx: ctx_store "StashXPUContext E" "LookupXPUContext E" "CleanUpXPUContext E"
  "ctx_slot xpuContextFileName" "ctx_readable E xpuContextFileName" for E
proof (unfold_locales, goal_cases)
  case (1 m p w w1 w2)
  then show ?case unfolding StashXPUContext_def LookupXPUContext_def
    using lookup_stashed stashContext_slot by metis
next
  case (2 p w r w1 q)
  then show ?case using keepsD [OF keeps_LookupXPUContext_fs] by (metis ctx_slot_def same_fs_def)
next
  case (3 p w w1 w2)
  then show ?case unfolding CleanUpXPUContext_def LookupXPUContext_def
    using cleanUpContext_slot(2) lookup_absent by metis
next
  case (4 p w w1 w2 w3)
  then show ?case unfolding CleanUpXPUContext_def using cleanUpContext_slot by metis
qed

section \<open>The stash of the node server\<close>

text \<open>
  A volume context that was stashed in a staging directory is what a later lookup returns, as a map,
  whatever the program did in between as long as the stash file is as it was left: the JSON text written
  decodes, through the dynamic values and their conversion, to the same map.
\<close>

theorem volume_context_stash_lookup:
  assumes "utf8_map vc"
    and "StashVolumeContext E (Some vc) path w = (Ret (Inr ()), w1)"
    and "ctx_slot volumeContextFileName w2 path = ctx_slot volumeContextFileName w1 path"
    and "ctx_readable E volumeContextFileName w2 path"
  shows "\<exists>vc' w3. LookupVolumeContext E path w2 = (Ret (Inr vc'), w3) \<and> map_of vc' = map_of vc"
  by (rule vol_ctx.lookup_stash [OF assms])

theorem volume_context_stash_lookup_witness:
  "\<exists>w1 vc' w3. StashVolumeContext demo_env (Some [(''uuid'', ''v-1''), (''model'', ''a\"b'')]) ''/stage''
       (demo_world [] []) = (Ret (Inr ()), w1)
     \<and> LookupVolumeContext demo_env ''/stage'' w1 = (Ret (Inr vc'), w3)
     \<and> map_of vc' = map_of [(''uuid'', ''v-1''), (''model'', ''a\"b'')]"
proof -
  let ?vc = "[(''uuid'', ''v-1''), (''model'', ''a\"b'')]"
  let ?r = "StashVolumeContext demo_env (Some ?vc) ''/stage'' (demo_world [] [])"
  have "fst ?r = Ret (Inr ())" by code_simp
  then have run: "?r = (Ret (Inr ()), snd ?r)" by (metis prod.collapse)
  have "utf8_map ?vc" by code_simp
  moreover have "ctx_readable demo_env volumeContextFileName (snd ?r) ''/stage''"
    by (simp add: ctx_readable_def demo_env_def)
  ultimately show ?thesis using volume_context_stash_lookup [OF _ run refl] run by blast
qed

text \<open>
  Cleaning up is not idempotent: after a clean-up that succeeded, the next one fails (and so does a
  lookup), as long as nothing put the file back.
\<close>

theorem volume_context_cleanup_once:
  assumes "CleanUpVolumeContext E path w = (Ret (Inr ()), w1)"
    and "ctx_slot volumeContextFileName w2 path = ctx_slot volumeContextFileName w1 path"
  shows "CleanUpVolumeContext E path w2 \<noteq> (Ret (Inr ()), w3)"
  by (rule vol_ctx.cleanup_once [OF assms])

theorem volume_context_cleanup_once_witness:
  "\<exists>w1. CleanUpVolumeContext demo_env ''/s'' (demo_world [([''s''], FDir), ([''s'', ''volume-context.json''], FFile ''{}'')] [])
       = (Ret (Inr ()), w1) \<and> CleanUpVolumeContext demo_env ''/s'' w1 \<noteq> (Ret (Inr ()), w1)"
proof -
  let ?r = "CleanUpVolumeContext demo_env ''/s''
    (demo_world [([''s''], FDir), ([''s'', ''volume-context.json''], FFile ''{}'')] [])"
  have "fst ?r = Ret (Inr ())" by code_simp
  then have run: "?r = (Ret (Inr ()), snd ?r)" by (metis prod.collapse)
  then show ?thesis using volume_context_cleanup_once [OF run refl] by blast
qed

end
