(* ===== verification/RpcClient.thy ===== *)
theory RpcClient
  imports UtilBase
begin

text \<open>
  The client of the storage cluster's HTTP interface, \<^verbatim>\<open>pkg/util/jsonrpc.go\<close>: the generic call, its
  classification of the replies, and one function per request. The cluster itself is \<open>http_do\<close> of the
  environment. A reply is a dynamic value which the code encodes and decodes again into a struct; both
  steps are in the definitions.
\<close>

section \<open>Data\<close>

record LvStore =
  lvs_Name :: string
  lvs_UUID :: string
  lvs_TotalSizeMiB :: int
  lvs_FreeSizeMiB :: int

record LvolConnectResp =
  lc_Nqn :: string
  lc_ReconnectDelay :: int
  lc_NrIoQueues :: int
  lc_CtrlLossTmo :: int
  lc_Port :: int
  lc_IP :: string
  lc_Connect :: string
  lc_NSID :: int

record connectionInfo =
  ci_IP :: string
  ci_Port :: int

record BDev =
  bd_Name :: string
  bd_UUID :: string
  bd_LvolSize :: int

text \<open>\<open>HTTPClient\<close> is a pointer; only whether it is nil matters here.\<close>

record RPCClient =
  rc_ClusterID :: string
  rc_ClusterIP :: string
  rc_ClusterSecret :: string
  rc_HTTPClient :: bool

record CSIPoolsResp =
  pr_FreeClusters :: int
  pr_ClusterSize :: int
  pr_TotalClusters :: int
  pr_Name :: string
  pr_UUID :: string

record SnapshotResp =
  sr_Name :: string
  sr_UUID :: string
  sr_Size :: int
  sr_PoolName :: string
  sr_PoolID :: string
  sr_CreatedAt :: string
  sr_SourceVolume :: string

record ResizeVolReq =
  rv_LvolID :: string
  rv_NewSize :: int

record CreateLVolData =
  cd_LvolName :: string
  cd_Size :: string
  cd_LvsName :: string
  cd_Compression :: bool
  cd_Encryption :: bool
  cd_MaxRWIOPS :: string
  cd_MaxRWmBytes :: string
  cd_MaxRmBytes :: string
  cd_MaxWmBytes :: string
  cd_MaxSize :: string
  cd_MaxNamespace :: int
  cd_DistNdcs :: int
  cd_DistNpcs :: int
  cd_PriorClass :: int
  cd_CryptoKey1 :: string
  cd_CryptoKey2 :: string
  cd_HostID :: string
  cd_LvolID :: string
  cd_ModelID :: string
  cd_PvcName :: string

section \<open>Encoders and decoders\<close>

definition jint :: "int \<Rightarrow> json" where
  "jint n = JNum (Itoa n)"

definition dec_LvolConnectResp :: "LvolConnectResp decoder" where
  "dec_LvolConnectResp = dec_struct
    [(''nqn'', field dec_string lc_Nqn (\<lambda>x. lc_Nqn_update (\<lambda>_. x))),
     (''reconnect-delay'', field dec_int lc_ReconnectDelay (\<lambda>x. lc_ReconnectDelay_update (\<lambda>_. x))),
     (''nr-io-queues'', field dec_int lc_NrIoQueues (\<lambda>x. lc_NrIoQueues_update (\<lambda>_. x))),
     (''ctrl-loss-tmo'', field dec_int lc_CtrlLossTmo (\<lambda>x. lc_CtrlLossTmo_update (\<lambda>_. x))),
     (''port'', field dec_int lc_Port (\<lambda>x. lc_Port_update (\<lambda>_. x))),
     (''ip'', field dec_string lc_IP (\<lambda>x. lc_IP_update (\<lambda>_. x))),
     (''connect'', field dec_string lc_Connect (\<lambda>x. lc_Connect_update (\<lambda>_. x))),
     (''ns_id'', field dec_int lc_NSID (\<lambda>x. lc_NSID_update (\<lambda>_. x)))]"

definition zero_LvolConnectResp :: LvolConnectResp where
  "zero_LvolConnectResp = \<lparr>lc_Nqn = [], lc_ReconnectDelay = 0, lc_NrIoQueues = 0, lc_CtrlLossTmo = 0,
     lc_Port = 0, lc_IP = [], lc_Connect = [], lc_NSID = 0\<rparr>"

definition enc_connectionInfo :: "connectionInfo \<Rightarrow> json" where
  "enc_connectionInfo c = JObj [(''ip'', JStr (ci_IP c)), (''port'', jint (ci_Port c))]"

definition dec_connectionInfo :: "connectionInfo decoder" where
  "dec_connectionInfo = dec_struct
    [(''ip'', field dec_string ci_IP (\<lambda>x. ci_IP_update (\<lambda>_. x))),
     (''port'', field dec_int ci_Port (\<lambda>x. ci_Port_update (\<lambda>_. x)))]"

definition dec_BDev :: "BDev decoder" where
  "dec_BDev = dec_struct
    [(''lvol_name'', field dec_string bd_Name (\<lambda>x. bd_Name_update (\<lambda>_. x))),
     (''uuid'', field dec_string bd_UUID (\<lambda>x. bd_UUID_update (\<lambda>_. x))),
     (''size'', field dec_int bd_LvolSize (\<lambda>x. bd_LvolSize_update (\<lambda>_. x)))]"

definition zero_BDev :: BDev where
  "zero_BDev = \<lparr>bd_Name = [], bd_UUID = [], bd_LvolSize = 0\<rparr>"

text \<open>The source volume of a snapshot is a struct with one field.\<close>

definition dec_SnapshotResp :: "SnapshotResp decoder" where
  "dec_SnapshotResp = dec_struct
    [(''snapshot_name'', field dec_string sr_Name (\<lambda>x. sr_Name_update (\<lambda>_. x))),
     (''uuid'', field dec_string sr_UUID (\<lambda>x. sr_UUID_update (\<lambda>_. x))),
     (''size'', field dec_int sr_Size (\<lambda>x. sr_Size_update (\<lambda>_. x))),
     (''pool_name'', field dec_string sr_PoolName (\<lambda>x. sr_PoolName_update (\<lambda>_. x))),
     (''pool_uuid'', field dec_string sr_PoolID (\<lambda>x. sr_PoolID_update (\<lambda>_. x))),
     (''created_at'', field dec_string sr_CreatedAt (\<lambda>x. sr_CreatedAt_update (\<lambda>_. x))),
     (''lvol'', field (dec_struct [(''id'', dec_string)]) sr_SourceVolume (\<lambda>x. sr_SourceVolume_update (\<lambda>_. x)))]"

definition zero_SnapshotResp :: SnapshotResp where
  "zero_SnapshotResp = \<lparr>sr_Name = [], sr_UUID = [], sr_Size = 0, sr_PoolName = [], sr_PoolID = [],
     sr_CreatedAt = [], sr_SourceVolume = []\<rparr>"

definition enc_ResizeVolReq :: "ResizeVolReq \<Rightarrow> json" where
  "enc_ResizeVolReq r = JObj [(''lvol_id'', JStr (rv_LvolID r)), (''size'', jint (rv_NewSize r))]"

definition enc_CreateLVolData :: "CreateLVolData \<Rightarrow> json" where
  "enc_CreateLVolData d = JObj
    [(''name'', JStr (cd_LvolName d)), (''size'', JStr (cd_Size d)), (''pool'', JStr (cd_LvsName d)),
     (''comp'', JBool (cd_Compression d)), (''crypto'', JBool (cd_Encryption d)),
     (''max_rw_iops'', JStr (cd_MaxRWIOPS d)), (''max_rw_mbytes'', JStr (cd_MaxRWmBytes d)),
     (''max_r_mbytes'', JStr (cd_MaxRmBytes d)), (''max_w_mbytes'', JStr (cd_MaxWmBytes d)),
     (''max_size'', JStr (cd_MaxSize d)), (''max_namespace_per_subsys'', jint (cd_MaxNamespace d)),
     (''distr_ndcs'', jint (cd_DistNdcs d)), (''distr_npcs'', jint (cd_DistNpcs d)),
     (''lvol_priority_class'', jint (cd_PriorClass d)), (''crypto_key1'', JStr (cd_CryptoKey1 d)),
     (''crypto_key2'', JStr (cd_CryptoKey2 d)), (''host_id'', JStr (cd_HostID d)),
     (''uid'', JStr (cd_LvolID d)), (''namespace'', JStr (cd_ModelID d)), (''pvc_name'', JStr (cd_PvcName d))]"

section \<open>The generic call\<close>

record sbcli_response =
  sb_Result :: json
  sb_Results :: json
  sb_Error :: string

definition dec_sbcli_response :: "(string \<Rightarrow> string option) \<Rightarrow> sbcli_response decoder" where
  "dec_sbcli_response f64 = dec_struct
    [(''result'', field (dec_any f64) sb_Result (\<lambda>x. sb_Result_update (\<lambda>_. x))),
     (''results'', field (dec_any f64) sb_Results (\<lambda>x. sb_Results_update (\<lambda>_. x))),
     (''error'', field dec_string sb_Error (\<lambda>x. sb_Error_update (\<lambda>_. x)))]"

text \<open>\<open>json.NewDecoder(body).Decode\<close>: the first document of the body, whatever follows it.\<close>

definition json_decode_first :: "'a decoder \<Rightarrow> 'a \<Rightarrow> string \<Rightarrow> goerr + 'a" where
  "json_decode_first f z s = (case json_first s of
     None \<Rightarrow> Inl (ErrorString ''invalid JSON document'') | Some v \<Rightarrow> f v z)"

text \<open>The beginning of the text of an error, \<open>"%s: HTTP error code: %d"\<close>.\<close>

definition status_line :: "string \<Rightarrow> int \<Rightarrow> string" where
  "status_line method code = method @ '': HTTP error code: '' @ Itoa code"

definition sbcli_result :: "(string \<Rightarrow> string option) \<Rightarrow> string \<Rightarrow> http_response \<Rightarrow> goerr + json" where
  "sbcli_result f64 method resp =
     (let code = status_line method (rs_status resp) in
      if rs_status resp \<ge> 500 then Inl (ErrorString code)
      else (case json_decode_first (dec_sbcli_response f64)
                   \<lparr>sb_Result = JNull, sb_Results = JNull, sb_Error = []\<rparr> (rs_body resp) of
              Inl err \<Rightarrow> Inl (Wrapped (code @ '' Error: '') err)
            | Inr response \<Rightarrow>
                if rs_status resp \<ge> 400 then Inl (ErrorString (code @ '' Error: '' @ sb_Error response))
                else if sb_Result response \<noteq> JNull then Inr (sb_Result response)
                else Inr (sb_Results response)))"

text \<open>The request: no body without arguments; the names of headers are canonical.\<close>

definition sbcli_request :: "RPCClient \<Rightarrow> string \<Rightarrow> string \<Rightarrow> json option \<Rightarrow> http_request" where
  "sbcli_request client method path args =
     \<lparr>rq_method = method,
      rq_url = rc_ClusterIP client @ ''/api/v1/'' @ path,
      rq_headers =
        [(''Authorization'', rc_ClusterID client @ '' '' @ rc_ClusterSecret client),
         (''Cluster'', rc_ClusterID client), (''Secret'', rc_ClusterSecret client),
         (''Content-Type'', ''application/json'')],
      rq_body = (case args of None \<Rightarrow> [] | Some v \<Rightarrow> jprint v)\<rparr>"

definition CallSBCLI ::
  "'x env \<Rightarrow> RPCClient \<Rightarrow> string \<Rightarrow> string \<Rightarrow> json option \<Rightarrow> ('x, json) ioE" where
  "CallSBCLI E client method path args =
     (let req = sbcli_request client method path args in
      case http_check E method (rq_url req) of
        Some err \<Rightarrow> throw (Wrapped (method @ '': '') err)
      | None \<Rightarrow>
          if \<not> rc_HTTPClient client then panic ''invalid memory address or nil pointer dereference''
          else bindE (mapErr (Wrapped (method @ '': '')) (http_send E req))
                 (\<lambda>resp. ret (sbcli_result (float_text E) method resp)))"

lemmas CallSBCLI_code [code] = CallSBCLI_def [THEN fun_cong]

definition errorMatches :: "goerr option \<Rightarrow> goerr \<Rightarrow> bool" where
  "errorMatches errFull errJSON =
     (case errFull of
        None \<Rightarrow> False
      | Some e \<Rightarrow>
          let strFull = ToLower (err_msg e);
              strJSON = TrimSpace (TrimPrefix (ToLower (err_msg errJSON)) ''json:'')
          in Contains strFull strJSON)"

text \<open>\<open>if errorMatches(err, e) { err = e }\<close> on a call that failed.\<close>

definition replaceMatching :: "goerr \<Rightarrow> goerr \<Rightarrow> goerr" where
  "replaceMatching target err = (if errorMatches (Some err) target then target else err)"

text \<open>\<open>json.Marshal(out)\<close> and \<open>json.Unmarshal\<close> into the struct type.\<close>

definition redecode :: "'a decoder \<Rightarrow> 'a \<Rightarrow> json \<Rightarrow> goerr + 'a" where
  "redecode f z out = json_unmarshal f z (jprint out)"

text \<open>The type assertions \<open>out.(string)\<close> and \<open>out.(bool)\<close>.\<close>

definition as_string :: "'x env \<Rightarrow> json \<Rightarrow> goerr + string" where
  "as_string E out = (case out of JStr t \<Rightarrow> Inr t
     | _ \<Rightarrow> Inl (ErrorString (''failed to convert the response to string type. Interface: '' @ fmt_v E out)))"

definition as_bool :: "'x env \<Rightarrow> json \<Rightarrow> goerr + bool" where
  "as_bool E out = (case out of JBool b \<Rightarrow> Inr b
     | _ \<Rightarrow> Inl (ErrorString (''failed to convert the response to bool type. Interface: '' @ fmt_v E out)))"

section \<open>The requests\<close>

definition info :: "RPCClient \<Rightarrow> string" where
  "info client = rc_ClusterID client"

text \<open>
  The assertion \<open>out.([]CSIPoolsResp)\<close>: a decoded document is made of maps, slices of \<open>interface{}\<close> and
  scalars, so its dynamic type is never that one.
\<close>

definition as_pools :: "json \<Rightarrow> CSIPoolsResp list option" where
  "as_pools out = None"

definition lvStore_of :: "CSIPoolsResp \<Rightarrow> LvStore" where
  "lvStore_of r = \<lparr>lvs_Name = pr_Name r, lvs_UUID = pr_UUID r,
     lvs_TotalSizeMiB = wrap64 (pr_TotalClusters r * pr_ClusterSize r) sdiv 1024 sdiv 1024,
     lvs_FreeSizeMiB = wrap64 (pr_FreeClusters r * pr_ClusterSize r) sdiv 1024 sdiv 1024\<rparr>"

definition lvStores :: "'x env \<Rightarrow> RPCClient \<Rightarrow> ('x, LvStore list) ioE" where
  "lvStores E client =
     bindE (CallSBCLI E client ''GET'' ''/pool/get_pools'' None) (\<lambda>out.
       case as_pools out of
         None \<Rightarrow> throw (ErrorString
           (''failed to convert the response to CSIPoolsResp type. Interface: '' @ fmt_v E out))
       | Some result \<Rightarrow> ret (Inr (map lvStore_of result)))"

definition createVolume :: "'x env \<Rightarrow> RPCClient \<Rightarrow> CreateLVolData \<Rightarrow> ('x, string) ioE" where
  "createVolume E client params =
     bindE (mapErr (replaceMatching ErrJSONNoSpaceLeft)
         (CallSBCLI E client ''POST'' ''/lvol'' (Some (enc_CreateLVolData params))))
       (\<lambda>out. ret (as_string E out))"

text \<open>\<open>&result[0]\<close> of an empty slice panics.\<close>

definition getVolume :: "'x env \<Rightarrow> RPCClient \<Rightarrow> string \<Rightarrow> ('x, BDev) ioE" where
  "getVolume E client lvolID =
     bindE (mapErr (replaceMatching ErrJSONNoSuchDevice)
         (CallSBCLI E client ''GET'' (''/lvol/'' @ lvolID) None)) (\<lambda>out.
       bindE (ret (redecode (dec_slice dec_BDev zero_BDev) [] out)) (\<lambda>result.
         case result of
           [] \<Rightarrow> panic ''index out of range [0] with length 0''
         | b # _ \<Rightarrow> ret (Inr b)))"

definition listVolumes :: "'x env \<Rightarrow> RPCClient \<Rightarrow> ('x, BDev option list) ioE" where
  "listVolumes E client =
     bindE (CallSBCLI E client ''GET'' ''/lvol'' None) (\<lambda>out.
       ret (redecode (dec_slice (dec_ptr dec_BDev zero_BDev) None) [] out))"

text \<open>
  The two parts around \<open>:lvol:\<close>: the last component of what precedes it, and what follows it (up to a
  second occurrence).
\<close>

definition getLvolIDFromNQN :: "string \<Rightarrow> string \<times> string" where
  "getLvolIDFromNQN nqn =
     (let parts = Split '':lvol:'' nqn in
      if length parts > 1 then (last (Split '':'' (parts ! 0)), parts ! 1) else ([], []))"

definition volumeInfoMap :: "string \<Rightarrow> LvolConnectResp \<Rightarrow> connectionInfo list \<Rightarrow> gomap" where
  "volumeInfoMap lvolID r connections =
     [(''name'', lvolID), (''uuid'', lvolID), (''nqn'', lc_Nqn r),
      (''reconnectDelay'', Itoa (lc_ReconnectDelay r)), (''nrIoQueues'', Itoa (lc_NrIoQueues r)),
      (''ctrlLossTmo'', Itoa (lc_CtrlLossTmo r)), (''model'', snd (getLvolIDFromNQN (lc_Nqn r))),
      (''targetType'', ''tcp''), (''connections'', jprint (JArr (map enc_connectionInfo connections))),
      (''nsId'', Itoa (lc_NSID r))]"

text \<open>A null element is a nil pointer, which the loop dereferences; an empty list panics at \<open>result[0]\<close>.\<close>

definition getVolumeInfo :: "'x env \<Rightarrow> RPCClient \<Rightarrow> string \<Rightarrow> ('x, gomap) ioE" where
  "getVolumeInfo E client lvolID =
     bindE (mapErr (replaceMatching ErrJSONNoSuchDevice)
         (CallSBCLI E client ''GET'' (''/lvol/connect/'' @ lvolID) None)) (\<lambda>out.
       bindE (ret (redecode (dec_slice (dec_ptr dec_LvolConnectResp zero_LvolConnectResp) None) [] out))
         (\<lambda>result.
           if None \<in> set result then panic ''invalid memory address or nil pointer dereference''
           else let connections = map (\<lambda>r. \<lparr>ci_IP = lc_IP (the r), ci_Port = lc_Port (the r)\<rparr>) result
                in (case result of
                      Some r # _ \<Rightarrow> ret (Inr (volumeInfoMap lvolID r connections))
                    | _ \<Rightarrow> panic ''index out of range [0] with length 0'')))"

definition deleteVolume :: "'x env \<Rightarrow> RPCClient \<Rightarrow> string \<Rightarrow> ('x, unit) ioE" where
  "deleteVolume E client lvolID =
     mapErr (replaceMatching ErrJSONNoSuchDevice)
       (bindE (CallSBCLI E client ''DELETE'' (''/lvol/'' @ lvolID) None) (\<lambda>_. ret (Inr ())))"

definition resizeVolume :: "'x env \<Rightarrow> RPCClient \<Rightarrow> string \<Rightarrow> int \<Rightarrow> ('x, bool) ioE" where
  "resizeVolume E client lvolID newSize =
     bindE (CallSBCLI E client ''PUT'' (''/lvol/resize/'' @ lvolID)
         (Some (enc_ResizeVolReq \<lparr>rv_LvolID = lvolID, rv_NewSize = newSize\<rparr>)))
       (\<lambda>out. ret (as_bool E out))"

text \<open>The requested size is only logged; an empty claim name is left out of the request.\<close>

definition clone_params :: "string \<Rightarrow> string \<Rightarrow> string \<Rightarrow> json" where
  "clone_params snapshotID cloneName pvcName =
     JObj ([(''snapshot_id'', JStr snapshotID), (''clone_name'', JStr cloneName)]
       @ (if pvcName = [] then [] else [(''pvc_name'', JStr pvcName)]))"

definition cloneSnapshot ::
  "'x env \<Rightarrow> RPCClient \<Rightarrow> string \<Rightarrow> string \<Rightarrow> string \<Rightarrow> string \<Rightarrow> ('x, string) ioE" where
  "cloneSnapshot E client snapshotID cloneName newSize pvcName =
     bindE (mapErr (replaceMatching ErrJSONNoSpaceLeft)
         (CallSBCLI E client ''POST'' ''/snapshot/clone'' (Some (clone_params snapshotID cloneName pvcName))))
       (\<lambda>out. ret (as_string E out))"

definition listSnapshots :: "'x env \<Rightarrow> RPCClient \<Rightarrow> ('x, SnapshotResp option list) ioE" where
  "listSnapshots E client =
     bindE (CallSBCLI E client ''GET'' ''/snapshot'' None) (\<lambda>out.
       ret (redecode (dec_slice (dec_ptr dec_SnapshotResp zero_SnapshotResp) None) [] out))"

definition snapshot :: "'x env \<Rightarrow> RPCClient \<Rightarrow> string \<Rightarrow> string \<Rightarrow> ('x, string) ioE" where
  "snapshot E client lvolID snapShotName =
     bindE (mapErr (replaceMatching ErrJSONNoSpaceLeft)
         (CallSBCLI E client ''POST'' ''/snapshot''
           (Some (JObj [(''lvol_id'', JStr lvolID), (''snapshot_name'', JStr snapShotName)]))))
       (\<lambda>out. ret (as_string E out))"

definition deleteSnapshot :: "'x env \<Rightarrow> RPCClient \<Rightarrow> string \<Rightarrow> ('x, unit) ioE" where
  "deleteSnapshot E client snapshotID =
     mapErr (replaceMatching ErrJSONNoSuchDevice)
       (bindE (CallSBCLI E client ''DELETE'' (''/snapshot/'' @ snapshotID) None) (\<lambda>_. ret (Inr ())))"

section \<open>Effects\<close>

text \<open>
  The kinds of events a control-plane operation may cause: requests with a method of a given set, and
  reading of configuration files.
\<close>

fun sends :: "string set \<Rightarrow> event \<Rightarrow> bool" where
  "sends ms (EvHttp rq) \<longleftrightarrow> rq_method rq \<in> ms"
| "sends ms (EvFile (OpRead p)) \<longleftrightarrow> True"
| "sends ms _ \<longleftrightarrow> False"

lemma sends_mono: "sends ms e \<Longrightarrow> ms \<subseteq> ns \<Longrightarrow> sends ns e"
  by (induction ms e rule: sends.induct) auto

lemma keeps_CallSBCLI_fs: "keeps same_fs (CallSBCLI E client method path args)"
  unfolding CallSBCLI_def Let_def http_send_def by (intro fsf.keeps_rules keeps_service_fs)

lemma keeps_CallSBCLI: "method \<in> ms \<Longrightarrow> keeps (extends (sends ms)) (CallSBCLI E client method path args)"
  unfolding CallSBCLI_def Let_def http_send_def
  by (intro tr.keeps_rules keeps_service_tr) (simp add: sbcli_request_def)

lemma keeps_get_requests:
  assumes "''GET'' \<in> ms"
  shows "keeps (extends (sends ms)) (lvStores E client)"
    and "keeps (extends (sends ms)) (getVolume E client lvolID)"
    and "keeps (extends (sends ms)) (listVolumes E client)"
    and "keeps (extends (sends ms)) (getVolumeInfo E client lvolID)"
    and "keeps (extends (sends ms)) (listSnapshots E client)"
  unfolding lvStores_def getVolume_def listVolumes_def getVolumeInfo_def listSnapshots_def Let_def
  by (intro tr.keeps_rules keeps_CallSBCLI assms)+

lemma keeps_post_requests:
  assumes "''POST'' \<in> ms"
  shows "keeps (extends (sends ms)) (createVolume E client params)"
    and "keeps (extends (sends ms)) (cloneSnapshot E client sid cloneName newSize pvcName)"
    and "keeps (extends (sends ms)) (snapshot E client lvolID name)"
  unfolding createVolume_def cloneSnapshot_def snapshot_def
  by (intro tr.keeps_rules keeps_CallSBCLI assms)+

lemma keeps_delete_requests:
  assumes "''DELETE'' \<in> ms"
  shows "keeps (extends (sends ms)) (deleteVolume E client lvolID)"
    and "keeps (extends (sends ms)) (deleteSnapshot E client sid)"
  unfolding deleteVolume_def deleteSnapshot_def
  by (intro tr.keeps_rules keeps_CallSBCLI assms)+

lemma keeps_put_requests:
  "''PUT'' \<in> ms \<Longrightarrow> keeps (extends (sends ms)) (resizeVolume E client lvolID newSize)"
  unfolding resizeVolume_def by (intro tr.keeps_rules keeps_CallSBCLI)

lemma keeps_requests_fs:
  "keeps same_fs (lvStores E client)" "keeps same_fs (getVolume E client lvolID)"
  "keeps same_fs (listVolumes E client)" "keeps same_fs (getVolumeInfo E client lvolID)"
  "keeps same_fs (listSnapshots E client)" "keeps same_fs (createVolume E client params)"
  "keeps same_fs (cloneSnapshot E client sid cloneName newSize pvcName)"
  "keeps same_fs (snapshot E client lvolID name)" "keeps same_fs (deleteVolume E client lvolID)"
  "keeps same_fs (deleteSnapshot E client sid)" "keeps same_fs (resizeVolume E client lvolID sz)"
  unfolding lvStores_def getVolume_def listVolumes_def getVolumeInfo_def listSnapshots_def Let_def
    createVolume_def cloneSnapshot_def snapshot_def deleteVolume_def deleteSnapshot_def resizeVolume_def
  by (intro fsf.keeps_rules keeps_CallSBCLI_fs)+

section \<open>Replies\<close>

lemma CallSBCLI_run:
  assumes "rc_HTTPClient client"
    and "http_check E verb (rq_url (sbcli_request client verb path args)) = None"
    and "http_do E (sbcli_request client verb path args) (w_ext w) = (Inr resp, x)"
  shows "CallSBCLI E client verb path args w =
    (Ret (sbcli_result (float_text E) verb resp),
     w\<lparr>w_ext := x, w_trace := w_trace w @ [EvHttp (sbcli_request client verb path args)]\<rparr>)"
  using assms by (simp add: CallSBCLI_def Let_def http_send_def service_def prog_simps)

text \<open>A reply in the cluster's formats: a result, a list of results, an error.\<close>

lemma sbcli_result_ok:
  assumes "s < 400" and "jwf 9999 v" and "any_ok f64 v"
  shows "sbcli_result f64 method \<lparr>rs_status = s, rs_body = jprint (JObj [(''result'', v)])\<rparr> = Inr (any_val f64 v)"
    and "sbcli_result f64 method \<lparr>rs_status = s, rs_body = jprint (JObj [(''results'', v)])\<rparr> = Inr (any_val f64 v)"
proof -
  have names: "valid_utf8 ''result''" "valid_utf8 ''results''" by code_simp+
  have "json_first (jprint (JObj [(k, v)]) @ []) = Some (JObj [(k, v)])" if "valid_utf8 k" for k
    using assms(2) that by (intro json_first_jprint) simp_all
  then have first: "json_first (jprint (JObj [(k, v)])) = Some (JObj [(k, v)])" if "valid_utf8 k" for k
    using that by simp
  show "sbcli_result f64 method \<lparr>rs_status = s, rs_body = jprint (JObj [(''result'', v)])\<rparr> = Inr (any_val f64 v)"
    "sbcli_result f64 method \<lparr>rs_status = s, rs_body = jprint (JObj [(''results'', v)])\<rparr> = Inr (any_val f64 v)"
    using assms first names
    by (simp_all add: sbcli_result_def Let_def json_decode_first_def dec_sbcli_response_def field_of_def
        field_def dec_any_def del: jprint.simps jmembers.simps)
qed

lemma sbcli_result_error:
  assumes "400 \<le> s" and "s < 500" and "valid_utf8 msg"
  shows "sbcli_result f64 verb \<lparr>rs_status = s, rs_body = jprint (JObj [(''error'', JStr msg)])\<rparr> =
    Inl (ErrorString (status_line verb s @ '' Error: '' @ msg))"
proof -
  have "valid_utf8 ''error''" by code_simp
  then have "json_first (jprint (JObj [(''error'', JStr msg)]) @ []) = Some (JObj [(''error'', JStr msg)])"
    using assms(3) by (intro json_first_jprint) simp_all
  then show ?thesis using assms
    by (simp add: sbcli_result_def Let_def json_decode_first_def dec_sbcli_response_def field_of_def field_def
        del: jprint.simps jmembers.simps)
qed

section \<open>Error classification\<close>

definition no_such_device :: string where "no_such_device = ''no such device''"

definition no_space_left :: string where "no_space_left = ''no space left''"

lemma errorMatches_text:
  "errorMatches (Some e) ErrJSONNoSuchDevice \<longleftrightarrow> sublist no_such_device (ToLower (err_msg e))"
  "errorMatches (Some e) ErrJSONNoSpaceLeft \<longleftrightarrow> sublist no_space_left (ToLower (err_msg e))"
proof -
  have "TrimSpace (TrimPrefix (ToLower (err_msg ErrJSONNoSuchDevice)) ''json:'') = no_such_device"
    "TrimSpace (TrimPrefix (ToLower (err_msg ErrJSONNoSpaceLeft)) ''json:'') = no_space_left"
    by code_simp+
  then show "errorMatches (Some e) ErrJSONNoSuchDevice \<longleftrightarrow> sublist no_such_device (ToLower (err_msg e))"
    "errorMatches (Some e) ErrJSONNoSpaceLeft \<longleftrightarrow> sublist no_space_left (ToLower (err_msg e))"
    by (simp_all add: errorMatches_def Contains_sublist Let_def del: err_msg.simps)
qed

text \<open>The status line that precedes the cluster's text in an error has no letter n.\<close>

lemma status_line_plain:
  assumes "method \<in> {''GET'', ''POST'', ''PUT'', ''DELETE''}"
  shows "ToLower (status_line method s @ '' Error: '' @ msg) =
      map lower_char (status_line method s @ '' Error: '') @ ToLower msg"
    and "CHR ''n'' \<notin> set (map lower_char (status_line method s @ '' Error: ''))"
proof -
  let ?p = "status_line method s @ '' Error: ''"
  have not_in: "CHR 0xC4 \<notin> set (Itoa s)" "CHR 0xE2 \<notin> set (Itoa s)"
    "CHR ''n'' \<notin> set (Itoa s)" "CHR ''N'' \<notin> set (Itoa s)"
    by (rule Itoa_not_in; simp)+
  have "CHR 0xC4 \<notin> set ?p" "CHR 0xE2 \<notin> set ?p"
    using assms not_in by (auto simp: status_line_def)
  then show "ToLower (status_line method s @ '' Error: '' @ msg) = map lower_char ?p @ ToLower msg"
    using ToLower_plain [of ?p msg] by (simp only: append_assoc not_False_eq_True simp_thms)
  have lower: "c = CHR ''n'' \<or> c = CHR ''N''" if "lower_char c = CHR ''n''" for c
  proof (cases "65 \<le> (of_char c :: nat) \<and> of_char c \<le> (90 :: nat)")
    case True
    then have "of_char (lower_char c) = (of_char c :: nat) + 32" by (simp add: lower_char_def Let_def)
    then have "of_char c = (of_char (CHR ''N'') :: nat)" using that by simp
    then show ?thesis by (metis of_char_eq_iff)
  next
    case False
    then show ?thesis using that by (auto simp: lower_char_def Let_def)
  qed
  have "CHR ''n'' \<notin> set ?p" "CHR ''N'' \<notin> set ?p"
    using assms not_in by (auto simp: status_line_def)
  moreover have "CHR ''n'' \<notin> lower_char ` S" if "CHR ''n'' \<notin> S" and "CHR ''N'' \<notin> S" for S
    using that lower by (metis imageE)
  ultimately show "CHR ''n'' \<notin> set (map lower_char ?p)" by (simp only: set_map not_False_eq_True)
qed

lemma errorMatches_reply:
  assumes "method \<in> {''GET'', ''POST'', ''PUT'', ''DELETE''}"
  shows "errorMatches (Some (ErrorString (status_line method s @ '' Error: '' @ msg))) ErrJSONNoSuchDevice
      \<longleftrightarrow> sublist no_such_device (ToLower msg)"
    and "errorMatches (Some (ErrorString (status_line method s @ '' Error: '' @ msg))) ErrJSONNoSpaceLeft
      \<longleftrightarrow> sublist no_space_left (ToLower msg)"
  unfolding errorMatches_text err_msg.simps status_line_plain(1) [OF assms] no_such_device_def no_space_left_def
  by (rule sublist_behind [OF status_line_plain(2) [OF assms]])+

text \<open>
  Deleting a volume of which the cluster says, in a reply with a client error, that there is no such
  device (in any letter case, anywhere in its message) gives the sentinel error; for any other message the
  error carries the status and the message unchanged. Nothing else of the reply is looked at.
\<close>

theorem deleteVolume_error_classified:
  assumes "rc_HTTPClient client"
    and "http_check E ''DELETE'' (rc_ClusterIP client @ ''/api/v1/'' @ ''/lvol/'' @ lvolID) = None"
    and "http_do E (sbcli_request client ''DELETE'' (''/lvol/'' @ lvolID) None) (w_ext w) =
      (Inr \<lparr>rs_status = s, rs_body = jprint (JObj [(''error'', JStr msg)])\<rparr>, x)"
    and "400 \<le> s" and "s < 500" and "valid_utf8 msg"
  shows "fst (deleteVolume E client lvolID w) = Ret (Inl
    (if Contains (ToLower msg) ''no such device'' then ErrJSONNoSuchDevice
     else ErrorString (status_line ''DELETE'' s @ '' Error: '' @ msg)))"
proof -
  let ?e = "ErrorString (status_line ''DELETE'' s @ '' Error: '' @ msg)"
  obtain w' where "CallSBCLI E client ''DELETE'' (''/lvol/'' @ lvolID) None w = (Ret (Inl ?e), w')"
    using CallSBCLI_run [where verb = "''DELETE''", OF assms(1) _ assms(3)] assms(2)
      sbcli_result_error [OF assms(4-6), where verb = "''DELETE''"] by (simp add: sbcli_request_def)
  then have "deleteVolume E client lvolID w = (Ret (Inl (replaceMatching ErrJSONNoSuchDevice ?e)), w')"
    unfolding deleteVolume_def by (intro mapErr_Inl bindE_Inl)
  then show ?thesis using errorMatches_reply [of "''DELETE''" s msg]
    by (simp add: replaceMatching_def Contains_sublist no_such_device_def)
qed

definition demo_client :: RPCClient where
  "demo_client = \<lparr>rc_ClusterID = ''c1'', rc_ClusterIP = ''http://sb'', rc_ClusterSecret = ''s'', rc_HTTPClient = True\<rparr>"

theorem deleteVolume_error_classified_witness:
  "fst (deleteVolume demo_env demo_client ''v1'' (demo_world [] [Inr \<lparr>rs_status = 404,
      rs_body = jprint (JObj [(''error'', JStr ''LVol: No Such Device v1'')])\<rparr>])) = Ret (Inl ErrJSONNoSuchDevice)"
proof -
  have "valid_utf8 ''LVol: No Such Device v1''"
    and "Contains (ToLower ''LVol: No Such Device v1'') ''no such device''" by code_simp+
  then show ?thesis
    using deleteVolume_error_classified [of demo_client demo_env "''v1''"
        "demo_world [] [Inr \<lparr>rs_status = 404, rs_body = jprint (JObj [(''error'', JStr ''LVol: No Such Device v1'')])\<rparr>]"
        404 "''LVol: No Such Device v1''" "[]"]
    by (simp add: demo_env_def demo_world_def demo_client_def del: jprint.simps jmembers.simps)
qed

end
