(* ===== verification/Nvmf.thy ===== *)
theory Nvmf
  imports RpcClient
begin

text \<open>
  The node object (the operations of \<open>NodeNVMf\<close>, here with the prefix \<open>node_\<close>) of \<^verbatim>\<open>pkg/util/nvmf.go\<close>, which the servers call, on top of the client; and how a node
  object for a cluster is made from the secret file (\<^verbatim>\<open>pkg/util/initiator.go\<close>).
\<close>

section \<open>Cluster configuration\<close>

record ClusterConfig =
  cc_ClusterID :: string
  cc_ClusterEndpoint :: string
  cc_ClusterSecret :: string

text \<open>\<open>ClustersInfo\<close> has the one field \<open>Clusters\<close>, so it is represented by that list.\<close>

definition dec_ClusterConfig :: "ClusterConfig decoder" where
  "dec_ClusterConfig = dec_struct
    [(''cluster_id'', field dec_string cc_ClusterID (\<lambda>x. cc_ClusterID_update (\<lambda>_. x))),
     (''cluster_endpoint'', field dec_string cc_ClusterEndpoint (\<lambda>x. cc_ClusterEndpoint_update (\<lambda>_. x))),
     (''cluster_secret'', field dec_string cc_ClusterSecret (\<lambda>x. cc_ClusterSecret_update (\<lambda>_. x)))]"

definition dec_ClustersInfo :: "ClusterConfig list decoder" where
  "dec_ClustersInfo = dec_struct
    [(''clusters'', dec_slice dec_ClusterConfig
        \<lparr>cc_ClusterID = [], cc_ClusterEndpoint = [], cc_ClusterSecret = []\<rparr>)]"

record NodeNVMf =
  nd_Client :: RPCClient

definition NewNVMf :: "string \<Rightarrow> string \<Rightarrow> string \<Rightarrow> NodeNVMf" where
  "NewNVMf clusterID clusterIP clusterSecret =
     \<lparr>nd_Client = \<lparr>rc_ClusterID = clusterID, rc_ClusterIP = clusterIP,
        rc_ClusterSecret = clusterSecret, rc_HTTPClient = True\<rparr>\<rparr>"

definition pick_cluster :: "string \<Rightarrow> ClusterConfig list \<Rightarrow> goerr + NodeNVMf" where
  "pick_cluster clusterID clusters =
     (case find (\<lambda>cluster. cc_ClusterID cluster = clusterID) clusters of
        None \<Rightarrow> Inl (ErrorString (''failed to find secret for clusterID '' @ clusterID))
      | Some clusterConfig \<Rightarrow>
          if cc_ClusterEndpoint clusterConfig = [] \<or> cc_ClusterSecret clusterConfig = []
          then Inl (ErrorString (''invalid cluster configuration for clusterID '' @ clusterID))
          else Inr (NewNVMf clusterID (cc_ClusterEndpoint clusterConfig) (cc_ClusterSecret clusterConfig)))"

definition NewsimplyBlockClient :: "'x env \<Rightarrow> string \<Rightarrow> ('x, NodeNVMf) ioE" where
  "NewsimplyBlockClient E clusterID =
     (let secretFile = FromEnv E ''SPDKCSI_SECRET'' ''/etc/spdkcsi-secret/secret.json'' in
      bindE (mapErr (Wrapped ''failed to parse secret file: '')
          (ParseJSONFile E dec_ClustersInfo [] secretFile))
        (\<lambda>clusters. ret (pick_cluster clusterID clusters)))"

lemmas NewsimplyBlockClient_code [code] = NewsimplyBlockClient_def [THEN fun_cong]

section \<open>The node object\<close>

definition node_Info :: "NodeNVMf \<Rightarrow> string" where
  "node_Info node = info (nd_Client node)"

definition node_LvStores :: "'x env \<Rightarrow> NodeNVMf \<Rightarrow> ('x, LvStore list) ioE" where
  "node_LvStores E node = lvStores E (nd_Client node)"

definition node_VolumeInfo :: "'x env \<Rightarrow> NodeNVMf \<Rightarrow> string \<Rightarrow> ('x, gomap) ioE" where
  "node_VolumeInfo E node lvolID = getVolumeInfo E (nd_Client node) lvolID"

definition node_CreateVolume :: "'x env \<Rightarrow> NodeNVMf \<Rightarrow> CreateLVolData \<Rightarrow> ('x, string) ioE" where
  "node_CreateVolume E node params = createVolume E (nd_Client node) params"

definition node_GetVolume :: "'x env \<Rightarrow> NodeNVMf \<Rightarrow> string \<Rightarrow> string \<Rightarrow> ('x, string) ioE" where
  "node_GetVolume E node lvolName poolName =
     bindE (getVolume E (nd_Client node) (poolName @ ''/'' @ lvolName)) (\<lambda>lvol. ret (Inr (bd_UUID lvol)))"

definition node_GetVolumeSize :: "'x env \<Rightarrow> NodeNVMf \<Rightarrow> string \<Rightarrow> ('x, string) ioE" where
  "node_GetVolumeSize E node lvolID =
     bindE (getVolume E (nd_Client node) lvolID) (\<lambda>lvol. ret (Inr (Itoa (bd_LvolSize lvol))))"

definition node_ListVolumes :: "'x env \<Rightarrow> NodeNVMf \<Rightarrow> ('x, BDev option list) ioE" where
  "node_ListVolumes E node = listVolumes E (nd_Client node)"

definition node_ResizeVolume :: "'x env \<Rightarrow> NodeNVMf \<Rightarrow> string \<Rightarrow> int \<Rightarrow> ('x, bool) ioE" where
  "node_ResizeVolume E node lvolID newSize = resizeVolume E (nd_Client node) lvolID newSize"

definition node_ListSnapshots :: "'x env \<Rightarrow> NodeNVMf \<Rightarrow> ('x, SnapshotResp option list) ioE" where
  "node_ListSnapshots E node = listSnapshots E (nd_Client node)"

definition node_CloneSnapshot ::
  "'x env \<Rightarrow> NodeNVMf \<Rightarrow> string \<Rightarrow> string \<Rightarrow> string \<Rightarrow> string \<Rightarrow> ('x, string) ioE" where
  "node_CloneSnapshot E node snapshotID cloneName newSize pvcName =
     cloneSnapshot E (nd_Client node) snapshotID cloneName newSize pvcName"

definition node_CreateSnapshot :: "'x env \<Rightarrow> NodeNVMf \<Rightarrow> string \<Rightarrow> string \<Rightarrow> ('x, string) ioE" where
  "node_CreateSnapshot E node lvolID snapshotName =
     bindE (snapshot E (nd_Client node) lvolID snapshotName)
       (\<lambda>snapshotID. ret (Inr (rc_ClusterID (nd_Client node) @ '':'' @ snapshotID)))"

definition node_DeleteVolume :: "'x env \<Rightarrow> NodeNVMf \<Rightarrow> string \<Rightarrow> ('x, unit) ioE" where
  "node_DeleteVolume E node lvolID = deleteVolume E (nd_Client node) lvolID"

definition node_DeleteSnapshot :: "'x env \<Rightarrow> NodeNVMf \<Rightarrow> string \<Rightarrow> ('x, unit) ioE" where
  "node_DeleteSnapshot E node snapshotID = deleteSnapshot E (nd_Client node) snapshotID"

text \<open>Publishing and unpublishing only ask the cluster for the volume.\<close>

definition node_PublishVolume :: "'x env \<Rightarrow> NodeNVMf \<Rightarrow> string \<Rightarrow> ('x, unit) ioE" where
  "node_PublishVolume E node lvolID =
     bindE (CallSBCLI E (nd_Client node) ''GET'' (''/lvol/'' @ lvolID) None) (\<lambda>_. ret (Inr ()))"

definition node_UnpublishVolume :: "'x env \<Rightarrow> NodeNVMf \<Rightarrow> string \<Rightarrow> ('x, unit) ioE" where
  "node_UnpublishVolume E node lvolID =
     bindE (CallSBCLI E (nd_Client node) ''GET'' (''/lvol/'' @ lvolID) None) (\<lambda>_. ret (Inr ()))"

section \<open>Effects\<close>

lemma keeps_NewsimplyBlockClient: "keeps (extends (sends ms)) (NewsimplyBlockClient E clusterID)"
  unfolding NewsimplyBlockClient_def ParseJSONFile_def Let_def
  by (intro tr.keeps_rules keeps_ReadFile_tr) simp

lemma keeps_NewsimplyBlockClient_fs: "keeps same_fs (NewsimplyBlockClient E clusterID)"
  unfolding NewsimplyBlockClient_def ParseJSONFile_def Let_def
  by (intro fsf.keeps_rules keeps_ReadFile_fs)

lemma keeps_node_get:
  assumes "''GET'' \<in> ms"
  shows "keeps (extends (sends ms)) (node_LvStores E node)"
    and "keeps (extends (sends ms)) (node_VolumeInfo E node lvolID)"
    and "keeps (extends (sends ms)) (node_GetVolume E node lvolName poolName)"
    and "keeps (extends (sends ms)) (node_GetVolumeSize E node lvolID)"
    and "keeps (extends (sends ms)) (node_ListVolumes E node)"
    and "keeps (extends (sends ms)) (node_ListSnapshots E node)"
    and "keeps (extends (sends ms)) (node_PublishVolume E node lvolID)"
    and "keeps (extends (sends ms)) (node_UnpublishVolume E node lvolID)"
  unfolding node_LvStores_def node_VolumeInfo_def node_GetVolume_def node_GetVolumeSize_def node_ListVolumes_def
    node_ListSnapshots_def node_PublishVolume_def node_UnpublishVolume_def
  by (intro tr.keeps_rules keeps_get_requests keeps_CallSBCLI assms)+

lemma keeps_node_post:
  assumes "''POST'' \<in> ms"
  shows "keeps (extends (sends ms)) (node_CreateVolume E node params)"
    and "keeps (extends (sends ms)) (node_CloneSnapshot E node sid cloneName newSize pvcName)"
    and "keeps (extends (sends ms)) (node_CreateSnapshot E node lvolID snapshotName)"
  unfolding node_CreateVolume_def node_CloneSnapshot_def node_CreateSnapshot_def
  by (intro tr.keeps_rules keeps_post_requests assms)+

lemma keeps_node_delete:
  assumes "''DELETE'' \<in> ms"
  shows "keeps (extends (sends ms)) (node_DeleteVolume E node lvolID)"
    and "keeps (extends (sends ms)) (node_DeleteSnapshot E node sid)"
  unfolding node_DeleteVolume_def node_DeleteSnapshot_def
  by (intro keeps_delete_requests assms)+

lemma keeps_node_put:
  "''PUT'' \<in> ms \<Longrightarrow> keeps (extends (sends ms)) (node_ResizeVolume E node lvolID sz)"
  unfolding node_ResizeVolume_def by (intro keeps_put_requests)

section \<open>Making a client\<close>

lemma NewsimplyBlockClient_InrE:
  assumes "NewsimplyBlockClient E clusterID w = (Ret (Inr node), w')"
  shows "rc_ClusterID (nd_Client node) = clusterID" and "rc_HTTPClient (nd_Client node)"
    and "rc_ClusterIP (nd_Client node) \<noteq> []" and "rc_ClusterSecret (nd_Client node) \<noteq> []"
  using assms
  by (auto simp: NewsimplyBlockClient_def Let_def pick_cluster_def NewNVMf_def ret_def
      elim!: bindE_InrE split: option.splits if_splits)

end
