(* ===== verification/CsiCommon.thy ===== *)
theory CsiCommon
  imports Host
begin

text \<open>
  The common layer of \<^verbatim>\<open>pkg/csi-common\<close>: the driver object with its capabilities, the default servers whose
  methods a driver overrides, the endpoint and the start of the gRPC server, with the identity server of
  \<^verbatim>\<open>pkg/spdk\<close>. The gRPC library itself (listening, dispatching) is not modelled.
\<close>

section \<open>Capabilities\<close>

text \<open>The two enumerations of the CSI protocol that the driver uses.\<close>

datatype rpc_type =
    RPC_UNKNOWN | RPC_CREATE_DELETE_VOLUME | RPC_PUBLISH_UNPUBLISH_VOLUME | RPC_LIST_VOLUMES
  | RPC_GET_CAPACITY | RPC_CREATE_DELETE_SNAPSHOT | RPC_LIST_SNAPSHOTS | RPC_CLONE_VOLUME
  | RPC_PUBLISH_READONLY | RPC_EXPAND_VOLUME | RPC_LIST_VOLUMES_PUBLISHED_NODES
  | RPC_VOLUME_CONDITION | RPC_GET_VOLUME

datatype access_mode =
    UNKNOWN | SINGLE_NODE_WRITER | SINGLE_NODE_READER_ONLY | MULTI_NODE_READER_ONLY
  | MULTI_NODE_SINGLE_WRITER | MULTI_NODE_MULTI_WRITER | SINGLE_NODE_SINGLE_WRITER
  | SINGLE_NODE_MULTI_WRITER

fun rpc_name :: "rpc_type \<Rightarrow> string" where
  "rpc_name RPC_UNKNOWN = ''UNKNOWN''"
| "rpc_name RPC_CREATE_DELETE_VOLUME = ''CREATE_DELETE_VOLUME''"
| "rpc_name RPC_PUBLISH_UNPUBLISH_VOLUME = ''PUBLISH_UNPUBLISH_VOLUME''"
| "rpc_name RPC_LIST_VOLUMES = ''LIST_VOLUMES''"
| "rpc_name RPC_GET_CAPACITY = ''GET_CAPACITY''"
| "rpc_name RPC_CREATE_DELETE_SNAPSHOT = ''CREATE_DELETE_SNAPSHOT''"
| "rpc_name RPC_LIST_SNAPSHOTS = ''LIST_SNAPSHOTS''"
| "rpc_name RPC_CLONE_VOLUME = ''CLONE_VOLUME''"
| "rpc_name RPC_PUBLISH_READONLY = ''PUBLISH_READONLY''"
| "rpc_name RPC_EXPAND_VOLUME = ''EXPAND_VOLUME''"
| "rpc_name RPC_LIST_VOLUMES_PUBLISHED_NODES = ''LIST_VOLUMES_PUBLISHED_NODES''"
| "rpc_name RPC_VOLUME_CONDITION = ''VOLUME_CONDITION''"
| "rpc_name RPC_GET_VOLUME = ''GET_VOLUME''"

section \<open>The driver object\<close>

text \<open>
  A capability message wraps an \<open>rpc_type\<close>, an access mode message an \<open>access_mode\<close>; both wrappers are
  represented by what they hold, so \<open>NewControllerServiceCapability\<close> and \<open>NewVolumeCapabilityAccessMode\<close>
  are the identity.
\<close>

record CSIDriver =
  dr_name :: string
  dr_nodeID :: string
  dr_version :: string
  dr_cap :: "rpc_type list"
  dr_vc :: "access_mode list"

definition NewControllerServiceCapability :: "rpc_type \<Rightarrow> rpc_type" where
  "NewControllerServiceCapability captype = captype"

definition NewVolumeCapabilityAccessMode :: "access_mode \<Rightarrow> access_mode" where
  "NewVolumeCapabilityAccessMode mode = mode"

definition NewCSIDriver :: "string \<Rightarrow> string \<Rightarrow> string \<Rightarrow> CSIDriver option" where
  "NewCSIDriver name v nodeID =
     (if name = [] then None
      else if nodeID = [] then None
      else if v = [] then None
      else Some \<lparr>dr_name = name, dr_nodeID = nodeID, dr_version = v, dr_cap = [], dr_vc = []\<rparr>)"

definition ValidateControllerServiceRequest :: "CSIDriver \<Rightarrow> rpc_type \<Rightarrow> goerr + unit" where
  "ValidateControllerServiceRequest d c =
     (if c = RPC_UNKNOWN then Inr ()
      else if list_ex (\<lambda>cap. c = cap) (dr_cap d) then Inr ()
      else Inl (Status InvalidArgument (rpc_name c)))"

definition AddControllerServiceCapabilities :: "rpc_type list \<Rightarrow> CSIDriver \<Rightarrow> CSIDriver" where
  "AddControllerServiceCapabilities cl d = d\<lparr>dr_cap := map NewControllerServiceCapability cl\<rparr>"

definition AddVolumeCapabilityAccessModes ::
  "access_mode list \<Rightarrow> CSIDriver \<Rightarrow> access_mode list \<times> CSIDriver" where
  "AddVolumeCapabilityAccessModes vc d =
     (let vca = map NewVolumeCapabilityAccessMode vc in (vca, d\<lparr>dr_vc := vca\<rparr>))"

definition GetVolumeCapabilityAccessModes :: "CSIDriver \<Rightarrow> access_mode list" where
  "GetVolumeCapabilityAccessModes d = dr_vc d"

section \<open>Default servers\<close>

text \<open>A method the driver does not override answers \<open>Unimplemented\<close>, without any effect.\<close>

definition unimplemented :: "('x, 'a) ioE" where
  "unimplemented = throw (Status Unimplemented [])"

text \<open>The default servers hold the driver object (\<^verbatim>\<open>utils.go\<close> makes them).\<close>

record DefaultControllerServer =
  dc_Driver :: CSIDriver

record DefaultNodeServer =
  dn_Driver :: CSIDriver

record DefaultIdentityServer =
  di_Driver :: CSIDriver

definition NewDefaultControllerServer :: "CSIDriver \<Rightarrow> DefaultControllerServer" where
  "NewDefaultControllerServer d = \<lparr>dc_Driver = d\<rparr>"

definition NewDefaultNodeServer :: "CSIDriver \<Rightarrow> DefaultNodeServer" where
  "NewDefaultNodeServer d = \<lparr>dn_Driver = d\<rparr>"

definition NewDefaultIdentityServer :: "CSIDriver \<Rightarrow> DefaultIdentityServer" where
  "NewDefaultIdentityServer d = \<lparr>di_Driver = d\<rparr>"

definition DefaultControllerGetCapabilities :: "CSIDriver \<Rightarrow> rpc_type list" where
  "DefaultControllerGetCapabilities d = dr_cap d"

definition DefaultNodeGetInfo :: "CSIDriver \<Rightarrow> string" where
  "DefaultNodeGetInfo d = dr_nodeID d"

datatype node_rpc_type = NODE_UNKNOWN | NODE_STAGE_UNSTAGE_VOLUME | NODE_GET_VOLUME_STATS
  | NODE_EXPAND_VOLUME | NODE_VOLUME_CONDITION

definition DefaultNodeGetCapabilities :: "node_rpc_type list" where
  "DefaultNodeGetCapabilities = [NODE_UNKNOWN]"

datatype plugin_capability = CONTROLLER_SERVICE | EXPANSION_ONLINE | EXPANSION_OFFLINE

definition DefaultGetPluginInfo :: "CSIDriver \<Rightarrow> goerr + (string \<times> string)" where
  "DefaultGetPluginInfo d =
     (if dr_name d = [] then Inl (Status Unavailable ''Driver name not configured'')
      else if dr_version d = [] then Inl (Status Unavailable ''Driver is missing version'')
      else Inr (dr_name d, dr_version d))"

definition DefaultProbe :: "goerr + unit" where
  "DefaultProbe = Inr ()"

definition DefaultGetPluginCapabilities :: "plugin_capability list" where
  "DefaultGetPluginCapabilities = [CONTROLLER_SERVICE]"

text \<open>The identity server of the driver (\<^verbatim>\<open>pkg/spdk/identityserver.go\<close>) overrides the last one.\<close>

definition GetPluginCapabilities :: "plugin_capability list" where
  "GetPluginCapabilities = [CONTROLLER_SERVICE, EXPANSION_ONLINE, EXPANSION_OFFLINE]"

section \<open>The endpoint\<close>

text \<open>\<open>strings.SplitN(ep, "://", 2)\<close> has a second part, see \<open>endpoint_has_separator\<close>.\<close>

definition parseEndpoint :: "string \<Rightarrow> goerr + (string \<times> string)" where
  "parseEndpoint ep =
     (let invalid = Inl (ErrorString (''invalid endpoint: '' @ ep)) in
      if HasPrefix (ToLower ep) ''unix://'' \<or> HasPrefix (ToLower ep) ''tcp://'' then
        (case Cut ''://'' ep of
           Some (proto, addr) \<Rightarrow> if addr \<noteq> [] then Inr (proto, addr) else invalid
         | None \<Rightarrow> invalid)
      else invalid)"

lemma lower_char_sep:
  "lower_char c = CHR '':'' \<longleftrightarrow> c = CHR '':''" "lower_char c = CHR ''/'' \<longleftrightarrow> c = CHR ''/''"
proof -
  have 1: "lower_char c = d \<longleftrightarrow> c = d" if "\<not> (97 \<le> (of_char d :: nat) \<and> of_char d \<le> (122 :: nat))"
    and "\<not> (65 \<le> (of_char d :: nat) \<and> of_char d \<le> (90 :: nat))" for d
  proof (cases "65 \<le> (of_char c :: nat) \<and> of_char c \<le> (90 :: nat)")
    case True
    then have "of_char (lower_char c) = (of_char c :: nat) + 32" by (simp add: lower_char_def Let_def)
    then have "lower_char c \<noteq> d" using True that(1) by auto
    then show ?thesis using True that(2) by auto
  next
    case False
    then have "lower_char c = c" by (auto simp: lower_char_def Let_def)
    then show ?thesis by simp
  qed
  show "lower_char c = CHR '':'' \<longleftrightarrow> c = CHR '':''" "lower_char c = CHR ''/'' \<longleftrightarrow> c = CHR ''/''"
    by (rule 1; simp)+
qed

lemma prefix_ToLower_Cons:
  assumes "x = CHR '':'' \<or> x = CHR ''/''"
  shows "prefix (x # xs) (ToLower (c # s)) \<longleftrightarrow> c = x \<and> prefix xs (ToLower s)"
proof -
  have "lower_char c = x \<longleftrightarrow> c = x" using assms lower_char_sep by auto
  moreover have "x \<noteq> CHR ''i''" "x \<noteq> CHR ''k''" "x \<noteq> CHR 0xC4" "x \<noteq> CHR 0xE2" using assms by auto
  ultimately show ?thesis by (cases "c = x") (auto simp: eq_commute [of x])
qed

lemma prefix_ToLower_sep: "prefix ''://'' (ToLower s) \<longleftrightarrow> prefix ''://'' s"
proof -
  note colon = prefix_ToLower_Cons [OF disjI1 [OF refl]] and slash = prefix_ToLower_Cons [OF disjI2 [OF refl]]
  have 1: "prefix [CHR ''/''] (ToLower s) \<longleftrightarrow> prefix [CHR ''/''] s" for s
    by (cases s) (simp, auto simp only: slash Cons_prefix_Cons prefix_bot.bot_least)
  have 2: "prefix [CHR ''/'', CHR ''/''] (ToLower s) \<longleftrightarrow> prefix [CHR ''/'', CHR ''/''] s" for s
    by (cases s) (simp, auto simp only: slash 1 Cons_prefix_Cons)
  show ?thesis by (cases s) (simp, auto simp only: colon 2 Cons_prefix_Cons)
qed

lemma not_prefix_sep: "c \<noteq> CHR '':'' \<Longrightarrow> \<not> prefix ''://'' (c # s)"
  by simp

lemma sublist_ToLower_sep: "sublist ''://'' (ToLower s) \<longleftrightarrow> sublist ''://'' s"
proof (induction s rule: ToLower.induct)
  case (2 c s)
  consider (i) t where "c = CHR 0xC4" "s = CHR 0xB0 # t" | (k) t where "c = CHR 0xE2" "s = CHR 0x84 # CHR 0xAA # t"
    | (plain) "\<not> (c = CHR 0xC4 \<and> prefix [CHR 0xB0] s)" "\<not> (c = CHR 0xE2 \<and> prefix [CHR 0x84, CHR 0xAA] s)"
    by (auto simp: prefix_def)
  then show ?case
  proof cases
    case i
    then have IH: "sublist ''://'' (ToLower t) \<longleftrightarrow> sublist ''://'' t" using 2 by simp
    have "ToLower (c # s) = CHR ''i'' # ToLower t" using i by simp
    then show ?thesis using IH i by (simp add: sublist_Cons_right)
  next
    case k
    then have IH: "sublist ''://'' (ToLower t) \<longleftrightarrow> sublist ''://'' t" using 2 by simp
    have "ToLower (c # s) = CHR ''k'' # ToLower t" using k by simp
    then show ?thesis using IH k by (simp add: sublist_Cons_right)
  next
    case plain
    then have IH: "sublist ''://'' (ToLower s) \<longleftrightarrow> sublist ''://'' s" using 2 by blast
    have low: "ToLower (c # s) = lower_char c # ToLower s" using plain by auto
    have "sublist ''://'' (ToLower (c # s)) \<longleftrightarrow> prefix ''://'' (ToLower (c # s)) \<or> sublist ''://'' (ToLower s)"
      unfolding low by (rule sublist_Cons_right)
    also have "\<dots> \<longleftrightarrow> sublist ''://'' (c # s)"
      unfolding prefix_ToLower_sep IH by (rule sublist_Cons_right [symmetric])
    finally show ?thesis .
  qed
qed simp

lemma endpoint_has_separator:
  assumes "HasPrefix (ToLower ep) ''unix://'' \<or> HasPrefix (ToLower ep) ''tcp://''"
  shows "Cut ''://'' ep \<noteq> None"
proof -
  obtain t where "ToLower ep = ''unix'' @ ''://'' @ t \<or> ToLower ep = ''tcp'' @ ''://'' @ t"
    using assms unfolding HasPrefix_def prefix_def by auto
  then have "sublist ''://'' (ToLower ep)" unfolding sublist_def by blast
  then show ?thesis unfolding Cut_None sublist_ToLower_sep by simp
qed

lemma Cut_scheme: "CHR '':'' \<notin> set p \<Longrightarrow> Cut ''://'' (p @ ''://'' @ addr) = Some (p, addr)"
  by (induction p) auto

lemma ToLower_scheme:
  assumes "CHR 0xC4 \<notin> set p" and "CHR 0xE2 \<notin> set p"
  shows "ToLower (p @ ''://'' @ addr) = ToLower p @ ''://'' @ ToLower addr"
proof -
  have sep: "map lower_char ''://'' = ''://''" by code_simp
  have "ToLower (p @ ''://'' @ addr) = map lower_char p @ ToLower (''://'' @ addr)"
    by (rule ToLower_plain [OF assms])
  also have "map lower_char p = ToLower p"
    using ToLower_plain [OF assms, of "[]"] by (simp only: append_Nil2 ToLower.simps)
  also have "ToLower (''://'' @ addr) = ''://'' @ ToLower addr"
    by (rule trans [OF ToLower_plain]) (simp, simp, simp only: sep)
  finally show ?thesis .
qed

lemma scheme_prefix:
  "p = ''unix'' \<or> p = ''tcp'' \<Longrightarrow> HasPrefix (p @ ''://'' @ x) ''unix://'' \<or> HasPrefix (p @ ''://'' @ x) ''tcp://''"
  by (auto simp: HasPrefix_def)

lemma parseEndpoint_cut:
  assumes "HasPrefix (ToLower ep) ''unix://'' \<or> HasPrefix (ToLower ep) ''tcp://''"
    and "Cut ''://'' ep = Some (p, a)" and "a \<noteq> []"
  shows "parseEndpoint ep = Inr (p, a)"
  unfolding parseEndpoint_def Let_def assms(2) using assms(1,3) by (simp only: if_True option.case prod.case) simp

text \<open>
  An endpoint \<open>unix://ADDR\<close> or \<open>tcp://ADDR\<close>, the scheme in any letter case and the address not empty, is
  split into scheme and address; the scheme is handed on in the case it was written in.
\<close>

theorem parseEndpoint_accepts:
  assumes "ToLower scheme = ''unix'' \<or> ToLower scheme = ''tcp''"
    and "\<forall>c \<in> set scheme. c \<noteq> CHR '':'' \<and> c \<noteq> CHR 0xC4 \<and> c \<noteq> CHR 0xE2" and "addr \<noteq> []"
  shows "parseEndpoint (scheme @ ''://'' @ addr) = Inr (scheme, addr)"
proof (rule parseEndpoint_cut)
  have plain: "CHR 0xC4 \<notin> set scheme" "CHR 0xE2 \<notin> set scheme" and colon: "CHR '':'' \<notin> set scheme"
    using assms(2) by blast+
  show "HasPrefix (ToLower (scheme @ ''://'' @ addr)) ''unix://'' \<or>
      HasPrefix (ToLower (scheme @ ''://'' @ addr)) ''tcp://''"
    unfolding ToLower_scheme [OF plain] using assms(1) by (rule scheme_prefix)
  show "Cut ''://'' (scheme @ ''://'' @ addr) = Some (scheme, addr)" by (rule Cut_scheme [OF colon])
qed (rule assms(3))

theorem parseEndpoint_accepts_witness:
  "parseEndpoint (''UNIX'' @ ''://'' @ ''tmp/csi.sock'') = Inr (''UNIX'', ''tmp/csi.sock'')"
proof -
  have "ToLower ''UNIX'' = ''unix''" by code_simp
  then show ?thesis using parseEndpoint_accepts [of "''UNIX''" "''tmp/csi.sock''"] by simp
qed

text \<open>
  Whatever is accepted has been split at its first separator, into a scheme and a non-empty address, so
  nothing of the endpoint is lost.
\<close>

theorem parseEndpoint_sound:
  assumes "parseEndpoint ep = Inr (proto, addr)"
  shows "ep = proto @ ''://'' @ addr \<and> addr \<noteq> [] \<and>
    (HasPrefix (ToLower ep) ''unix://'' \<or> HasPrefix (ToLower ep) ''tcp://'')"
  using assms Cut_Some [of "''://''" ep]
  by (auto simp: parseEndpoint_def Let_def split: if_splits option.splits)

theorem parseEndpoint_sound_witness:
  "parseEndpoint ''tcp://127.0.0.1:10000'' = Inr (''tcp'', ''127.0.0.1:10000'') \<and>
   ''tcp://127.0.0.1:10000'' = ''tcp'' @ ''://'' @ ''127.0.0.1:10000''"
proof
  show run: "parseEndpoint ''tcp://127.0.0.1:10000'' = Inr (''tcp'', ''127.0.0.1:10000'')" by code_simp
  show "''tcp://127.0.0.1:10000'' = ''tcp'' @ ''://'' @ ''127.0.0.1:10000''"
    using parseEndpoint_sound [OF run] by blast
qed

section \<open>The server\<close>

text \<open>
  A value of a Go interface type: the nil interface, or one with a dynamic type whose pointer may be nil. The
  comparison with \<open>nil\<close> in \<open>serve\<close> is with the nil interface only.
\<close>

datatype 'a iface = NilInterface | Dynamic "'a option"

definition iface_nil :: "'a iface \<Rightarrow> bool" where
  "iface_nil v \<longleftrightarrow> (case v of NilInterface \<Rightarrow> True | Dynamic _ \<Rightarrow> False)"

datatype csi_service = IdentityService | ControllerService | NodeService

text \<open>
  \<open>serve\<close> up to the call that listens: the network, the address (an absolute path for a unix socket, whose
  old file is removed) and the services that are registered. \<open>klog.Fatal\<close> ends the process.
\<close>

definition serve ::
  "'x env \<Rightarrow> string \<Rightarrow> 'i iface \<Rightarrow> 'c iface \<Rightarrow> 'n iface \<Rightarrow> ('x, string \<times> string \<times> csi_service list) io" where
  "serve E endpoint ids cs ns =
     (case parseEndpoint endpoint of
        Inl err \<Rightarrow> panic (err_msg err)
      | Inr (proto, addr) \<Rightarrow>
          let path = if proto = ''unix'' then ''/'' @ addr else addr;
              register = (if iface_nil ids then [] else [IdentityService]) @
                (if iface_nil cs then [] else [ControllerService]) @ (if iface_nil ns then [] else [NodeService])
          in if proto = ''unix''
             then bindP (Remove E path) (\<lambda>r. case r of
                    Inl err \<Rightarrow> if is_not_exist err then ret (proto, path, register)
                      else panic (''Failed to remove '' @ path @ '', error: '' @ err_msg err)
                  | Inr _ \<Rightarrow> ret (proto, path, register))
             else ret (proto, path, register))"

text \<open>
  The interceptor of every request: it calls the handler and returns what that returned; its log output is not
  modelled.
\<close>

definition logGRPC :: "('r \<Rightarrow> ('x, 'a) ioE) \<Rightarrow> 'r \<Rightarrow> ('x, 'a) ioE" where
  "logGRPC handler req = bindP (handler req) (\<lambda>r. case r of
       Inl err \<Rightarrow> throw err
     | Inr resp \<Rightarrow> ret (Inr resp))"

lemma logGRPC_transparent [simp]: "logGRPC handler req = handler req"
  by (rule ext) (auto simp: logGRPC_def bindP_def throw_def ret_def split: prod.splits outcome.splits sum.splits)

lemma serve_dynamic:
  assumes "serve E endpoint (Dynamic ids) (Dynamic cs) (Dynamic ns) w = (Ret (proto, addr, services), w')"
  shows "services = [IdentityService, ControllerService, NodeService]"
  using assms
  by (auto simp: serve_def iface_nil_def Let_def panic_def ret_def elim!: bindP_RetE
      split: sum.splits if_splits prod.splits)

end
