(* ===== verification/VolumeLocks.thy ===== *)
theory VolumeLocks
  imports Host
begin

text \<open>
  The locks of \<^verbatim>\<open>pkg/util/idlocker.go\<close> (one mutex per volume identifier, made on first use) and of
  \<^verbatim>\<open>pkg/util/util.go\<close> (a lock that is tried once), as machines that any number of goroutines step
  through in any order, and the bracket with which a handler holds such a lock.
\<close>

section \<open>The contract of a lock\<close>

text \<open>
  What the users of a lock rely on: in a reachable state at most one goroutine owns the lock of a key.
\<close>

locale exclusive_lock =
  fixes reach :: "'s \<Rightarrow> bool"
    and owns :: "'s \<Rightarrow> 'k \<Rightarrow> 't \<Rightarrow> bool"
  assumes exclusive: "reach s \<Longrightarrow> owns s k i \<Longrightarrow> owns s k j \<Longrightarrow> i = j"
begin

lemma owners_at_most_one: "reach s \<Longrightarrow> finite {i. owns s k i} \<and> card {i. owns s k i} \<le> 1"
proof -
  assume s: "reach s"
  show ?thesis
  proof (cases "\<exists>i. owns s k i")
    case True
    then obtain i where "owns s k i" by blast
    then have "{j. owns s k j} = {i}" using exclusive [OF s] by blast
    then show ?thesis by simp
  qed simp
qed

lemma other_excluded: "reach s \<Longrightarrow> owns s k i \<Longrightarrow> i \<noteq> j \<Longrightarrow> \<not> owns s k j"
  using exclusive by blast

end

section \<open>VolumeLocks\<close>

text \<open>
  The map from identifiers to mutexes, and the mutexes themselves as cells of a heap: \<open>vl_locked p\<close> says
  whether the mutex at address \<open>p\<close> is locked, \<open>vl_next\<close> is the next free address.
\<close>

record lock_table =
  vl_mutexes :: "(string \<times> nat) list"
  vl_locked :: "nat \<Rightarrow> bool"
  vl_next :: nat

definition NewVolumeLocks :: lock_table where
  "NewVolumeLocks = \<lparr>vl_mutexes = [], vl_locked = (\<lambda>_. False), vl_next = 0\<rparr>"

text \<open>
  \<open>vl.mutexes.LoadOrStore(volumeID, &sync.Mutex{})\<close>: a fresh mutex is made on every call, and stored only
  if the identifier has none.
\<close>

definition LoadOrStore :: "lock_table \<Rightarrow> string \<Rightarrow> nat \<times> lock_table" where
  "LoadOrStore vl volumeID =
     (let fresh = vl_next vl; vl1 = vl\<lparr>vl_next := Suc fresh, vl_locked := (vl_locked vl)(fresh := False)\<rparr>
      in (case map_of (vl_mutexes vl) volumeID of
            Some p \<Rightarrow> (p, vl1)
          | None \<Rightarrow> (fresh, vl1\<lparr>vl_mutexes := AList.update volumeID fresh (vl_mutexes vl)\<rparr>)))"

text \<open>
  Where a goroutine is: outside, about to look its identifier up, blocked in \<open>mtx.Lock()\<close> on the mutex it
  got, or past it and holding the closure that unlocks.
\<close>

datatype goroutine =
    Outside
  | Calling string
  | Blocked string nat
  | Holding string nat

record lock_sys =
  ls_table :: lock_table
  ls_pc :: "nat \<Rightarrow> goroutine"

definition lock_init :: lock_sys where
  "lock_init = \<lparr>ls_table = NewVolumeLocks, ls_pc = (\<lambda>_. Outside)\<rparr>"

text \<open>One atomic step of one goroutine: calling \<open>Lock\<close>, its two statements, and the returned closure.\<close>

inductive lock_step :: "lock_sys \<Rightarrow> lock_sys \<Rightarrow> bool" where
  call: "ls_pc s i = Outside \<Longrightarrow> lock_step s (s\<lparr>ls_pc := (ls_pc s)(i := Calling volumeID)\<rparr>)"
| load: "ls_pc s i = Calling volumeID \<Longrightarrow> LoadOrStore (ls_table s) volumeID = (p, vl) \<Longrightarrow>
     lock_step s (s\<lparr>ls_table := vl, ls_pc := (ls_pc s)(i := Blocked volumeID p)\<rparr>)"
| acquire: "ls_pc s i = Blocked volumeID p \<Longrightarrow> \<not> vl_locked (ls_table s) p \<Longrightarrow>
     lock_step s (s\<lparr>ls_table := (ls_table s)\<lparr>vl_locked := (vl_locked (ls_table s))(p := True)\<rparr>,
                    ls_pc := (ls_pc s)(i := Holding volumeID p)\<rparr>)"
| unlock: "ls_pc s i = Holding volumeID p \<Longrightarrow>
     lock_step s (s\<lparr>ls_table := (ls_table s)\<lparr>vl_locked := (vl_locked (ls_table s))(p := False)\<rparr>,
                    ls_pc := (ls_pc s)(i := Outside)\<rparr>)"

inductive lock_reach :: "lock_sys \<Rightarrow> bool" where
  start: "lock_reach lock_init"
| step: "lock_reach s \<Longrightarrow> lock_step s t \<Longrightarrow> lock_reach t"

text \<open>
  The invariant: the map is injective and within the allocated addresses, a goroutine past the lookup
  has the mutex the map gives its identifier, and a mutex is locked exactly while one goroutine holds it.
\<close>

definition at_mutex :: "goroutine \<Rightarrow> string \<Rightarrow> nat \<Rightarrow> bool" where
  "at_mutex g volumeID p \<longleftrightarrow> g = Blocked volumeID p \<or> g = Holding volumeID p"

definition lock_inv :: "lock_sys \<Rightarrow> bool" where
  "lock_inv s \<longleftrightarrow>
     (let m = map_of (vl_mutexes (ls_table s)) in
      (\<forall>k p. m k = Some p \<longrightarrow> p < vl_next (ls_table s)) \<and>
      (\<forall>k l p. m k = Some p \<longrightarrow> m l = Some p \<longrightarrow> k = l) \<and>
      (\<forall>i k p. at_mutex (ls_pc s i) k p \<longrightarrow> m k = Some p) \<and>
      (\<forall>i j k l p. ls_pc s i = Holding k p \<longrightarrow> ls_pc s j = Holding l p \<longrightarrow> i = j) \<and>
      (\<forall>p. vl_locked (ls_table s) p \<longleftrightarrow> (\<exists>i k. ls_pc s i = Holding k p)))"

lemma lock_invI:
  assumes "\<And>k p. map_of (vl_mutexes (ls_table s)) k = Some p \<Longrightarrow> p < vl_next (ls_table s)"
    and "\<And>k l p. map_of (vl_mutexes (ls_table s)) k = Some p \<Longrightarrow>
      map_of (vl_mutexes (ls_table s)) l = Some p \<Longrightarrow> k = l"
    and "\<And>i k p. at_mutex (ls_pc s i) k p \<Longrightarrow> map_of (vl_mutexes (ls_table s)) k = Some p"
    and "\<And>i j k l p. ls_pc s i = Holding k p \<Longrightarrow> ls_pc s j = Holding l p \<Longrightarrow> i = j"
    and "\<And>p. vl_locked (ls_table s) p \<Longrightarrow> \<exists>i k. ls_pc s i = Holding k p"
    and "\<And>p i k. ls_pc s i = Holding k p \<Longrightarrow> vl_locked (ls_table s) p"
  shows "lock_inv s"
  using assms unfolding lock_inv_def Let_def by blast

lemma lock_invD:
  assumes "lock_inv s"
  shows "map_of (vl_mutexes (ls_table s)) k = Some p \<Longrightarrow> p < vl_next (ls_table s)"
    and "map_of (vl_mutexes (ls_table s)) k = Some p \<Longrightarrow>
      map_of (vl_mutexes (ls_table s)) l = Some p \<Longrightarrow> k = l"
    and "at_mutex (ls_pc s i) k p \<Longrightarrow> map_of (vl_mutexes (ls_table s)) k = Some p"
    and "ls_pc s i = Holding k p \<Longrightarrow> ls_pc s j = Holding l p \<Longrightarrow> i = j"
    and "vl_locked (ls_table s) p \<Longrightarrow> \<exists>i k. ls_pc s i = Holding k p"
    and "ls_pc s i = Holding k p \<Longrightarrow> vl_locked (ls_table s) p"
  using assms unfolding lock_inv_def Let_def by blast+

lemma at_mutex_simps [simp]:
  "\<not> at_mutex Outside k p" "\<not> at_mutex (Calling l) k p"
  "at_mutex (Blocked l q) k p \<longleftrightarrow> l = k \<and> q = p" "at_mutex (Holding l q) k p \<longleftrightarrow> l = k \<and> q = p"
  by (auto simp: at_mutex_def)

lemma lock_inv_init: "lock_inv lock_init"
  by (rule lock_invI) (simp_all add: lock_init_def NewVolumeLocks_def)

text \<open>A step that moves no goroutine into or out of \<open>Holding\<close> keeps the last three parts.\<close>

lemma lock_inv_load:
  assumes inv: "lock_inv s" and pc: "ls_pc s i = Calling volumeID"
    and load: "LoadOrStore (ls_table s) volumeID = (p, vl)"
  shows "lock_inv (s\<lparr>ls_table := vl, ls_pc := (ls_pc s)(i := Blocked volumeID p)\<rparr>)"
proof -
  let ?m = "map_of (vl_mutexes (ls_table s))" and ?n = "vl_next (ls_table s)"
  note D = lock_invD [OF inv]
  have fresh: "\<not> (\<exists>i k. ls_pc s i = Holding k ?n)" using D(1,3) by (metis at_mutex_simps(4) less_irrefl)
  have nxt: "vl_next vl = Suc ?n" and locked: "vl_locked vl = (vl_locked (ls_table s))(?n := False)"
    using load by (auto simp: LoadOrStore_def Let_def split: option.splits)
  have map: "map_of (vl_mutexes vl) = ?m(volumeID \<mapsto> p)"
    and p: "?m volumeID = Some p \<or> (?m volumeID = None \<and> p = ?n)"
    using load by (auto simp: LoadOrStore_def Let_def fun_eq_iff split: option.splits)
  let ?m' = "?m(volumeID \<mapsto> p)"
  have old: "?m' k = Some q \<Longrightarrow> ?m k = Some q \<or> (k = volumeID \<and> q = ?n \<and> ?m k = None)" for k q
    using p by (auto split: if_splits)
  have less: "?m k = Some q \<Longrightarrow> q < ?n" for k q by (rule D(1))
  have bound: "?m' k = Some q \<Longrightarrow> q < Suc ?n" for k q
    using old [of k q] less [of k q] by auto
  have inj: "?m' k = Some q \<Longrightarrow> ?m' l = Some q \<Longrightarrow> k = l" for k l q
    using old [of k q] old [of l q] less [of k q] less [of l q] D(2) [of k q l] by auto
  have new: "?m k = Some q \<Longrightarrow> ?m' k = Some q" for k q
    using p by auto
  have at: "?m' k = Some q" if "at_mutex (((ls_pc s)(i := Blocked volumeID p)) j) k q" for j k q
  proof (cases "j = i")
    case True
    then show ?thesis using that by simp
  next
    case False
    then have "?m k = Some q" using that D(3) [of j k q] by simp
    then show ?thesis by (rule new)
  qed
  have hold: "((ls_pc s)(i := Blocked volumeID p)) j = Holding k q \<longleftrightarrow> ls_pc s j = Holding k q" for j k q
    using pc by auto
  have flag: "vl_locked vl q \<Longrightarrow> \<exists>j k. ls_pc s j = Holding k q" for q
    using D(5) [of q] locked by (auto split: if_splits)
  have flag': "ls_pc s j = Holding k q \<Longrightarrow> vl_locked vl q" for j k q
    using D(6) fresh locked by auto
  show ?thesis
  proof (rule lock_invI, goal_cases)
    case (1 k q)
    then show ?case using bound [of k q] by (simp add: map nxt)
  next
    case (2 k l q)
    then show ?case using inj [of k q l] by (simp add: map)
  next
    case (3 j k q)
    then show ?case using at [of j k q] by (simp add: map)
  next
    case (4 j j' k l q)
    then show ?case using hold [of j k q] hold [of j' l q] D(4) [of j k q j' l] by simp
  next
    case (5 q)
    then show ?case using flag [of q] hold by simp
  next
    case (6 q j k)
    then show ?case using hold [of j k q] flag' [of j k q] by simp
  qed
qed

lemma lock_step_inv: "lock_step s t \<Longrightarrow> lock_inv s \<Longrightarrow> lock_inv t"
proof (induction rule: lock_step.induct)
  case (call s i volumeID)
  note D = lock_invD [OF call.prems]
  have "\<exists>j. j \<noteq> i \<and> (\<exists>k. ls_pc s j = Holding k p)" if "vl_locked (ls_table s) p" for p
    using D(5) [OF that] call.hyps by (metis goroutine.distinct(5))
  then show ?case
    by (intro lock_invI) (auto split: if_splits dest: D(1,2,3,4,6))
next
  case (load s i volumeID p vl)
  then show ?case by (intro lock_inv_load)
next
  case (acquire s i volumeID p)
  note D = lock_invD [OF acquire.prems]
  have free: "ls_pc s j \<noteq> Holding k p" for j k using D(6) acquire.hyps by blast
  have "\<exists>j. j \<noteq> i \<and> (\<exists>k. ls_pc s j = Holding k q)" if "vl_locked (ls_table s) q" for q
    using D(5) [OF that] acquire.hyps by (metis goroutine.distinct(11))
  moreover have "map_of (vl_mutexes (ls_table s)) volumeID = Some p"
    using D(3) [of i volumeID p] acquire.hyps by simp
  ultimately show ?case using free acquire.hyps
    by (intro lock_invI) (auto split: if_splits dest: D(1,2,3,4,6), blast)
next
  case (unlock s i volumeID p)
  note D = lock_invD [OF unlock.prems]
  have "\<exists>j. j \<noteq> i \<and> (\<exists>k. ls_pc s j = Holding k q)" if "vl_locked (ls_table s) q" "q \<noteq> p" for q
    using D(5) [OF that(1)] unlock.hyps that(2) by (metis goroutine.inject(3))
  moreover have "ls_pc s j \<noteq> Holding k p" if "j \<noteq> i" for j k
    using D(4) unlock.hyps that by blast
  ultimately show ?case using unlock.hyps
    by (intro lock_invI) (auto split: if_splits dest: D(1,2,3,4,6), blast)
qed

lemma lock_reach_inv: "lock_reach s \<Longrightarrow> lock_inv s"
  by (induction rule: lock_reach.induct) (auto intro: lock_inv_init lock_step_inv)

definition holds_lock :: "lock_sys \<Rightarrow> string \<Rightarrow> nat \<Rightarrow> bool" where
  "holds_lock s volumeID i \<longleftrightarrow> (\<exists>p. ls_pc s i = Holding volumeID p)"

interpretation vl: exclusive_lock lock_reach holds_lock
proof unfold_locales
  fix s k i j
  assume "lock_reach s" and hold: "holds_lock s k i" "holds_lock s k j"
  then have inv: "lock_inv s" by (intro lock_reach_inv)
  obtain p q where pq: "ls_pc s i = Holding k p" "ls_pc s j = Holding k q"
    using hold by (auto simp: holds_lock_def)
  then have "p = q" using inv unfolding lock_inv_def Let_def at_mutex_def by (metis option.inject)
  then show "i = j" using inv pq unfolding lock_inv_def Let_def by metis
qed

inductive_cases lock_step_fromE: "lock_step s t"

text \<open>
  C4. Two goroutines never hold the lock of the same volume identifier at once, whatever the order in
  which any number of goroutines call \<open>Lock\<close>, look their mutex up, acquire it and unlock it.
\<close>

theorem volume_lock_exclusive:
  assumes "lock_reach s"
    and "ls_pc s i = Holding volumeID p" and "ls_pc s j = Holding volumeID q"
  shows "i = j"
  using vl.exclusive [of s volumeID i j] assms by (auto simp: holds_lock_def)

text \<open>A run that ends with a goroutine holding a lock, rule by rule.\<close>

definition locked_by_0 :: lock_sys where
  "locked_by_0 =
     \<lparr>ls_table = \<lparr>vl_mutexes = [(''v'', 0)], vl_locked = (\<lambda>_. False)(0 := True), vl_next = 1\<rparr>,
      ls_pc = (\<lambda>_. Outside)(0 := Holding ''v'' 0)\<rparr>"

lemma locked_by_0_reach: "lock_reach locked_by_0"
proof -
  let ?a = "lock_init\<lparr>ls_pc := (ls_pc lock_init)(0 := Calling ''v'')\<rparr>"
  let ?t = "\<lparr>vl_mutexes = [(''v'', 0)], vl_locked = (\<lambda>_. False)(0 := False), vl_next = 1\<rparr>"
  let ?b = "?a\<lparr>ls_table := ?t, ls_pc := (ls_pc ?a)(0 := Blocked ''v'' 0)\<rparr>"
  let ?c = "?b\<lparr>ls_table := (ls_table ?b)\<lparr>vl_locked := (vl_locked (ls_table ?b))(0 := True)\<rparr>,
    ls_pc := (ls_pc ?b)(0 := Holding ''v'' 0)\<rparr>"
  have "lock_step lock_init ?a" by (rule lock_step.call) (simp add: lock_init_def)
  moreover have "lock_step ?a ?b"
    by (rule lock_step.load) (simp_all add: lock_init_def LoadOrStore_def NewVolumeLocks_def)
  moreover have "lock_step ?b ?c" by (rule lock_step.acquire) simp_all
  ultimately have "lock_reach ?c" by (meson lock_reach.intros)
  moreover have "?c = locked_by_0" by (simp add: locked_by_0_def lock_init_def fun_eq_iff)
  ultimately show ?thesis by simp
qed

theorem volume_lock_exclusive_witness:
  "lock_reach locked_by_0 \<and> ls_pc locked_by_0 0 = Holding ''v'' 0 \<and> (0::nat) = 0"
  using volume_lock_exclusive [OF locked_by_0_reach, of 0 "''v''" 0 0 0] locked_by_0_reach
  by (simp add: locked_by_0_def)

text \<open>
  A goroutine that waits for a volume's lock is held up only by a goroutine holding the lock of that
  same volume: if there is none, its next step can acquire the lock, however many other volumes are
  locked.
\<close>

theorem volume_lock_no_false_contention:
  assumes "lock_reach s"
    and "ls_pc s i = Blocked volumeID p" and "\<And>j. \<not> holds_lock s volumeID j"
  shows "\<exists>t. lock_step s t \<and> holds_lock t volumeID i"
proof -
  note D = lock_invD [OF lock_reach_inv [OF assms(1)]]
  have m: "map_of (vl_mutexes (ls_table s)) volumeID = Some p"
    using D(3) [of i volumeID p] assms(2) by simp
  have "\<not> vl_locked (ls_table s) p"
  proof
    assume "vl_locked (ls_table s) p"
    then obtain j k where j: "ls_pc s j = Holding k p" using D(5) by blast
    then have "map_of (vl_mutexes (ls_table s)) k = Some p" using D(3) [of j k p] by simp
    then have "k = volumeID" using D(2) m by blast
    then show False using j assms(3) by (auto simp: holds_lock_def)
  qed
  then have "lock_step s (s\<lparr>ls_table := (ls_table s)\<lparr>vl_locked := (vl_locked (ls_table s))(p := True)\<rparr>,
      ls_pc := (ls_pc s)(i := Holding volumeID p)\<rparr>)"
    using assms(2) by (rule lock_step.acquire [rotated])
  moreover have "holds_lock (s\<lparr>ls_table := (ls_table s)\<lparr>vl_locked := (vl_locked (ls_table s))(p := True)\<rparr>,
      ls_pc := (ls_pc s)(i := Holding volumeID p)\<rparr>) volumeID i"
    by (simp add: holds_lock_def)
  ultimately show ?thesis by blast
qed

text \<open>A state in which goroutine 0 holds the lock of one volume and goroutine 1 waits for another.\<close>

definition waiting_1 :: lock_sys where
  "waiting_1 =
     \<lparr>ls_table = \<lparr>vl_mutexes = [(''v'', 0), (''w'', 1)], vl_locked = (\<lambda>_. False)(0 := True), vl_next = 2\<rparr>,
      ls_pc = (\<lambda>_. Outside)(0 := Holding ''v'' 0, 1 := Blocked ''w'' 1)\<rparr>"

lemma waiting_1_reach: "lock_reach waiting_1"
proof -
  let ?a = "locked_by_0\<lparr>ls_pc := (ls_pc locked_by_0)(1 := Calling ''w'')\<rparr>"
  let ?t = "\<lparr>vl_mutexes = [(''v'', 0), (''w'', 1)],
    vl_locked = ((\<lambda>_. False)(0 := True))(1 := False), vl_next = 2\<rparr>"
  let ?b = "?a\<lparr>ls_table := ?t, ls_pc := (ls_pc ?a)(1 := Blocked ''w'' 1)\<rparr>"
  have "lock_step locked_by_0 ?a" by (rule lock_step.call) (simp add: locked_by_0_def)
  moreover have "lock_step ?a ?b"
    by (rule lock_step.load) (simp_all add: locked_by_0_def LoadOrStore_def)
  ultimately have "lock_reach ?b" using locked_by_0_reach by (meson lock_reach.step)
  moreover have "?b = waiting_1" by (simp add: locked_by_0_def waiting_1_def fun_eq_iff)
  ultimately show ?thesis by simp
qed

theorem volume_lock_no_false_contention_witness:
  "\<exists>t. lock_step waiting_1 t \<and> holds_lock t ''w'' 1"
proof (rule volume_lock_no_false_contention [OF waiting_1_reach])
  show "ls_pc waiting_1 1 = Blocked ''w'' 1" by (simp add: waiting_1_def)
  show "\<not> holds_lock waiting_1 ''w'' j" for j by (simp add: waiting_1_def holds_lock_def)
qed

section \<open>TryLock\<close>

text \<open>The lock word, 0 or 1; \<open>Lock\<close> is one compare-and-swap, \<open>Unlock\<close> one store.\<close>

definition TryLock_Lock :: "int \<Rightarrow> bool \<times> int" where
  "TryLock_Lock locked = (if locked = 0 then (True, 1) else (False, locked))"

definition TryLock_Unlock :: "int \<Rightarrow> int" where
  "TryLock_Unlock locked = 0"

text \<open>
  Goroutines that try the lock and, if they got it, give it back: the word and the set of those between
  a successful \<open>Lock\<close> and their \<open>Unlock\<close>.
\<close>

record try_sys =
  ts_word :: int
  ts_owners :: "nat list"

inductive try_step :: "try_sys \<Rightarrow> try_sys \<Rightarrow> bool" where
  try_lock: "i \<notin> set (ts_owners s) \<Longrightarrow> TryLock_Lock (ts_word s) = (got, word) \<Longrightarrow>
     try_step s \<lparr>ts_word = word, ts_owners = (if got then i # ts_owners s else ts_owners s)\<rparr>"
| try_unlock: "i \<in> set (ts_owners s) \<Longrightarrow>
     try_step s \<lparr>ts_word = TryLock_Unlock (ts_word s), ts_owners = removeAll i (ts_owners s)\<rparr>"

inductive try_reach :: "try_sys \<Rightarrow> bool" where
  try_start: "try_reach \<lparr>ts_word = 0, ts_owners = []\<rparr>"
| try_more: "try_reach s \<Longrightarrow> try_step s t \<Longrightarrow> try_reach t"

lemma try_reach_inv:
  "try_reach s \<Longrightarrow>
   (ts_word s = 0 \<and> ts_owners s = []) \<or> (ts_word s = 1 \<and> (\<exists>i. ts_owners s = [i]))"
proof (induction rule: try_reach.induct)
  case (try_more s t)
  then show ?case
    by (auto elim!: try_step.cases simp: TryLock_Lock_def TryLock_Unlock_def split: if_splits)
qed simp

interpretation tl: exclusive_lock try_reach "\<lambda>s (k::unit) i. i \<in> set (ts_owners s)"
  by unfold_locales (auto dest: try_reach_inv)

text \<open>The results of \<open>n\<close> calls of \<open>Lock\<close> in a row, in the order in which the atomic swaps happen.\<close>

fun try_many :: "nat \<Rightarrow> int \<Rightarrow> bool list" where
  "try_many 0 locked = []"
| "try_many (Suc n) locked = (case TryLock_Lock locked of (got, word) \<Rightarrow> got # try_many n word)"

text \<open>
  Of any positive number of tasks that try an unlocked lock, exactly one, the first to swap,
  succeeds, and an unlock lets the next one succeed again.
\<close>

theorem trylock_one_winner:
  "try_many (Suc n) (TryLock_Unlock locked) = True # replicate n False"
proof -
  have "try_many n 1 = replicate n False" by (induction n) (simp_all add: TryLock_Lock_def)
  then show ?thesis by (simp add: TryLock_Lock_def TryLock_Unlock_def)
qed

section \<open>Holding a lock around a handler\<close>

text \<open>\<open>unlock := locks.Lock(id); defer unlock()\<close> at the head of a handler.\<close>

definition withLock :: "string \<Rightarrow> ('x, 'a) io \<Rightarrow> ('x, 'a) io" where
  "withLock volumeID m =
     bindP (service [EvLock volumeID] (\<lambda>x. ((), x)))
       (\<lambda>_. deferP (service [EvUnlock volumeID] (\<lambda>x. ((), x))) m)"

lemma withLock_run:
  assumes "m (w\<lparr>w_trace := w_trace w @ [EvLock volumeID]\<rparr>) = (r, w')"
  shows "withLock volumeID m w = (r, w'\<lparr>w_trace := w_trace w' @ [EvUnlock volumeID]\<rparr>)"
  using assms by (simp add: withLock_def bindP_def deferP_def service_def)

lemma withLock_trace:
  assumes "keeps (extends P) m" and "withLock volumeID m w = (r, w')"
  shows "\<exists>es. w_trace w' = w_trace w @ EvLock volumeID # es @ [EvUnlock volumeID] \<and> list_all P es"
proof -
  let ?w = "w\<lparr>w_trace := w_trace w @ [EvLock volumeID]\<rparr>"
  obtain q u where m: "m ?w = (q, u)" by (cases "m ?w")
  then have "extends P ?w u" using assms(1) by (rule keepsD [rotated])
  moreover have "w' = u\<lparr>w_trace := w_trace u @ [EvUnlock volumeID]\<rparr>"
    using assms(2) by (simp add: withLock_run [where m = m and w = w and volumeID = volumeID, OF m])
  ultimately show ?thesis by (auto simp: extends_def)
qed

lemma keeps_withLock_fs: "keeps same_fs m \<Longrightarrow> keeps same_fs (withLock volumeID m)"
  unfolding withLock_def by (intro fsf.keeps_rules keeps_service_fs)

text \<open>The state after the lock event, in which the body of a handler starts, and after its end.\<close>

definition locked :: "string \<Rightarrow> 'x world \<Rightarrow> 'x world" where
  "locked k w = w\<lparr>w_trace := w_trace w @ [EvLock k]\<rparr>"

definition unlocked :: "string \<Rightarrow> 'x world \<Rightarrow> 'x world" where
  "unlocked k w = w\<lparr>w_trace := w_trace w @ [EvUnlock k]\<rparr>"

lemma withLock_locked: "m (locked k w) = (r, w') \<Longrightarrow> withLock k m w = (r, unlocked k w')"
  unfolding locked_def unlocked_def by (rule withLock_run)

lemma withLock_RetE:
  assumes "withLock k m w = (Ret a, u)"
  obtains w' where "m (locked k w) = (Ret a, w')" and "u = unlocked k w'"
proof -
  obtain r w' where run: "m (locked k w) = (r, w')" by (cases "m (locked k w)")
  have "withLock k m w = (r, unlocked k w')" using run by (rule withLock_locked)
  then show thesis using run assms that by simp
qed

text \<open>
  A handler that runs locked: whatever happens in it, also a panic, its trace begins with taking the lock and
  ends with giving it back, and in between there are only events of the given kind.
\<close>

definition runs_locked :: "string \<Rightarrow> (event \<Rightarrow> bool) \<Rightarrow> ('x, 'a) io \<Rightarrow> bool" where
  "runs_locked k P m \<longleftrightarrow> (\<forall>w. \<exists>es. w_trace (snd (m w)) = w_trace w @ EvLock k # es @ [EvUnlock k]
     \<and> list_all P es)"

lemma runs_locked_withLock:
  assumes "keeps (extends P) m"
  shows "runs_locked k P (withLock k m)"
  unfolding runs_locked_def
proof
  fix w
  obtain r w' where run: "withLock k m w = (r, w')" by (cases "withLock k m w")
  show "\<exists>es. w_trace (snd (withLock k m w)) = w_trace w @ EvLock k # es @ [EvUnlock k] \<and> list_all P es"
    using withLock_trace [OF assms run] by (simp add: run)
qed

end
