(* ===== verification/Controller.thy ===== *)
theory Controller
  imports Nvmf CsiCommon VolumeLocks
begin

text \<open>
  The controller service, \<^verbatim>\<open>pkg/spdk/controllerserver.go\<close>: one definition per handler and helper, with the
  calls in the order of the code. The server's lock table is represented by the lock events of
  \<open>withLock\<close>; the Kubernetes API is part of the environment.
\<close>

section \<open>Messages\<close>

text \<open>
  The content source of a request: one of two kinds with a message that may be absent, or none that is
  known. A request's maps are never distinguished from nil when they are empty, as on the wire.
\<close>

datatype VolumeContentSource =
    SourceSnapshot "string option"
  | SourceVolume "string option"
  | SourceUnset

record CreateVolumeRequest =
  cvr_Name :: string
  cvr_RequiredBytes :: int
  cvr_Parameters :: gomap
  cvr_ContentSource :: "VolumeContentSource option"

record Volume =
  vol_CapacityBytes :: int
  vol_VolumeId :: string
  vol_VolumeContext :: gomap
  vol_ContentSource :: "VolumeContentSource option"

record Snapshot =
  sn_SizeBytes :: int
  sn_SnapshotId :: string
  sn_SourceVolumeId :: string
  sn_CreationTime :: int
  sn_ReadyToUse :: bool

record ExpandResponse =
  xr_CapacityBytes :: int
  xr_NodeExpansionRequired :: bool

record GetVolumeResponse =
  gv_VolumeId :: string
  gv_VolumeContext :: gomap
  gv_Abnormal :: bool
  gv_Message :: string

record spdkVolume =
  sv_clusterID :: string
  sv_lvolID :: string
  sv_poolName :: string

record spdkSnapshot =
  ss_clusterID :: string
  ss_snapshotID :: string

section \<open>Identifiers\<close>

definition volume_id :: "spdkVolume \<Rightarrow> string" where
  \<comment> \<open>\<open>fmt.Sprintf("%s:%s:%s", clusterID, poolName, volumeID)\<close>\<close>
  "volume_id v = sv_clusterID v @ '':'' @ sv_poolName v @ '':'' @ sv_lvolID v"

definition snapshot_id :: "spdkSnapshot \<Rightarrow> string" where
  \<comment> \<open>\<open>fmt.Sprintf("%s:%s", clusterID, snapshotID)\<close>\<close>
  "snapshot_id s = ss_clusterID s @ '':'' @ ss_snapshotID s"

definition getSPDKVol :: "string \<Rightarrow> goerr + spdkVolume" where
  "getSPDKVol csiVolumeID =
     (case Split '':'' csiVolumeID of
        [c, p, l] \<Rightarrow> Inr \<lparr>sv_clusterID = c, sv_lvolID = l, sv_poolName = p\<rparr>
      | _ \<Rightarrow> Inl (ErrorString (''missing clusterID or poolName in volume: '' @ csiVolumeID)))"

definition getSnapshot :: "string \<Rightarrow> goerr + spdkSnapshot" where
  "getSnapshot csiSnapshotID =
     (case Split '':'' csiSnapshotID of
        [c, s] \<Rightarrow> Inr \<lparr>ss_clusterID = c, ss_snapshotID = s\<rparr>
      | _ \<Rightarrow> Inl (ErrorString (''missing clusterID in csiSnapshotID: '' @ csiSnapshotID)))"

text \<open>Identifiers whose parts have no colon are read back; that is the contract of the two pairs.\<close>

definition plain_volume :: "spdkVolume \<Rightarrow> bool" where
  "plain_volume v \<longleftrightarrow> CHR '':'' \<notin> set (sv_clusterID v) \<and> CHR '':'' \<notin> set (sv_poolName v) \<and> CHR '':'' \<notin> set (sv_lvolID v)"

definition plain_snapshot :: "spdkSnapshot \<Rightarrow> bool" where
  "plain_snapshot s \<longleftrightarrow> CHR '':'' \<notin> set (ss_clusterID s) \<and> CHR '':'' \<notin> set (ss_snapshotID s)"

interpretation volid: codec volume_id getSPDKVol plain_volume
  by unfold_locales
    (simp add: volume_id_def getSPDKVol_def plain_volume_def Split_single Split_single_absent)

interpretation snapid: codec snapshot_id getSnapshot plain_snapshot
  by unfold_locales
    (simp add: snapshot_id_def getSnapshot_def plain_snapshot_def Split_single Split_single_absent)

lemma getSPDKVol_Inr: "getSPDKVol s = Inr v \<longleftrightarrow> s = volume_id v \<and> plain_volume v"
proof
  assume "getSPDKVol s = Inr v"
  then obtain c p l where parts: "Split '':'' s = [c, p, l]"
    and v: "v = \<lparr>sv_clusterID = c, sv_lvolID = l, sv_poolName = p\<rparr>"
    by (auto simp: getSPDKVol_def split: list.splits)
  have "s = Join '':'' [c, p, l]" using Join_Split [of "'':''" s] parts by simp
  moreover have "CHR '':'' \<notin> set x" if "x \<in> {c, p, l}" for x
    using Split_parts_absent [of x "CHR '':''" s] parts that by auto
  ultimately show "s = volume_id v \<and> plain_volume v" by (simp add: volume_id_def plain_volume_def v)
qed (auto intro: volid.dec_enc)

lemma getSnapshot_Inr: "getSnapshot s = Inr v \<longleftrightarrow> s = snapshot_id v \<and> plain_snapshot v"
proof
  assume "getSnapshot s = Inr v"
  then obtain c p where parts: "Split '':'' s = [c, p]"
    and v: "v = \<lparr>ss_clusterID = c, ss_snapshotID = p\<rparr>"
    by (auto simp: getSnapshot_def split: list.splits)
  have "s = Join '':'' [c, p]" using Join_Split [of "'':''" s] parts by simp
  moreover have "CHR '':'' \<notin> set x" if "x \<in> {c, p}" for x
    using Split_parts_absent [of x "CHR '':''" s] parts that by auto
  ultimately show "s = snapshot_id v \<and> plain_snapshot v" by (simp add: snapshot_id_def plain_snapshot_def v)
qed (auto intro: snapid.dec_enc)

section \<open>Parameters\<close>

definition getIntParameter :: "gomap \<Rightarrow> string \<Rightarrow> int \<Rightarrow> goerr + int" where
  "getIntParameter params key defaultValue =
     (case map_of params key of
        None \<Rightarrow> Inr defaultValue
      | Some valueStr \<Rightarrow>
          (case Atoi valueStr of
             Inl err \<Rightarrow> Inl (Wrapped (''error converting '' @ key @ '': '') err)
           | Inr value \<Rightarrow> Inr value))"

definition getBoolParameter :: "gomap \<Rightarrow> string \<Rightarrow> bool" where
  "getBoolParameter params key =
     (case map_of params key of None \<Rightarrow> False | Some valueStr \<Rightarrow> valueStr = ''true'' \<or> valueStr = ''True'')"

section \<open>Kubernetes\<close>

text \<open>
  The calls that \<open>GetCryptoKeys\<close> and the three annotation functions begin with: the cluster configuration, the
  client, the claim. The result is the map of annotations.
\<close>

definition pvcAnnotations :: "'x env \<Rightarrow> string \<Rightarrow> string \<Rightarrow> ('x, gomap) ioE" where
  "pvcAnnotations E pvcName pvcNamespace =
     bindP (service [] (k8s_config E)) (\<lambda>c. case c of
       Some err \<Rightarrow> throw (Wrapped ''could not get in-cluster config: '' err)
     | None \<Rightarrow> bindP (service [] (k8s_client E)) (\<lambda>c. case c of
         Some err \<Rightarrow> throw (Wrapped ''could not create clientset: '' err)
       | None \<Rightarrow> mapErr (Wrapped (''could not get PVC '' @ pvcName @ '' in namespace '' @ pvcNamespace @ '': ''))
           (service [] (k8s_pvc E pvcNamespace pvcName))))"

definition GetCryptoKeys :: "'x env \<Rightarrow> string \<Rightarrow> string \<Rightarrow> ('x, string \<times> string) ioE" where
  "GetCryptoKeys E pvcName pvcNamespace =
     bindE (pvcAnnotations E pvcName pvcNamespace) (\<lambda>annotations.
       let secretName = get0 annotations ''simplybk/secret-name'';
           secretNamespace = get0 annotations ''simplybk/secret-namespace''
       in bindE
         (mapErr (Wrapped (''could not get secret '' @ secretName @ '' in namespace '' @ secretNamespace @ '': ''))
           (service [] (k8s_secret E secretNamespace secretName)))
         (\<lambda>data. case map_of data ''crypto_key1'' of
            None \<Rightarrow> throw (ErrorString (''crypto_key1 not found in secret '' @ secretName))
          | Some key1 \<Rightarrow> (case map_of data ''crypto_key2'' of
              None \<Rightarrow> throw (ErrorString (''crypto_key2 not found in secret '' @ secretName))
            | Some key2 \<Rightarrow> ret (Inr (TrimSpace key1, TrimSpace key2)))))"

definition getHostIDAnnotation :: "'x env \<Rightarrow> string \<Rightarrow> string \<Rightarrow> ('x, string) ioE" where
  "getHostIDAnnotation E pvcName pvcNamespace =
     bindE (pvcAnnotations E pvcName pvcNamespace) (\<lambda>m. ret (Inr (get0 m ''simplybk/host-id'')))"

definition getLvolIDAnnotation :: "'x env \<Rightarrow> string \<Rightarrow> string \<Rightarrow> ('x, string) ioE" where
  "getLvolIDAnnotation E pvcName pvcNamespace =
     bindE (pvcAnnotations E pvcName pvcNamespace) (\<lambda>m. ret (Inr (get0 m ''simplybk/lvol-id'')))"

definition getNvmfModelIDAnnotation :: "'x env \<Rightarrow> string \<Rightarrow> string \<Rightarrow> ('x, string) ioE" where
  "getNvmfModelIDAnnotation E pvcName pvcNamespace =
     bindE (pvcAnnotations E pvcName pvcNamespace) (\<lambda>m. ret (Inr (get0 m ''simplybk/nvmf-model-id'')))"

section \<open>Creating volumes\<close>

definition CSIStorageNameKey :: string where
  "CSIStorageNameKey = ''csi.storage.k8s.io/pvc/name''"

definition CSIStorageNamespaceKey :: string where
  "CSIStorageNamespaceKey = ''csi.storage.k8s.io/pvc/namespace''"

text \<open>The keys of an encrypted volume; without encryption they are empty.\<close>

definition requestedKeys ::
  "'x env \<Rightarrow> bool \<Rightarrow> string option \<Rightarrow> string option \<Rightarrow> ('x, string \<times> string) ioE" where
  "requestedKeys E encryption pvcName pvcNamespace =
     (if \<not> encryption then ret (Inr ([], []))
      else (case (pvcName, pvcNamespace) of
              (Some name, Some namespace) \<Rightarrow>
                bindE (mapErr (Wrapped ''failed to get crypto keys: '') (GetCryptoKeys E name namespace))
                  (\<lambda>(cryptoKey1, cryptoKey2).
                    if cryptoKey1 = [] \<or> cryptoKey2 = []
                    then throw (ErrorString ''encryption is requested but crypto keys are missing'')
                    else ret (Inr (cryptoKey1, cryptoKey2)))
            | _ \<Rightarrow> throw (ErrorString ''encryption requested but PVC name or namespace is not provided'')))"

definition prepareCreateVolumeReq ::
  "'x env \<Rightarrow> CreateVolumeRequest \<Rightarrow> int \<Rightarrow> ('x, CreateLVolData) ioE" where
  "prepareCreateVolumeReq E req sizeMiB =
     (let params = cvr_Parameters req;
          pvcName = map_of params CSIStorageNameKey;
          pvcNamespace = map_of params CSIStorageNamespaceKey;
          name = get0 params CSIStorageNameKey;
          namespace = get0 params CSIStorageNamespaceKey;
          encryption = getBoolParameter params ''encryption''
      in bindE (ret (getIntParameter params ''distr_ndcs'' 1)) (\<lambda>distrNdcs.
         bindE (ret (getIntParameter params ''distr_npcs'' 1)) (\<lambda>distrNpcs.
         bindE (ret (getIntParameter params ''lvol_priority_class'' 0)) (\<lambda>priorClass.
         bindE (ret (getIntParameter params ''max_namespace_per_subsys'' 1)) (\<lambda>maxNamespace.
         bindE (requestedKeys E encryption pvcName pvcNamespace) (\<lambda>(cryptoKey1, cryptoKey2).
         bindE (getHostIDAnnotation E name namespace) (\<lambda>hostID.
         bindE (getLvolIDAnnotation E name namespace) (\<lambda>lvolID.
         bindE (getNvmfModelIDAnnotation E name namespace) (\<lambda>modelID.
           ret (Inr \<lparr>
             cd_LvolName = cvr_Name req,
             cd_Size = Itoa sizeMiB @ ''M'',
             cd_LvsName = get0 params ''pool_name'',
             cd_Compression = getBoolParameter params ''compression'',
             cd_Encryption = encryption,
             cd_MaxRWIOPS = get0 params ''qos_rw_iops'',
             cd_MaxRWmBytes = get0 params ''qos_rw_mbytes'',
             cd_MaxRmBytes = get0 params ''qos_r_mbytes'',
             cd_MaxWmBytes = get0 params ''qos_w_mbytes'',
             cd_MaxSize = get0 params ''max_size'',
             cd_MaxNamespace = maxNamespace,
             cd_DistNdcs = distrNdcs,
             cd_DistNpcs = distrNpcs,
             cd_PriorClass = priorClass,
             cd_CryptoKey1 = cryptoKey1,
             cd_CryptoKey2 = cryptoKey2,
             cd_HostID = hostID,
             cd_LvolID = lvolID,
             cd_ModelID = modelID,
             cd_PvcName = (if pvcName \<noteq> None \<and> pvcNamespace \<noteq> None
                           then namespace @ ''/'' @ name else name)\<rparr>))))))))))"

text \<open>The volume with the identifier of the cluster's answer.\<close>

definition with_id :: "NodeNVMf \<Rightarrow> string \<Rightarrow> string \<Rightarrow> Volume \<Rightarrow> Volume" where
  "with_id sbclient poolName volumeID vol = vol\<lparr>vol_VolumeId := volume_id
     \<lparr>sv_clusterID = rc_ClusterID (nd_Client sbclient), sv_lvolID = volumeID, sv_poolName = poolName\<rparr>\<rparr>"

definition getExistingVolume ::
  "'x env \<Rightarrow> string \<Rightarrow> string \<Rightarrow> NodeNVMf \<Rightarrow> Volume \<Rightarrow> ('x, Volume) ioE" where
  "getExistingVolume E name poolName sbclient vol =
     bindE (node_GetVolume E sbclient name poolName)
       (\<lambda>volumeID. ret (Inr (with_id sbclient poolName volumeID vol)))"

definition handleSnapshotSource ::
  "'x env \<Rightarrow> string option \<Rightarrow> CreateVolumeRequest \<Rightarrow> string \<Rightarrow> Volume \<Rightarrow> int \<Rightarrow> ('x, Volume option) ioE" where
  "handleSnapshotSource E srcSnapshot req poolName vol sizeMiB =
     (case srcSnapshot of
        None \<Rightarrow> ret (Inr None)
      | Some csiSnapshotID \<Rightarrow>
          bindE (ret (getSnapshot csiSnapshotID)) (\<lambda>sbSnapshot.
          bindE (mapErr toInternal (NewsimplyBlockClient E (ss_clusterID sbSnapshot))) (\<lambda>sbclient.
            let snapshotName = cvr_Name req;
                pvcName = get0 (cvr_Parameters req) CSIStorageNameKey;
                newSize = Itoa sizeMiB @ ''M''
            in bindE (node_CloneSnapshot E sbclient (ss_snapshotID sbSnapshot) snapshotName newSize pvcName)
                 (\<lambda>volumeID. ret (Inr (Some (with_id sbclient poolName volumeID vol)))))))"

definition handleVolumeSource ::
  "'x env \<Rightarrow> string option \<Rightarrow> CreateVolumeRequest \<Rightarrow> string \<Rightarrow> Volume \<Rightarrow> int \<Rightarrow> ('x, Volume option) ioE" where
  "handleVolumeSource E srcVolume req poolName vol sizeMiB =
     (case srcVolume of
        None \<Rightarrow> ret (Inr None)
      | Some srcVolumeID \<Rightarrow>
          let snapshotName = cvr_Name req;
              pvcName = get0 (cvr_Parameters req) CSIStorageNameKey
          in bindE (ret (getSPDKVol srcVolumeID)) (\<lambda>spdkVol.
             bindE (mapErr toInternal (NewsimplyBlockClient E (sv_clusterID spdkVol))) (\<lambda>sbclient.
             bindE (mapErr toInternal (node_CreateSnapshot E sbclient (sv_lvolID spdkVol) snapshotName))
               (\<lambda>snapshotID.
                 let newSize = Itoa sizeMiB @ ''M''
                 in bindE (ret (getSnapshot snapshotID)) (\<lambda>snapshot.
                    bindE (node_CloneSnapshot E sbclient (ss_snapshotID snapshot) snapshotName newSize pvcName)
                      (\<lambda>volumeID. ret (Inr (Some (with_id sbclient poolName volumeID vol)))))))))"

text \<open>
  A source whose type is not set has no field that is, so the \<open>%v\<close> of the message prints it as the empty text.
\<close>

definition handleVolumeContentSource ::
  "'x env \<Rightarrow> VolumeContentSource \<Rightarrow> CreateVolumeRequest \<Rightarrow> string \<Rightarrow> Volume \<Rightarrow> int \<Rightarrow> ('x, Volume option) ioE" where
  "handleVolumeContentSource E volumeSource req poolName vol sizeMiB =
     (case volumeSource of
        SourceSnapshot srcSnapshot \<Rightarrow> handleSnapshotSource E srcSnapshot req poolName vol sizeMiB
      | SourceVolume srcVolume \<Rightarrow> handleVolumeSource E srcVolume req poolName vol sizeMiB
      | SourceUnset \<Rightarrow> throw (Status InvalidArgument '' not a proper volume source''))"

definition requestedSize :: "CreateVolumeRequest \<Rightarrow> int" where
  "requestedSize req = (if cvr_RequiredBytes req = 0 then 1024 * 1024 * 1024 else cvr_RequiredBytes req)"

definition newVolume :: "CreateVolumeRequest \<Rightarrow> Volume" where
  "newVolume req = \<lparr>vol_CapacityBytes = wrap64 (ToMiB (requestedSize req) * 1024 * 1024), vol_VolumeId = [],
     vol_VolumeContext = cvr_Parameters req, vol_ContentSource = cvr_ContentSource req\<rparr>"

definition cs_createVolume :: "'x env \<Rightarrow> CreateVolumeRequest \<Rightarrow> NodeNVMf \<Rightarrow> ('x, Volume) ioE" where
  "cs_createVolume E req sbclient =
     (let sizeMiB = ToMiB (requestedSize req);
          vol = newVolume req;
          poolName = get0 (cvr_Parameters req) ''pool_name''
      in bindP (getExistingVolume E (cvr_Name req) poolName sbclient vol) (\<lambda>existing. case existing of
           Inr existingVolume \<Rightarrow> ret (Inr existingVolume)
         | Inl _ \<Rightarrow>
             bindE (case cvr_ContentSource req of
                      None \<Rightarrow> ret (Inr None)
                    | Some source \<Rightarrow> handleVolumeContentSource E source req poolName vol sizeMiB)
               (\<lambda>cloned. case cloned of
                  Some clonedVolume \<Rightarrow> ret (Inr clonedVolume)
                | None \<Rightarrow>
                    bindE (prepareCreateVolumeReq E req sizeMiB) (\<lambda>createVolReq.
                    bindE (node_CreateVolume E sbclient createVolReq) (\<lambda>volumeID.
                      ret (Inr (with_id sbclient poolName volumeID vol)))))))"

section \<open>Deleting, publishing\<close>

definition cs_deleteVolume :: "'x env \<Rightarrow> string \<Rightarrow> ('x, unit) ioE" where
  "cs_deleteVolume E volumeID =
     bindE (ret (getSPDKVol volumeID)) (\<lambda>spdkVol.
     bindE (NewsimplyBlockClient E (sv_clusterID spdkVol)) (\<lambda>sbclient.
       node_DeleteVolume E sbclient (sv_lvolID spdkVol)))"

definition cs_unpublishVolume :: "'x env \<Rightarrow> string \<Rightarrow> ('x, unit) ioE" where
  "cs_unpublishVolume E volumeID =
     bindE (ret (getSPDKVol volumeID)) (\<lambda>spdkVol.
     bindE (NewsimplyBlockClient E (sv_clusterID spdkVol)) (\<lambda>sbclient.
       node_UnpublishVolume E sbclient (sv_lvolID spdkVol)))"

definition cs_publishVolume :: "'x env \<Rightarrow> string \<Rightarrow> NodeNVMf \<Rightarrow> ('x, gomap) ioE" where
  "cs_publishVolume E volumeID sbclient =
     bindE (ret (getSPDKVol volumeID)) (\<lambda>spdkVol.
     bindE (node_PublishVolume E sbclient (sv_lvolID spdkVol)) (\<lambda>_.
     bindP (node_VolumeInfo E sbclient (sv_lvolID spdkVol)) (\<lambda>info. case info of
         Inl err \<Rightarrow> bindP (cs_unpublishVolume E volumeID) (\<lambda>_. throw err)
       | Inr volumeInfo \<Rightarrow> ret (Inr volumeInfo))))"

section \<open>The handlers\<close>

text \<open>
  The context of the created volume: the parameters of the request (the same map, so the lookup of \<open>type\<close> sees
  the merged one), overwritten by the connection data, overwritten by the requested target type.
\<close>

definition volumeContext :: "gomap \<Rightarrow> gomap \<Rightarrow> gomap" where
  "volumeContext params volumeInfo =
     (let merged = (if params = [] then volumeInfo else merge_into volumeInfo params);
          params' = (if params = [] then [] else merged)
      in (case map_of params' ''type'' of
            None \<Rightarrow> merged
          | Some volType \<Rightarrow> AList.update ''targetType'' volType merged))"

definition cs_CreateVolume :: "'x env \<Rightarrow> CreateVolumeRequest \<Rightarrow> ('x, Volume) ioE" where
  "cs_CreateVolume E req =
     withLock (cvr_Name req)
       (case map_of (cvr_Parameters req) ''cluster_id'' of
          None \<Rightarrow> throw (Status Internal ''failed to get cluster_id from parameters'')
        | Some clusterID \<Rightarrow>
            bindE (NewsimplyBlockClient E clusterID) (\<lambda>sbClient.
            bindE (mapErr toInternal (cs_createVolume E req sbClient)) (\<lambda>csiVolume.
            bindP (cs_publishVolume E (vol_VolumeId csiVolume) sbClient) (\<lambda>published. case published of
                Inl err \<Rightarrow> bindP (cs_deleteVolume E (vol_VolumeId csiVolume)) (\<lambda>_. throw (toInternal err))
              | Inr volumeInfo \<Rightarrow>
                  ret (Inr (csiVolume\<lparr>vol_VolumeContext :=
                    volumeContext (vol_VolumeContext csiVolume) volumeInfo\<rparr>))))))"

definition cs_DeleteVolume :: "'x env \<Rightarrow> string \<Rightarrow> ('x, unit) ioE" where
  "cs_DeleteVolume E volumeID =
     withLock volumeID
       (bindP (cs_unpublishVolume E volumeID) (\<lambda>unpublished.
          let delete = bindP (cs_deleteVolume E volumeID) (\<lambda>deleted. case deleted of
                Inl err \<Rightarrow> if err_is err ErrJSONNoSuchDevice then ret (Inr ()) else throw (toInternal err)
              | Inr _ \<Rightarrow> ret (Inr ()))
          in (case unpublished of
                Inl err \<Rightarrow>
                  if err_is err ErrVolumeUnpublished then delete
                  else if err_is err ErrVolumeDeleted then delete
                  else throw (toInternal err)
              | Inr _ \<Rightarrow> delete)))"

text \<open>A capability is represented by its access mode (\<open>UNKNOWN\<close> where the message has none).\<close>

fun ValidateVolumeCapabilities :: "CSIDriver \<Rightarrow> access_mode list \<Rightarrow> access_mode list option" where
  "ValidateVolumeCapabilities d caps =
     (if list_all (\<lambda>cap. list_ex (\<lambda>accessMode. cap = accessMode) (GetVolumeCapabilityAccessModes d)) caps
      then Some caps else None)"

definition cs_CreateSnapshot :: "'x env \<Rightarrow> string \<Rightarrow> string \<Rightarrow> ('x, Snapshot) ioE" where
  "cs_CreateSnapshot E volumeID snapshotName =
     withLock volumeID
       (bindE (ret (getSPDKVol volumeID)) (\<lambda>spdkVol.
        bindE (mapErr toInternal (NewsimplyBlockClient E (sv_clusterID spdkVol))) (\<lambda>sbclient.
        bindE (mapErr toInternal (node_CreateSnapshot E sbclient (sv_lvolID spdkVol) snapshotName)) (\<lambda>snapshotID.
        bindE (mapErr toInternal (node_GetVolumeSize E sbclient (sv_lvolID spdkVol))) (\<lambda>volSize.
        bindE (mapErr toInternal (ret (ParseInt volSize))) (\<lambda>sizeBytes.
        bindP (service [] (clock_now E)) (\<lambda>creationTime.
          ret (Inr \<lparr>sn_SizeBytes = sizeBytes, sn_SnapshotId = snapshotID,
            sn_SourceVolumeId = sv_lvolID spdkVol, sn_CreationTime = creationTime,
            sn_ReadyToUse = True\<rparr>))))))))"

definition cs_DeleteSnapshot :: "'x env \<Rightarrow> string \<Rightarrow> ('x, unit) ioE" where
  "cs_DeleteSnapshot E snapshotID =
     bindE (ret (getSnapshot snapshotID)) (\<lambda>snapshot.
     bindE (mapErr toInternal (NewsimplyBlockClient E (ss_clusterID snapshot))) (\<lambda>sbclient.
       withLock snapshotID (mapErr toInternal (node_DeleteSnapshot E sbclient snapshotID))))"

definition cs_ControllerExpandVolume :: "'x env \<Rightarrow> string \<Rightarrow> int \<Rightarrow> ('x, ExpandResponse) ioE" where
  "cs_ControllerExpandVolume E volumeID updatedSize =
     bindE (ret (getSPDKVol volumeID)) (\<lambda>spdkVol.
     bindE (NewsimplyBlockClient E (sv_clusterID spdkVol)) (\<lambda>sbclient.
     bindE (node_ResizeVolume E sbclient (sv_lvolID spdkVol) updatedSize) (\<lambda>_.
       ret (Inr \<lparr>xr_CapacityBytes = updatedSize, xr_NodeExpansionRequired = True\<rparr>))))"

definition ListClusters :: "'x env \<Rightarrow> ('x, string list) ioE" where
  "ListClusters E =
     bindE (ParseJSONFile E dec_ClustersInfo [] (FromEnv E ''SPDKCSI_SECRET'' ''/etc/spdkcsi-secret/secret.json''))
       (\<lambda>clusters. ret (Inr (map cc_ClusterID clusters)))"

fun collectSnapshots :: "'x env \<Rightarrow> string list \<Rightarrow> ('x, SnapshotResp option list) ioE" where
  "collectSnapshots E [] = ret (Inr [])"
| "collectSnapshots E (clusterID # clusters) =
     bindE (mapErr toInternal (NewsimplyBlockClient E clusterID)) (\<lambda>sbclient.
     bindE (node_ListSnapshots E sbclient) (\<lambda>snapshotEntries.
     bindE (collectSnapshots E clusters) (\<lambda>entries. ret (Inr (snapshotEntries @ entries)))))"

text \<open>A null entry of the cluster's list is a nil pointer, which the loop dereferences.\<close>

fun snapshotResponses :: "SnapshotResp option list \<Rightarrow> ('x, Snapshot list) ioE" where
  "snapshotResponses [] = ret (Inr [])"
| "snapshotResponses (None # entries) = panic ''invalid memory address or nil pointer dereference''"
| "snapshotResponses (Some entry # entries) =
     bindE (ret (ParseInt (sr_CreatedAt entry))) (\<lambda>dt.
     bindE (snapshotResponses entries) (\<lambda>vca. ret (Inr (
       \<lparr>sn_SizeBytes = sr_Size entry, sn_SnapshotId = sr_UUID entry,
        sn_SourceVolumeId = sr_PoolName entry @ '':'' @ sr_SourceVolume entry,
        sn_CreationTime = dt, sn_ReadyToUse = True\<rparr> # vca))))"

definition cs_ListSnapshots :: "'x env \<Rightarrow> ('x, Snapshot list) ioE" where
  "cs_ListSnapshots E =
     bindE (ListClusters E) (\<lambda>clusters.
     bindE (collectSnapshots E clusters) (\<lambda>entries. snapshotResponses entries))"

definition cs_ControllerGetVolume :: "'x env \<Rightarrow> string \<Rightarrow> ('x, GetVolumeResponse) ioE" where
  "cs_ControllerGetVolume E volumeID =
     withLock volumeID
       (bindE (ret (getSPDKVol volumeID)) (\<lambda>spdkVol.
        bindE (mapErr toInternal (NewsimplyBlockClient E (sv_clusterID spdkVol))) (\<lambda>sbclient.
        bindP (node_VolumeInfo E sbclient (sv_lvolID spdkVol)) (\<lambda>info. case info of
            Inl err \<Rightarrow> ret (Inr \<lparr>gv_VolumeId = volumeID, gv_VolumeContext = [], gv_Abnormal = True,
              gv_Message = err_msg err\<rparr>)
          | Inr volumeInfo \<Rightarrow> ret (Inr \<lparr>gv_VolumeId = sv_lvolID spdkVol, gv_VolumeContext = volumeInfo,
              gv_Abnormal = False, gv_Message = []\<rparr>)))))"

end
