(* ===== verification/Initiator.thy ===== *)
theory Initiator
  imports Nvmf
begin

text \<open>
  The initiators of \<^verbatim>\<open>pkg/util/initiator.go\<close>: how a node connects a volume's NVMe target and disconnects it
  with the commands of nvme-cli, the waiting for device files, and the monitor that reconnects lost paths.
  The commands, the device files and the cluster are functions of the environment. Loops with a bound are
  recursive on what is left of it; the monitor's endless loop is given by its number of rounds.
\<close>

section \<open>Data\<close>

record initiatorNVMf =
  nv_targetType :: string
  nv_connections :: "connectionInfo list"
  nv_nqn :: string
  nv_reconnectDelay :: string
  nv_nrIoQueues :: string
  nv_ctrlLossTmo :: string
  nv_model :: string
  nv_nsId :: string

record initiatorCache =
  ca_lvol :: string
  ca_model :: string
  ca_client :: RPCClient

record cachingNodeList =
  cn_Hostname :: string
  cn_UUID :: string

record nvme_path =
  pa_Name :: string
  pa_Transport :: string
  pa_Address :: string
  pa_State :: string
  pa_ANAState :: string

record subsystem =
  su_Name :: string
  su_NQN :: string
  su_Paths :: "nvme_path list"

record NodeInfo =
  ni_NodeID :: string
  ni_Nodes :: "string list"
  ni_Status :: string

record nvmeDeviceInfo =
  di_devicePath :: string
  di_serialNumber :: string

definition dec_cachingNodeList :: "cachingNodeList decoder" where
  "dec_cachingNodeList = dec_struct
    [(''hostname'', field dec_string cn_Hostname (\<lambda>x. cn_Hostname_update (\<lambda>_. x))),
     (''id'', field dec_string cn_UUID (\<lambda>x. cn_UUID_update (\<lambda>_. x)))]"

definition dec_path :: "nvme_path decoder" where
  "dec_path = dec_struct
    [(''Name'', field dec_string pa_Name (\<lambda>x. pa_Name_update (\<lambda>_. x))),
     (''Transport'', field dec_string pa_Transport (\<lambda>x. pa_Transport_update (\<lambda>_. x))),
     (''Address'', field dec_string pa_Address (\<lambda>x. pa_Address_update (\<lambda>_. x))),
     (''State'', field dec_string pa_State (\<lambda>x. pa_State_update (\<lambda>_. x))),
     (''ANAState'', field dec_string pa_ANAState (\<lambda>x. pa_ANAState_update (\<lambda>_. x)))]"

definition dec_subsystem :: "subsystem decoder" where
  "dec_subsystem = dec_struct
    [(''Name'', field dec_string su_Name (\<lambda>x. su_Name_update (\<lambda>_. x))),
     (''NQN'', field dec_string su_NQN (\<lambda>x. su_NQN_update (\<lambda>_. x))),
     (''Paths'', field (dec_slice dec_path \<lparr>pa_Name = [], pa_Transport = [], pa_Address = [], pa_State = [],
        pa_ANAState = []\<rparr>) su_Paths (\<lambda>x. su_Paths_update (\<lambda>_. x)))]"

text \<open>A \<open>subsystemResponse\<close> has one field, its list of subsystems, and is represented by it.\<close>

definition dec_subsystemResponse :: "subsystem list decoder" where
  "dec_subsystemResponse = dec_struct
    [(''Subsystems'', dec_slice dec_subsystem \<lparr>su_Name = [], su_NQN = [], su_Paths = []\<rparr>)]"

definition dec_NodeInfo :: "NodeInfo decoder" where
  "dec_NodeInfo = dec_struct
    [(''node_id'', field dec_string ni_NodeID (\<lambda>x. ni_NodeID_update (\<lambda>_. x))),
     (''nodes'', field (dec_slice dec_string []) ni_Nodes (\<lambda>x. ni_Nodes_update (\<lambda>_. x))),
     (''status'', field dec_string ni_Status (\<lambda>x. ni_Status_update (\<lambda>_. x)))]"

definition zero_NodeInfo :: NodeInfo where
  "zero_NodeInfo = \<lparr>ni_NodeID = [], ni_Nodes = [], ni_Status = []\<rparr>"

definition dec_device :: "nvmeDeviceInfo decoder" where
  "dec_device = dec_struct
    [(''DevicePath'', field dec_string di_devicePath (\<lambda>x. di_devicePath_update (\<lambda>_. x))),
     (''SerialNumber'', field dec_string di_serialNumber (\<lambda>x. di_serialNumber_update (\<lambda>_. x)))]"

section \<open>Choosing the initiator\<close>

datatype initiator = InitiatorNVMf initiatorNVMf | InitiatorCache initiatorCache

text \<open>The cache initiator is made without a client, so its client is the zero value, with a nil HTTP client.\<close>

definition NewSpdkCsiInitiator :: "gomap \<Rightarrow> goerr + initiator" where
  "NewSpdkCsiInitiator volumeContext =
     (let targetType = ToLower (get0 volumeContext ''targetType'') in
      if targetType = ''tcp'' then
        (case json_unmarshal (dec_slice dec_connectionInfo \<lparr>ci_IP = [], ci_Port = 0\<rparr>) []
                (get0 volumeContext ''connections'') of
           Inl err \<Rightarrow> Inl (ErrorString (''failed to unmarshall connections. Error: '' @ err_msg err))
         | Inr connections \<Rightarrow> Inr (InitiatorNVMf
             \<lparr>nv_targetType = get0 volumeContext ''targetType'',
              nv_connections = connections,
              nv_nqn = get0 volumeContext ''nqn'',
              nv_reconnectDelay = get0 volumeContext ''reconnectDelay'',
              nv_nrIoQueues = get0 volumeContext ''nrIoQueues'',
              nv_ctrlLossTmo = get0 volumeContext ''ctrlLossTmo'',
              nv_model = get0 volumeContext ''model'',
              nv_nsId = get0 volumeContext ''nsId''\<rparr>))
      else if targetType = ''cache'' then
        Inr (InitiatorCache \<lparr>ca_lvol = get0 volumeContext ''uuid'', ca_model = get0 volumeContext ''model'',
          ca_client = \<lparr>rc_ClusterID = [], rc_ClusterIP = [], rc_ClusterSecret = [], rc_HTTPClient = False\<rparr>\<rparr>)
      else Inl (ErrorString (''unknown initiator: '' @ targetType)))"

section \<open>Commands and devices\<close>

text \<open>\<open>execWithTimeout\<close>: a command that the deadline stopped is an error of its own.\<close>

definition execWithTimeout :: "'x env \<Rightarrow> string list \<Rightarrow> nat \<Rightarrow> ('x, unit) ioE" where
  "execWithTimeout E cmdLine timeout =
     bindP (exec_run E cmdLine (Some timeout)) (\<lambda>r. ret (case r of
         CmdTimeout \<Rightarrow> Inl (ErrorString ''timed out'')
       | CmdDone None out \<Rightarrow> Inr ()
       | CmdDone (Some err) out \<Rightarrow> Inl err))"

fun retryLoop :: "'x env \<Rightarrow> string list \<Rightarrow> nat \<Rightarrow> nat \<Rightarrow> goerr option \<Rightarrow> ('x, unit) ioE" where
  "retryLoop E cmdLine timeout 0 err = ret (case err of None \<Rightarrow> Inr () | Some e \<Rightarrow> Inl e)"
| "retryLoop E cmdLine timeout (Suc retry) err =
     bindP (execWithTimeout E cmdLine timeout) (\<lambda>r. case r of
         Inr _ \<Rightarrow> ret (Inr ())
       | Inl e \<Rightarrow> retryLoop E cmdLine timeout retry (Some e))"

definition execWithTimeoutRetry :: "'x env \<Rightarrow> string list \<Rightarrow> nat \<Rightarrow> nat \<Rightarrow> ('x, unit) ioE" where
  "execWithTimeoutRetry E cmdLine timeout retry = retryLoop E cmdLine timeout retry None"

text \<open>\<open>exec.Command(...).Output()\<close>, without a time limit.\<close>

definition cmd_output :: "'x env \<Rightarrow> string list \<Rightarrow> ('x, string) ioE" where
  "cmd_output E cmdLine =
     bindP (exec_run E cmdLine None) (\<lambda>r. ret (case r of
         CmdTimeout \<Rightarrow> Inl (ErrorString ''signal: killed'')
       | CmdDone None out \<Rightarrow> Inr out
       | CmdDone (Some err) out \<Rightarrow> Inl err))"

fun readyLoop :: "'x env \<Rightarrow> string \<Rightarrow> nat \<Rightarrow> ('x, string) ioE" where
  "readyLoop E deviceGlob 0 = throw (ErrorString (''timed out waiting device ready: '' @ deviceGlob))"
| "readyLoop E deviceGlob (Suc n) =
     bindE (Glob E deviceGlob) (\<lambda>matches. case matches of
         m # _ \<Rightarrow> ret (Inr m)
       | [] \<Rightarrow> bindP (Sleep E 1) (\<lambda>_. readyLoop E deviceGlob n))"

definition waitForDeviceReady :: "'x env \<Rightarrow> string \<Rightarrow> nat \<Rightarrow> ('x, string) ioE" where
  "waitForDeviceReady E deviceGlob seconds = readyLoop E deviceGlob (seconds + 1)"

fun goneLoop :: "'x env \<Rightarrow> string \<Rightarrow> nat \<Rightarrow> ('x, unit) ioE" where
  "goneLoop E deviceGlob 0 = throw (ErrorString (''timed out waiting device gone: '' @ deviceGlob))"
| "goneLoop E deviceGlob (Suc n) =
     bindE (Glob E deviceGlob) (\<lambda>matches.
       if matches = [] then ret (Inr ()) else bindP (Sleep E 1) (\<lambda>_. goneLoop E deviceGlob n))"

definition waitForDeviceGone :: "'x env \<Rightarrow> string \<Rightarrow> ('x, unit) ioE" where
  "waitForDeviceGone E deviceGlob = goneLoop E deviceGlob 21"

text \<open>\<open>fmt.Sprintf(DevDiskByID, s)\<close>.\<close>

definition DevDiskByID :: "string \<Rightarrow> string" where
  "DevDiskByID s = ''/dev/disk/by-id/*'' @ s @ ''*''"

section \<open>Subsystems\<close>

definition getNVMeDeviceInfos :: "'x env \<Rightarrow> ('x, nvmeDeviceInfo list) ioE" where
  "getNVMeDeviceInfos E =
     bindE (mapErr (\<lambda>err. ErrorString (''failed to execute nvme list: '' @ err_msg err))
         (cmd_output E [''nvme'', ''list'', ''-o'', ''json''])) (\<lambda>output.
       mapErr (\<lambda>err. ErrorString (''failed to unmarshal nvme list output: '' @ err_msg err))
         (ret (json_unmarshal (dec_struct [(''Devices'',
            dec_slice dec_device \<lparr>di_devicePath = [], di_serialNumber = []\<rparr>)]) [] output)))"

definition isNqnConnected :: "'x env \<Rightarrow> string \<Rightarrow> ('x, bool) ioE" where
  "isNqnConnected E nqn =
     bindE (mapErr (\<lambda>err. ErrorString (''failed to execute nvme list-subsys: '' @ err_msg err))
         (cmd_output E [''nvme'', ''list-subsys'']))
       (\<lambda>output. ret (Inr (list_ex (\<lambda>line. Contains line nqn \<and> Fields line \<noteq> [])
          (Split [CHR 0x0A] output))))"

definition getSubsystemsForDevice :: "'x env \<Rightarrow> string \<Rightarrow> ('x, subsystem list list) ioE" where
  "getSubsystemsForDevice E devicePath =
     bindE (mapErr (\<lambda>err. ErrorString (''failed to execute nvme list-subsys: '' @ err_msg err))
         (cmd_output E [''nvme'', ''list-subsys'', ''-o'', ''json'', devicePath])) (\<lambda>output.
       mapErr (\<lambda>err. ErrorString (''failed to unmarshal nvme list-subsys output: '' @ err_msg err))
         (ret (json_unmarshal (dec_slice dec_subsystemResponse []) [] output)))"

text \<open>
  The comparison handed to \<open>sort.Slice\<close>, and what the sort makes of it. Up to 12 elements are sorted by
  insertion: each element moves to the left past every element it compares less with (the sorted part is kept
  in reverse here). The order of more elements is an argument, see \<open>slice_sort\<close>.
\<close>

definition optimized :: "nvme_path \<Rightarrow> bool" where
  "optimized p \<longleftrightarrow> pa_ANAState p = ''optimized''"

definition path_less :: "nvme_path \<Rightarrow> nvme_path \<Rightarrow> bool" where
  "path_less p q \<longleftrightarrow> (if optimized p \<and> \<not> optimized q then False else True)"

fun insert_path :: "nvme_path \<Rightarrow> nvme_path list \<Rightarrow> nvme_path list" where
  "insert_path x [] = [x]"
| "insert_path x (y # ys) = (if path_less x y then y # insert_path x ys else x # y # ys)"

definition sort_paths :: "'x env \<Rightarrow> nvme_path list \<Rightarrow> nvme_path list" where
  "sort_paths E paths =
     (if length paths \<le> 12 then rev (fold insert_path paths [])
      else map (\<lambda>i. paths ! i) (slice_sort E (map optimized paths)))"

definition disconnectDevicePath :: "'x env \<Rightarrow> string \<Rightarrow> ('x, unit) ioE" where
  "disconnectDevicePath E devicePath =
     bindE (mapErr (\<lambda>err. ErrorString (''Failed to resolve device path from '' @ devicePath @ '': '' @ err_msg err))
         (EvalSymlinks E devicePath)) (\<lambda>realPath.
     bindE (mapErr (\<lambda>err. ErrorString (''Failed to get subsystems for '' @ realPath @ '': '' @ err_msg err))
         (getSubsystemsForDevice E realPath)) (\<lambda>subsystems.
       let paths = map (\<lambda>p. \<lparr>pa_Name = pa_Name p, pa_Transport = [], pa_Address = [], pa_State = [],
                              pa_ANAState = pa_ANAState p\<rparr>)
                     (concat (map (\<lambda>host. concat (map su_Paths host)) subsystems))
       in bindP (forP (\<lambda>p. bindP (execWithTimeoutRetry E [''nvme'', ''disconnect'', ''-d'', pa_Name p] 40 1)
                             (\<lambda>_. ret ()))
                   (sort_paths E paths))
            (\<lambda>_. ret (Inr ()))))"

section \<open>Asking the cluster\<close>

definition fetchNodeInfo :: "'x env \<Rightarrow> NodeNVMf \<Rightarrow> string \<Rightarrow> ('x, NodeInfo) ioE" where
  "fetchNodeInfo E spdkNode lvolID =
     bindE (mapErr (\<lambda>err. ErrorString (''failed to fetch node info: '' @ err_msg err))
         (CallSBCLI E (nd_Client spdkNode) ''GET'' (''/lvol/'' @ lvolID) None)) (\<lambda>resp.
     bindE (mapErr (\<lambda>err. ErrorString (''failed to unmarshal node info: '' @ err_msg err))
         (ret (redecode (dec_slice dec_NodeInfo zero_NodeInfo) [] resp))) (\<lambda>nodes.
       case nodes of
         [] \<Rightarrow> throw (ErrorString (''empty node info response for lvolID '' @ lvolID))
       | n # _ \<Rightarrow> ret (Inr n)))"

text \<open>\<open>status[0]\<close> of an empty list panics.\<close>

definition isNodeOnline :: "'x env \<Rightarrow> NodeNVMf \<Rightarrow> string \<Rightarrow> ('x, bool) io" where
  "isNodeOnline E spdkNode nodeID =
     bindP (CallSBCLI E (nd_Client spdkNode) ''GET'' (''/storagenode/'' @ nodeID) None) (\<lambda>r. case r of
         Inl err \<Rightarrow> ret False
       | Inr resp \<Rightarrow> (case redecode (dec_slice dec_NodeInfo zero_NodeInfo) [] resp of
             Inl err \<Rightarrow> ret False
           | Inr [] \<Rightarrow> panic ''index out of range [0] with length 0''
           | Inr (n # _) \<Rightarrow> ret (ni_Status n = ''online'')))"

definition fetchLvolConnection :: "'x env \<Rightarrow> NodeNVMf \<Rightarrow> string \<Rightarrow> ('x, LvolConnectResp option list) ioE" where
  "fetchLvolConnection E spdkNode lvolID =
     bindE (mapErr (\<lambda>err. ErrorString (''failed to fetch connection: '' @ err_msg err))
         (CallSBCLI E (nd_Client spdkNode) ''GET'' (''/lvol/connect/'' @ lvolID) None)) (\<lambda>resp.
       case redecode (dec_slice (dec_ptr dec_LvolConnectResp zero_LvolConnectResp) None) [] resp of
         Inl err \<Rightarrow> throw (ErrorString ''invalid or empty connection response'')
       | Inr connections \<Rightarrow>
           if connections = [] then throw (ErrorString ''invalid or empty connection response'')
           else ret (Inr connections))"

section \<open>The NVMe initiator\<close>

definition connectCmd :: "initiatorNVMf \<Rightarrow> LvolConnectResp \<Rightarrow> connectionInfo \<Rightarrow> int \<Rightarrow> string list" where
  "connectCmd nvmf c conn ctrlLossTmo =
     [''nvme'', ''connect'', ''-t'', ToLower (nv_targetType nvmf),
      ''-a'', lc_IP c, ''-s'', Itoa (ci_Port conn), ''-n'', nv_nqn nvmf, ''-l'', Itoa ctrlLossTmo,
      ''-c'', nv_reconnectDelay nvmf, ''-i'', nv_nrIoQueues nvmf]"

definition nvmfGlob :: "initiatorNVMf \<Rightarrow> string" where
  "nvmfGlob nvmf = DevDiskByID (nv_model nvmf @ ''*_'' @ nv_nsId nvmf)"

text \<open>
  The loop over the stashed connections at index \<open>i\<close>; the addresses come from the freshly fetched list, whose
  length is that of the cluster's answer and whose elements may be nil.
\<close>

fun connectLoop ::
  "'x env \<Rightarrow> initiatorNVMf \<Rightarrow> int \<Rightarrow> LvolConnectResp option list \<Rightarrow> nat \<Rightarrow> connectionInfo list \<Rightarrow> ('x, unit) ioE"
where
  "connectLoop E nvmf ctrlLossTmo connections i [] = ret (Inr ())"
| "connectLoop E nvmf ctrlLossTmo connections i (conn # rest) =
     (if length connections \<le> i then panic ''index out of range''
      else (case connections ! i of
        None \<Rightarrow> panic ''invalid memory address or nil pointer dereference''
      | Some c \<Rightarrow>
          bindP (execWithTimeoutRetry E (connectCmd nvmf c conn ctrlLossTmo) 40 (length (nv_connections nvmf)))
            (\<lambda>r. case r of
               Inr _ \<Rightarrow> connectLoop E nvmf ctrlLossTmo connections (i + 1) rest
             | Inl err \<Rightarrow>
                 if i = 1 then
                   bindE (waitForDeviceReady E (nvmfGlob nvmf) 20) (\<lambda>devicePath.
                   bindE (disconnectDevicePath E devicePath) (\<lambda>_. throw err))
                 else throw err)))"

definition nvmf_Connect :: "'x env \<Rightarrow> initiatorNVMf \<Rightarrow> ('x, string) ioE" where
  "nvmf_Connect E nvmf =
     (let ctrlLossTmo = (if length (nv_connections nvmf) = 1 then 60 * 15 else 60) in
      bindE (isNqnConnected E (nv_nqn nvmf)) (\<lambda>alreadyConnected.
      bindE (if alreadyConnected then ret (Inr ())
             else let (clusterID, lvolID) = getLvolIDFromNQN (nv_nqn nvmf) in
               bindE (NewsimplyBlockClient E clusterID) (\<lambda>sbcClient.
               bindE (fetchLvolConnection E sbcClient lvolID) (\<lambda>connections.
                 connectLoop E nvmf ctrlLossTmo connections 0 (nv_connections nvmf))))
        (\<lambda>_. waitForDeviceReady E (nvmfGlob nvmf) 20)))"

definition nvmf_Disconnect :: "'x env \<Rightarrow> initiatorNVMf \<Rightarrow> ('x, unit) ioE" where
  "nvmf_Disconnect E nvmf =
     (let deviceGlob = DevDiskByID (nv_model nvmf @ ''*_[0-9]*'') in
      bindE (mapErr (\<lambda>err. ErrorString (''failed to find device paths matching '' @ deviceGlob @ '': '' @ err_msg err))
          (Glob E deviceGlob)) (\<lambda>devicePath.
        if length devicePath > 1 then ret (Inr ())
        else bindE (case devicePath of
                      [d] \<Rightarrow> disconnectDevicePath E d
                    | _ \<Rightarrow> ret (Inr ()))
               (\<lambda>_. waitForDeviceGone E deviceGlob)))"

section \<open>The cache initiator\<close>

definition hostName :: "'x env \<Rightarrow> string + string" where
  "hostName E = (case os_hostname E of Inl err \<Rightarrow> Inl (err_msg err) | Inr h \<Rightarrow> Inr (Split ''.'' h ! 0))"

text \<open>The loop over the caching nodes; the result is whether one of this host was found.\<close>

fun cachingLoop ::
  "'x env \<Rightarrow> initiatorCache \<Rightarrow> string \<Rightarrow> string \<Rightarrow> cachingNodeList option list \<Rightarrow> bool \<Rightarrow> ('x, bool) ioE"
where
  "cachingLoop E cache action hostname [] connected = ret (Inr connected)"
| "cachingLoop E cache action hostname (None # cnodes) connected =
     panic ''invalid memory address or nil pointer dereference''"
| "cachingLoop E cache action hostname (Some cnode # cnodes) connected =
     (if hostname \<noteq> cn_Hostname cnode then cachingLoop E cache action hostname cnodes connected
      else bindE (CallSBCLI E (ca_client cache) ''PUT'' (''/cachingnode/'' @ action @ ''/'' @ cn_UUID cnode)
              (Some (JObj [(''lvol_id'', JStr (ca_lvol cache))])))
            (\<lambda>_. cachingLoop E cache action hostname cnodes True))"

definition cachingNodes :: "'x env \<Rightarrow> initiatorCache \<Rightarrow> string \<Rightarrow> ('x, unit) ioE" where
  "cachingNodes E cache action =
     (case hostName E of
        Inl err \<Rightarrow> panic err
      | Inr hostname \<Rightarrow>
          bindE (CallSBCLI E (ca_client cache) ''GET'' ''/cachingnode'' None) (\<lambda>out.
          bindE (ret (redecode (dec_slice (dec_ptr dec_cachingNodeList \<lparr>cn_Hostname = [], cn_UUID = []\<rparr>) None) [] out))
            (\<lambda>cnodes.
          bindE (cachingLoop E cache action hostname cnodes False) (\<lambda>isCachingNodeConnected.
            if \<not> isCachingNodeConnected then throw (ErrorString ''failed to find the caching node'')
            else ret (Inr ())))))"

definition cache_Connect :: "'x env \<Rightarrow> initiatorCache \<Rightarrow> ('x, string) ioE" where
  "cache_Connect E cache =
     bindE (cachingNodes E cache ''connect'') (\<lambda>_. waitForDeviceReady E (DevDiskByID (ca_model cache)) 20)"

text \<open>Without a host name \<open>Disconnect\<close> ends the process where \<open>Connect\<close> panics; both are \<open>panic\<close> here.\<close>

definition cache_Disconnect :: "'x env \<Rightarrow> initiatorCache \<Rightarrow> ('x, unit) ioE" where
  "cache_Disconnect E cache =
     bindE (cachingNodes E cache ''disconnect'') (\<lambda>_. waitForDeviceGone E (DevDiskByID (ca_model cache)))"

fun Connect :: "'x env \<Rightarrow> initiator \<Rightarrow> ('x, string) ioE" where
  "Connect E (InitiatorNVMf nvmf) = nvmf_Connect E nvmf"
| "Connect E (InitiatorCache cache) = cache_Connect E cache"

fun Disconnect :: "'x env \<Rightarrow> initiator \<Rightarrow> ('x, unit) ioE" where
  "Disconnect E (InitiatorNVMf nvmf) = nvmf_Disconnect E nvmf"
| "Disconnect E (InitiatorCache cache) = cache_Disconnect E cache"

section \<open>The connection monitor\<close>

definition parseAddress :: "string \<Rightarrow> string" where
  "parseAddress address =
     (case find (\<lambda>part. HasPrefix part ''traddr='') (Split '','' address) of
        None \<Rightarrow> []
      | Some part \<Rightarrow> TrimPrefix part ''traddr='')"

definition shouldConnectToNode :: "string \<Rightarrow> string \<Rightarrow> string \<Rightarrow> bool" where
  "shouldConnectToNode anaState currentNodeID targetNodeID =
     (if anaState = ''optimized'' then currentNodeID \<noteq> targetNodeID else currentNodeID = targetNodeID)"

definition connectViaNVMe :: "'x env \<Rightarrow> LvolConnectResp \<Rightarrow> int \<Rightarrow> ('x, unit) ioE" where
  "connectViaNVMe E conn ctrlLossTmo =
     execWithTimeoutRetry E
       [''nvme'', ''connect'', ''-t'', ''tcp'', ''-a'', lc_IP conn, ''-s'', Itoa (lc_Port conn),
        ''-n'', lc_Nqn conn, ''-l'', Itoa ctrlLossTmo, ''-c'', Itoa (lc_ReconnectDelay conn),
        ''-i'', Itoa (lc_NrIoQueues conn)] 40 1"

definition disconnectViaNVMe :: "'x env \<Rightarrow> nvme_path \<Rightarrow> ('x, unit) ioE" where
  "disconnectViaNVMe E p = execWithTimeoutRetry E [''nvme'', ''disconnect'', ''-d'', pa_Name p] 40 1"

text \<open>\<open>checkOnlineNode\<close>: its loop over the nodes (the recursive call is the \<open>continue\<close>), then the function.\<close>

fun nodesLoop ::
  "'x env \<Rightarrow> NodeNVMf \<Rightarrow> string \<Rightarrow> nvme_path \<Rightarrow> NodeInfo \<Rightarrow> string list \<Rightarrow> ('x, unit) ioE"
where
  "nodesLoop E sbcClient lvolID p nodeInfo [] = ret (Inr ())"
| "nodesLoop E sbcClient lvolID p nodeInfo (nodeID # nodes) =
     (let continue = nodesLoop E sbcClient lvolID p nodeInfo nodes in
      if length (ni_NodeID nodeInfo) > 1 \<and> \<not> shouldConnectToNode (pa_ANAState p) (ni_NodeID nodeInfo) nodeID
      then continue
      else bindP (isNodeOnline E sbcClient nodeID) (\<lambda>online.
        if \<not> online then continue
        else bindP (fetchLvolConnection E sbcClient lvolID) (\<lambda>fetched. case fetched of
            Inl err \<Rightarrow> continue
          | Inr connections \<Rightarrow>
              let connCount = length connections;
                  connIndex = (if pa_ANAState p = ''optimized'' \<and> connCount > 1 then 1 else 0);
                  targetIP = parseAddress (pa_Address p)
              in if connCount = 0 then continue
                 else (case connections ! connIndex of
                     None \<Rightarrow> panic ''invalid memory address or nil pointer dereference''
                   | Some conn \<Rightarrow>
                       if connCount = 1 \<and> lc_IP conn \<noteq> targetIP then
                         bindE (disconnectViaNVMe E p) (\<lambda>_. connectViaNVMe E conn (60 * 15))
                       else if connCount > 1 then connectViaNVMe E conn 60
                       else continue))))"

definition checkOnlineNode :: "'x env \<Rightarrow> string \<Rightarrow> string \<Rightarrow> nvme_path \<Rightarrow> ('x, unit) ioE" where
  "checkOnlineNode E clusterID lvolID p =
     bindE (mapErr (Wrapped ''failed to create SPDK client: '') (NewsimplyBlockClient E clusterID)) (\<lambda>sbcClient.
     bindE (mapErr (Wrapped ''failed to fetch node info: '') (fetchNodeInfo E sbcClient lvolID)) (\<lambda>nodeInfo.
       nodesLoop E sbcClient lvolID p nodeInfo (ni_Nodes nodeInfo)))"

text \<open>
  One look at the device: whether the subsystem is still there (\<open>Some\<close>) with a single path everywhere; the
  first one with another number of paths ends the search.
\<close>

definition recheck :: "string \<Rightarrow> subsystem list list \<Rightarrow> bool" where
  "recheck nqn hosts =
     (let found = filter (\<lambda>s. su_NQN s = nqn) (concat hosts)
      in found \<noteq> [] \<and> list_all (\<lambda>s. length (su_Paths s) = 1) found)"

fun confirmLoop :: "'x env \<Rightarrow> string \<Rightarrow> string \<Rightarrow> nat \<Rightarrow> ('x, bool) io" where
  "confirmLoop E nqn devicePath 0 = ret True"
| "confirmLoop E nqn devicePath (Suc n) =
     bindP (getSubsystemsForDevice E devicePath) (\<lambda>r. case r of
         Inl err \<Rightarrow> confirmLoop E nqn devicePath n
       | Inr hosts \<Rightarrow>
           if recheck nqn hosts then bindP (Sleep E 1) (\<lambda>_. confirmLoop E nqn devicePath n)
           else ret False)"

definition confirmSubsystemStillSinglePath :: "'x env \<Rightarrow> subsystem \<Rightarrow> string \<Rightarrow> ('x, bool) io" where
  "confirmSubsystemStillSinglePath E s devicePath = confirmLoop E (su_NQN s) devicePath 5"

definition pathLost :: "nvmeDeviceInfo \<Rightarrow> nvme_path \<Rightarrow> bool" where
  "pathLost device p \<longleftrightarrow>
     pa_State p = ''connecting'' \<and> di_serialNumber device = ''single'' \<or>
     (pa_ANAState p = ''optimized'' \<or> pa_ANAState p = ''non-optimized'') \<and> di_serialNumber device = ''ha''"

definition reconnectSubsystem :: "'x env \<Rightarrow> nvmeDeviceInfo \<Rightarrow> subsystem \<Rightarrow> ('x, unit) io" where
  "reconnectSubsystem E device s =
     (let (clusterID, lvolID) = getLvolIDFromNQN (su_NQN s) in
      if lvolID = [] then ret ()
      else if length (su_Paths s) \<noteq> 1 then ret ()
      else bindP (confirmSubsystemStillSinglePath E s (di_devicePath device)) (\<lambda>confirm.
        if \<not> confirm then ret ()
        else forP (\<lambda>p. if pathLost device p then bindP (checkOnlineNode E clusterID lvolID p) (\<lambda>_. ret ())
                        else ret ()) (su_Paths s)))"

definition reconnectSubsystems :: "'x env \<Rightarrow> ('x, unit) ioE" where
  "reconnectSubsystems E =
     bindE (mapErr (\<lambda>err. ErrorString (''failed to get NVMe device paths: '' @ err_msg err)) (getNVMeDeviceInfos E))
       (\<lambda>devices. bindP
          (forP (\<lambda>device. bindP (getSubsystemsForDevice E (di_devicePath device)) (\<lambda>r. case r of
               Inl err \<Rightarrow> ret ()
             | Inr hosts \<Rightarrow> forP (\<lambda>host. forP (reconnectSubsystem E device) host) hosts)) devices)
          (\<lambda>_. ret (Inr ())))"

text \<open>\<open>MonitorConnection\<close> never returns; this is its state after \<open>n\<close> rounds.\<close>

fun MonitorConnection :: "'x env \<Rightarrow> nat \<Rightarrow> ('x, unit) io" where
  "MonitorConnection E 0 = ret ()"
| "MonitorConnection E (Suc n) =
     bindP (reconnectSubsystems E) (\<lambda>r. case r of
         Inl err \<Rightarrow> MonitorConnection E n
       | Inr _ \<Rightarrow> bindP (Sleep E 3) (\<lambda>_. MonitorConnection E n))"

end
