(* ===== verification/Node.thy ===== *)
theory Node
  imports Initiator CsiCommon VolumeLocks
begin

text \<open>
  The node service, \<^verbatim>\<open>pkg/spdk/nodeserver.go\<close>: staging, publishing and expanding a volume on a node. The mount
  library is part of the environment and its calls are events; the files of the container are the world's.
\<close>

section \<open>Messages\<close>

text \<open>
  The access type of a capability: a block device, a mount with file system type and flags, or none (a request
  without a capability).
\<close>

datatype AccessType = BlockAccess | MountAccess string "string list" | NoAccess

record StageRequest =
  st_VolumeId :: string
  st_StagingTargetPath :: string
  st_VolumeContext :: "gomap option"
  st_AccessType :: AccessType
  st_AccessMode :: access_mode

record PublishRequest =
  pb_VolumeId :: string
  pb_StagingTargetPath :: string
  pb_TargetPath :: string
  pb_AccessType :: AccessType

text \<open>
  \<open>GetMount().GetFsType()\<close> and \<open>GetMount().GetMountFlags()\<close>, which yield zero values for another access type.
\<close>

fun fsTypeOf :: "AccessType \<Rightarrow> string" where
  "fsTypeOf (MountAccess fsType flags) = fsType"
| "fsTypeOf _ = []"

fun mountFlagsOf :: "AccessType \<Rightarrow> string list" where
  "mountFlagsOf (MountAccess fsType flags) = flags"
| "mountFlagsOf _ = []"

definition getStagingTargetPath :: "string \<Rightarrow> string \<Rightarrow> string" where
  "getStagingTargetPath stagingTargetPath volumeId = stagingTargetPath @ ''/'' @ volumeId"

section \<open>Mounts\<close>

definition IsMountPoint :: "'x env \<Rightarrow> string \<Rightarrow> ('x, bool \<times> goerr option) io" where
  "IsMountPoint E p = (\<lambda>w. service [] (mnt_is_mount E p (w_fs w)) w)"

definition orErr :: "('x, goerr option) io \<Rightarrow> ('x, unit) ioE" where
  "orErr m = bindP m (\<lambda>r. ret (case r of None \<Rightarrow> Inr () | Some err \<Rightarrow> Inl err))"

definition Mount :: "'x env \<Rightarrow> string \<Rightarrow> string \<Rightarrow> string \<Rightarrow> string list \<Rightarrow> ('x, unit) ioE" where
  "Mount E src target fsType flags = orErr (service [EvMount src target fsType flags] (mnt_mount E src target fsType flags))"

definition FormatAndMount ::
  "'x env \<Rightarrow> string \<Rightarrow> string \<Rightarrow> string \<Rightarrow> string list \<Rightarrow> string list \<Rightarrow> ('x, unit) ioE" where
  "FormatAndMount E src target fsType flags formatOptions =
     orErr (service [EvFormatMount src target fsType flags formatOptions]
       (mnt_format_mount E src target fsType flags formatOptions))"

definition Unmount :: "'x env \<Rightarrow> string \<Rightarrow> ('x, unit) ioE" where
  "Unmount E p = orErr (service [EvUnmount p] (mnt_unmount E p))"

definition isStaged :: "'x env \<Rightarrow> string \<Rightarrow> ('x, bool) ioE" where
  "isStaged E stagingPath =
     bindP (IsMountPoint E stagingPath) (\<lambda>(isMount, err). ret (case err of
         None \<Rightarrow> Inr isMount
       | Some e \<Rightarrow>
           if is_not_exist e then Inr False
           else if mnt_corrupted E e then Inr True
           else Inl e))"

text \<open>The result is the pair of the code: whether it is a mount, and an error.\<close>

definition createMountPoint :: "'x env \<Rightarrow> string \<Rightarrow> ('x, bool) ioE" where
  "createMountPoint E p =
     bindP (IsMountPoint E p) (\<lambda>(isMount, err). case err of
         None \<Rightarrow> ret (Inr isMount)
       | Some e \<Rightarrow>
           if is_not_exist e then bindE (MkdirAll E p) (\<lambda>_. ret (Inr False)) else throw e)"

definition deleteMountPoint :: "'x env \<Rightarrow> string \<Rightarrow> ('x, unit) ioE" where
  "deleteMountPoint E p =
     bindP (IsMountPoint E p) (\<lambda>(isMount, err).
       let remove = (\<lambda>mounted. bindE (if mounted then Unmount E p else ret (Inr ())) (\<lambda>_. RemoveAll E p))
       in (case err of
             None \<Rightarrow> remove isMount
           | Some e \<Rightarrow>
               if is_not_exist e then ret (Inr ())
               else if mnt_corrupted E e then remove True
               else throw e))"

definition MakeFile :: "'x env \<Rightarrow> string \<Rightarrow> ('x, unit) ioE" where
  "MakeFile E p = mapErr (Wrapped (''failed to open file '' @ p @ '': '')) (CreateFile E p)"

section \<open>Staging\<close>

text \<open>Format options and mount flags of an xfs volume; \<open>8*distrNdcs\<close> is \<open>int\<close> arithmetic.\<close>

definition xfsOptions :: "int \<Rightarrow> string list" where
  "xfsOptions distrNdcs =
     (let unit = Itoa (wrap64 (8 * distrNdcs))
      in [''-d'', ''sunit='' @ unit @ '',swidth='' @ unit, ''-l'', ''sunit='' @ unit])"

definition stageVolume :: "'x env \<Rightarrow> string \<Rightarrow> string \<Rightarrow> StageRequest \<Rightarrow> gomap \<Rightarrow> ('x, unit) ioE" where
  "stageVolume E devicePath stagingPath req volumeContext =
     (if st_AccessType req = BlockAccess then ret (Inr ())
      else bindE (createMountPoint E stagingPath) (\<lambda>mounted.
        if mounted then ret (Inr ())
        else
          let fsType = (if fsTypeOf (st_AccessType req) = [] then ''ext4'' else fsTypeOf (st_AccessType req));
              mntFlags = mountFlagsOf (st_AccessType req)
          in bindE (if fsType = ''xfs''
                    then bindE (ret (Atoi (get0 volumeContext ''distr_ndcs'')))
                           (\<lambda>distrNdcs. ret (Inr (xfsOptions distrNdcs, mntFlags @ [''nouuid''])))
                    else ret (Inr ([], mntFlags))) (\<lambda>(formatOptions, flags).
             let flags' = (if st_AccessMode req = SINGLE_NODE_READER_ONLY \<or> st_AccessMode req = MULTI_NODE_READER_ONLY
                           then flags @ [''ro''] else flags)
             in bindE (FormatAndMount E devicePath stagingPath fsType flags' formatOptions) (\<lambda>_.
                let reserved = get0 volumeContext ''tune2fs_reserved_blocks'' in
                if fsType = ''ext4'' \<and> reserved \<noteq> []
                then bindE (mapErr (Wrapped ''tune2fs failed: '')
                         (cmd_output E [''tune2fs'', ''-m'', reserved, devicePath]))
                       (\<lambda>_. ret (Inr ()))
                else ret (Inr ())))))"

text \<open>
  The part of \<open>NodeStageVolume\<close> after a successful \<open>Connect\<close>. The deferred function disconnects again if the
  handler returns an error (the variable \<open>err\<close> it tests is the one every error return sets).
\<close>

definition disconnectOnError :: "('x, unit) ioE \<Rightarrow> ('x, 'a) ioE \<Rightarrow> ('x, 'a) ioE" where
  "disconnectOnError disconnect m =
     bindP m (\<lambda>r. case r of
         Inl err \<Rightarrow> bindP disconnect (\<lambda>_. throw err)
       | Inr a \<Rightarrow> ret (Inr a))"

definition ns_NodeStageVolume :: "'x env \<Rightarrow> StageRequest \<Rightarrow> ('x, unit) ioE" where
  "ns_NodeStageVolume E req =
     withLock (st_VolumeId req)
       (let stagingParentPath = st_StagingTargetPath req;
            stagingTargetPath = getStagingTargetPath (st_StagingTargetPath req) (st_VolumeId req)
        in bindE (mapErr toInternal (isStaged E stagingTargetPath)) (\<lambda>staged.
           if staged then ret (Inr ())
           else (case st_VolumeContext req of
               None \<Rightarrow> panic ''assignment to entry in nil map''
             | Some context \<Rightarrow>
                 let vc = AList.update ''stagingParentPath'' stagingParentPath context in
                 bindE (ret (map_sum toInternal id (NewSpdkCsiInitiator vc))) (\<lambda>initiator.
                 bindE (mapErr toInternal (Connect E initiator)) (\<lambda>devicePath.
                   disconnectOnError (Disconnect E initiator)
                     (bindE (mapErr toInternal (stageVolume E devicePath stagingTargetPath req vc)) (\<lambda>_.
                        mapErr toInternal (StashVolumeContext E
                          (Some (AList.update ''devicePath'' devicePath vc)) stagingParentPath))))))))"

definition ns_NodeUnstageVolume :: "'x env \<Rightarrow> string \<Rightarrow> string \<Rightarrow> ('x, unit) ioE" where
  "ns_NodeUnstageVolume E volumeID stagingParentPath =
     withLock volumeID
       (let stagingTargetPath = getStagingTargetPath stagingParentPath volumeID in
        bindE (mapErr (\<lambda>err. Status Internal (''unstage volume '' @ volumeID @ '' failed: '' @ err_msg err))
            (deleteMountPoint E stagingTargetPath)) (\<lambda>_.
        bindE (mapErr toInternal (LookupVolumeContext E stagingParentPath)) (\<lambda>volumeContext.
        bindE (ret (map_sum toInternal id (NewSpdkCsiInitiator volumeContext))) (\<lambda>initiator.
        bindE (mapErr toInternal (Disconnect E initiator)) (\<lambda>_.
          mapErr toInternal (CleanUpVolumeContext E stagingParentPath))))))"

section \<open>Publishing\<close>

text \<open>\<open>%q\<close> of a text of printable and ASCII characters.\<close>

definition quote_char :: "char \<Rightarrow> string" where
  "quote_char c =
     (if c = CHR 0x22 \<or> c = CHR 0x5C then [CHR 0x5C, c]
      else if c = CHR 0x07 then [CHR 0x5C, CHR ''a'']
      else if c = CHR 0x08 then [CHR 0x5C, CHR ''b'']
      else if c = CHR 0x0C then [CHR 0x5C, CHR ''f'']
      else if c = CHR 0x0A then [CHR 0x5C, CHR ''n'']
      else if c = CHR 0x0D then [CHR 0x5C, CHR ''r'']
      else if c = CHR 0x09 then [CHR 0x5C, CHR ''t'']
      else if c = CHR 0x0B then [CHR 0x5C, CHR ''v'']
      else if byte c < 32 \<or> byte c = 127
      then [CHR 0x5C, CHR ''x'', hex_digit (byte c div 16), hex_digit (byte c mod 16)]
      else [c])"

definition go_quote :: "string \<Rightarrow> string" where
  "go_quote s = CHR 0x22 # concat (map quote_char s) @ [CHR 0x22]"

text \<open>The device a context was stashed with: the key must be there, with a non-empty value.\<close>

definition stashedDevice :: "string \<Rightarrow> gomap \<Rightarrow> goerr + string" where
  "stashedDevice volumeID volumeContext =
     (case map_of volumeContext ''devicePath'' of
        Some devicePath \<Rightarrow>
          if devicePath = [] then Inl (Status Internal (''could not find device path for volume '' @ volumeID))
          else Inr devicePath
      | None \<Rightarrow> Inl (Status Internal (''could not find device path for volume '' @ volumeID)))"

definition contextDevice :: "'x env \<Rightarrow> string \<Rightarrow> string \<Rightarrow> ('x, string) ioE" where
  "contextDevice E volumeID stagingParentPath =
     bindE (mapErr (\<lambda>err. Status Internal
           (''failed to retrieve volume context for volume '' @ volumeID @ '': '' @ err_msg err))
         (LookupVolumeContext E stagingParentPath))
       (\<lambda>volumeContext. ret (stashedDevice volumeID volumeContext))"

definition makeTargetFile :: "'x env \<Rightarrow> string \<Rightarrow> ('x, unit) ioE" where
  "makeTargetFile E targetPath =
     bindP (MakeFile E targetPath) (\<lambda>made. case made of
         Inr _ \<Rightarrow> ret (Inr ())
       | Inl err \<Rightarrow> bindP (Remove E targetPath) (\<lambda>removed. case removed of
             Inl removeErr \<Rightarrow> throw (Status Internal
               (''Could not remove mount target '' @ go_quote targetPath @ '': '' @ err_msg removeErr))
           | Inr _ \<Rightarrow> throw (Status Internal
               (''Could not create file '' @ go_quote targetPath @ '': '' @ err_msg err))))"

definition ns_publishVolume :: "'x env \<Rightarrow> string \<Rightarrow> PublishRequest \<Rightarrow> ('x, unit) ioE" where
  "ns_publishVolume E stagingPath req =
     (let targetPath = pb_TargetPath req;
          flags = mountFlagsOf (pb_AccessType req) @ [''bind'']
      in (case pb_AccessType req of
            BlockAccess \<Rightarrow>
              bindE (contextDevice E (pb_VolumeId req) (pb_StagingTargetPath req)) (\<lambda>devicePath.
              bindE (makeTargetFile E targetPath) (\<lambda>_.
                Mount E devicePath targetPath [] flags))
          | MountAccess fsType _ \<Rightarrow>
              bindE (createMountPoint E targetPath) (\<lambda>mounted.
                if mounted then ret (Inr ()) else Mount E stagingPath targetPath fsType flags)
          | NoAccess \<Rightarrow> Mount E stagingPath targetPath [] flags))"

definition ns_NodePublishVolume :: "'x env \<Rightarrow> PublishRequest \<Rightarrow> ('x, unit) ioE" where
  "ns_NodePublishVolume E req =
     withLock (pb_VolumeId req)
       (mapErr toInternal (ns_publishVolume E
          (getStagingTargetPath (pb_StagingTargetPath req) (pb_VolumeId req)) req))"

definition ns_NodeUnpublishVolume :: "'x env \<Rightarrow> string \<Rightarrow> string \<Rightarrow> ('x, unit) ioE" where
  "ns_NodeUnpublishVolume E volumeID targetPath =
     withLock volumeID (mapErr toInternal (deleteMountPoint E targetPath))"

section \<open>The other methods\<close>

definition ns_NodeGetVolumeStats :: "('x, unit) ioE" where
  "ns_NodeGetVolumeStats = throw (Status Unimplemented [])"

definition ns_NodeGetCapabilities :: "node_rpc_type list" where
  "ns_NodeGetCapabilities = [NODE_STAGE_UNSTAGE_VOLUME, NODE_EXPAND_VOLUME, NODE_VOLUME_CONDITION]"

definition ns_NodeExpandVolume :: "'x env \<Rightarrow> string \<Rightarrow> string \<Rightarrow> string \<Rightarrow> ('x, unit) ioE" where
  "ns_NodeExpandVolume E volumeID volumeMountPath stagingParentPath =
     bindE (contextDevice E volumeID stagingParentPath) (\<lambda>devicePath.
     bindE (mapErr (\<lambda>err. Status Internal
           (''failed to check if volume '' @ volumeID @ '' needs resizing: '' @ err_msg err))
         (service [] (fs_need_resize E devicePath volumeMountPath))) (\<lambda>needsResize.
       if needsResize then
         bindE (mapErr (\<lambda>err. Status Internal (''failed to resize volume '' @ volumeID @ '': '' @ err_msg err))
             (service [EvResize devicePath volumeMountPath] (fs_resize E devicePath volumeMountPath)))
           (\<lambda>resized. ret (Inr ()))
       else ret (Inr ())))"

section \<open>The server object\<close>

record xpu =
  xp_Name :: string
  xp_TargetType :: string
  xp_TargetAddr :: string

record nodeConfig =
  nc_XPUList :: "xpu list"
  nc_KvmPciBridges :: int

definition dec_xpu :: "xpu decoder" where
  "dec_xpu = dec_struct
    [(''name'', field dec_string xp_Name (\<lambda>x. xp_Name_update (\<lambda>_. x))),
     (''targetType'', field dec_string xp_TargetType (\<lambda>x. xp_TargetType_update (\<lambda>_. x))),
     (''targetAddr'', field dec_string xp_TargetAddr (\<lambda>x. xp_TargetAddr_update (\<lambda>_. x)))]"

definition dec_nodeConfig :: "nodeConfig decoder" where
  "dec_nodeConfig = dec_struct
    [(''xpuList'', field (dec_slice dec_xpu \<lparr>xp_Name = [], xp_TargetType = [], xp_TargetAddr = []\<rparr>)
        nc_XPUList (\<lambda>x. nc_XPUList_update (\<lambda>_. x))),
     (''kvmPciBridges'', field dec_int nc_KvmPciBridges (\<lambda>x. nc_KvmPciBridges_update (\<lambda>_. x)))]"

text \<open>
  The server: the default server it extends, the connected xPU (address) and its type, the number of bridges, and whether
  the goroutine of the connection monitor was started.
\<close>

record nodeServer =
  no_Default :: DefaultNodeServer
  no_xpuConn :: "string option"
  no_xpuTargetType :: string
  no_kvmPciBridges :: int
  no_monitor :: bool

text \<open>The first xPU of the list, with type and address, that can be dialled.\<close>

fun dialFirst :: "'x env \<Rightarrow> xpu list \<Rightarrow> ('x, (string \<times> string) option) io" where
  "dialFirst E [] = ret None"
| "dialFirst E (x # xs) =
     (if xp_TargetType x \<noteq> [] \<and> xp_TargetAddr x \<noteq> []
      then bindP (service [] (grpc_dial E (xp_TargetAddr x))) (\<lambda>err. case err of
             Some e \<Rightarrow> dialFirst E xs
           | None \<Rightarrow> ret (Some (xp_TargetAddr x, xp_TargetType x)))
      else dialFirst E xs)"

definition newNodeServer :: "'x env \<Rightarrow> CSIDriver \<Rightarrow> ('x, nodeServer) ioE" where
  "newNodeServer E d =
     (let configEnv = ''SPDKCSI_CONFIG_NODESERVER'';
          configDefault = ''/etc/spdkcsi-nodeserver-config/nodeserver-config.json'';
          configFile = FromEnv E configEnv configDefault;
          ns = \<lparr>no_Default = NewDefaultNodeServer d, no_xpuConn = None, no_xpuTargetType = [], no_kvmPciBridges = 0, no_monitor = False\<rparr>
      in bindP (Stat E configFile) (\<lambda>stat.
         if (case stat of Inl err \<Rightarrow> is_not_exist err | Inr _ \<Rightarrow> False) then ret (Inr ns)
         else bindE (mapErr (Wrapped (''error in the configuration file specified in '' @ configEnv @ '' ('' @
                  configDefault @ '' by default): ''))
                (ParseJSONFile E dec_nodeConfig \<lparr>nc_XPUList = [], nc_KvmPciBridges = 0\<rparr> configFile)) (\<lambda>config.
              bindP (dialFirst E (nc_XPUList config)) (\<lambda>xpu. ret (Inr
                (ns\<lparr>no_kvmPciBridges := nc_KvmPciBridges config,
                    no_xpuConn := map_option fst xpu,
                    no_xpuTargetType := (case xpu of None \<Rightarrow> [] | Some (_, t) \<Rightarrow> t),
                    no_monitor := True\<rparr>))))))"

end
