(* ===== verification/Driver.thy ===== *)
theory Driver
  imports Controller Node
begin

text \<open>
  The start of the driver: its configuration (\<^verbatim>\<open>pkg/util/config.go\<close>, \<^verbatim>\<open>cmd/main.go\<close>) and \<open>Run\<close> of
  \<^verbatim>\<open>pkg/spdk/driver.go\<close>, which puts the driver object, the node server, the controller server and the gRPC server
  together. \<open>klog.Fatal\<close> ends the process; it is \<open>panic\<close> here.
\<close>

section \<open>Configuration\<close>

record Config =
  cf_DriverName :: string
  cf_DriverVersion :: string
  cf_Endpoint :: string
  cf_NodeID :: string
  cf_IsControllerServer :: bool
  cf_IsNodeServer :: bool

definition controllerCaps :: "rpc_type list" where
  "controllerCaps = [RPC_CREATE_DELETE_VOLUME, RPC_CREATE_DELETE_SNAPSHOT, RPC_LIST_SNAPSHOTS,
     RPC_EXPAND_VOLUME, RPC_CLONE_VOLUME, RPC_GET_VOLUME, RPC_VOLUME_CONDITION]"

definition volumeModes :: "access_mode list" where
  "volumeModes = [SINGLE_NODE_WRITER]"

text \<open>The defaults of the command line in \<^verbatim>\<open>cmd/main.go\<close>.\<close>

definition default_conf :: Config where
  "default_conf = \<lparr>cf_DriverName = ''csi.simplyblock.io'', cf_DriverVersion = ''0.1.0'',
     cf_Endpoint = ''unix://tmp/spdkcsi.sock'', cf_NodeID = [], cf_IsControllerServer = False,
     cf_IsNodeServer = False\<rparr>"

section \<open>Run\<close>

text \<open>
  The controller server extends the default server and has its own lock table. Its constructor has an error result
  that is always nil.
\<close>

record identityServer =
  id_Default :: DefaultIdentityServer

record controllerServer =
  co_Default :: DefaultControllerServer
  co_volumeLocks :: lock_table

definition newIdentityServer :: "CSIDriver \<Rightarrow> identityServer" where
  "newIdentityServer d = \<lparr>id_Default = NewDefaultIdentityServer d\<rparr>"

definition newControllerServer :: "CSIDriver \<Rightarrow> goerr + controllerServer" where
  "newControllerServer d = Inr \<lparr>co_Default = NewDefaultControllerServer d, co_volumeLocks = NewVolumeLocks\<rparr>"

text \<open>The driver object with the capabilities it is given before the servers are made.\<close>

definition Run_driver :: "Config \<Rightarrow> CSIDriver option" where
  "Run_driver conf =
     map_option
       (\<lambda>cd. if cf_IsControllerServer conf
              then snd (AddVolumeCapabilityAccessModes volumeModes (AddControllerServiceCapabilities controllerCaps cd))
              else cd)
       (NewCSIDriver (cf_DriverName conf) (cf_DriverVersion conf) (cf_NodeID conf))"

text \<open>The two blocks that make a server if the configuration asks for it; otherwise the pointer stays nil.\<close>

definition Run_node :: "'x env \<Rightarrow> Config \<Rightarrow> CSIDriver \<Rightarrow> ('x, nodeServer option) io" where
  "Run_node E conf cd =
     (if cf_IsNodeServer conf
      then bindP (newNodeServer E cd) (\<lambda>r. case r of
             Inl err \<Rightarrow> panic (''failed to create node server: '' @ err_msg err)
           | Inr ns \<Rightarrow> ret (Some ns))
      else ret None)"

definition Run_controller :: "Config \<Rightarrow> CSIDriver \<Rightarrow> ('x, controllerServer option) io" where
  "Run_controller conf cd =
     (if cf_IsControllerServer conf
      then (case newControllerServer cd of
              Inl err \<Rightarrow> panic (''failed to create controller server: '' @ err_msg err)
            | Inr cs \<Rightarrow> ret (Some cs))
      else ret None)"

text \<open>
  \<open>Run\<close> up to the point where the server listens. The variables \<open>ids\<close>, \<open>cs\<close> and \<open>ns\<close> have pointer types, so
  handing them to \<open>Start\<close> makes interface values with a dynamic type, also when the pointer is nil. The result is
  what the server listens on, with the services it registers, and the three pointers.
\<close>

record servers =
  sv_ids :: "identityServer option"
  sv_cs :: "controllerServer option"
  sv_ns :: "nodeServer option"

definition Run :: "'x env \<Rightarrow> Config \<Rightarrow> ('x, (string \<times> string \<times> csi_service list) \<times> servers) io" where
  "Run E conf =
     (case Run_driver conf of
        None \<Rightarrow> panic ''Failed to initialize CSI Driver.''
      | Some cd \<Rightarrow>
          bindP (Run_node E conf cd) (\<lambda>ns.
          bindP (Run_controller conf cd) (\<lambda>cs.
          let ids = Some (newIdentityServer cd) in
          bindP (serve E (cf_Endpoint conf) (Dynamic ids) (Dynamic cs) (Dynamic ns)) (\<lambda>listening.
            ret (listening, \<lparr>sv_ids = ids, sv_cs = cs, sv_ns = ns\<rparr>)))))"

section \<open>Properties\<close>

lemma Run_RetE:
  assumes "Run E conf w = (Ret (listening, svs), w')"
  obtains cd w1 w2 where "Run_driver conf = Some cd" "Run_node E conf cd w = (Ret (sv_ns svs), w1)"
    "Run_controller conf cd w1 = (Ret (sv_cs svs), w2)" "sv_ids svs = Some (newIdentityServer cd)"
    "serve E (cf_Endpoint conf) (Dynamic (sv_ids svs)) (Dynamic (sv_cs svs)) (Dynamic (sv_ns svs)) w2 = (Ret listening, w')"
  using assms by (auto simp: Run_def panic_def ret_def Let_def elim!: bindP_RetE split: option.splits)

text \<open>
  Whenever \<open>Run\<close> gets to the point where it listens, all three services are registered, whatever
  the flags \<open>-controller\<close> and \<open>-node\<close> say: a server that was not created is a nil pointer in a non-nil interface.
\<close>

theorem Run_registers_all_services:
  assumes "Run E conf w = (Ret ((proto, addr, services), svs), w')"
  shows "services = [IdentityService, ControllerService, NodeService]"
  using assms by (rule Run_RetE) (auto dest: serve_dynamic)

definition node_conf :: Config where
  "node_conf = default_conf\<lparr>cf_NodeID := ''n1'', cf_IsNodeServer := True\<rparr>"

text \<open>A node without the optional configuration of its xPUs.\<close>

definition node_driver :: CSIDriver where
  "node_driver = \<lparr>dr_name = ''csi.simplyblock.io'', dr_nodeID = ''n1'', dr_version = ''0.1.0'', dr_cap = [], dr_vc = []\<rparr>"

definition plain_node :: nodeServer where
  "plain_node = \<lparr>no_Default = \<lparr>dn_Driver = node_driver\<rparr>, no_xpuConn = None, no_xpuTargetType = [], no_kvmPciBridges = 0, no_monitor = False\<rparr>"

definition node_servers :: servers where
  "node_servers = \<lparr>sv_ids = Some \<lparr>id_Default = \<lparr>di_Driver = node_driver\<rparr>\<rparr>, sv_cs = None, sv_ns = Some plain_node\<rparr>"

lemma node_conf_run:
  "\<exists>services w'. Run demo_env node_conf (demo_world [] []) = (Ret ((''unix'', ''/tmp/spdkcsi.sock'', services), node_servers), w')"
proof -
  let ?r = "Run demo_env node_conf (demo_world [] [])"
  have "(case fst ?r of Ret ((p, a, s), n) \<Rightarrow> p = ''unix'' \<and> a = ''/tmp/spdkcsi.sock'' \<and> sv_ids n = Some \<lparr>id_Default = \<lparr>di_Driver = node_driver\<rparr>\<rparr> \<and>
      Option.is_none (sv_cs n) \<and> sv_ns n = Some plain_node | _ \<Rightarrow> False)"
    by code_simp
  then show ?thesis by (cases ?r) (auto simp: node_servers_def Option.is_none_def split: outcome.splits)
qed

theorem Run_registers_all_services_witness:
  "\<exists>w'. Run demo_env node_conf (demo_world [] []) = (Ret ((''unix'', ''/tmp/spdkcsi.sock'',
     [IdentityService, ControllerService, NodeService]), node_servers), w')"
  using node_conf_run Run_registers_all_services by metis

text \<open>
  C35. The monitor that reconnects lost paths is started exactly if the configuration file of the xPUs is there (or
  its absence cannot be told): on a node that leaves the file out, optional as it is, no path is ever reconnected.
\<close>

theorem monitor_needs_xpu_configuration:
  assumes "Run E conf w = (Ret (listening, svs), w')" and "sv_ns svs = Some ns"
  shows "no_monitor ns \<longleftrightarrow>
    \<not> (\<exists>err. fst (Stat E (FromEnv E ''SPDKCSI_CONFIG_NODESERVER'' ''/etc/spdkcsi-nodeserver-config/nodeserver-config.json'') w)
        = Ret (Inl err) \<and> is_not_exist err)"
proof -
  obtain cd w1 where "Run_node E conf cd w = (Ret (Some ns), w1)"
    using assms(1) by (rule Run_RetE) (simp add: assms(2))
  then have "newNodeServer E cd w = (Ret (Inr ns), w1)"
    by (auto simp: Run_node_def panic_def ret_def elim!: bindP_RetE split: if_splits sum.splits)
  then show ?thesis
    by (auto simp: newNodeServer_def Let_def ret_def elim!: bindP_RetE bindE_InrE split: if_splits sum.splits)
qed

theorem monitor_needs_xpu_configuration_witness:
  "\<not> no_monitor plain_node \<and> (\<exists>err. fst (Stat demo_env (FromEnv demo_env ''SPDKCSI_CONFIG_NODESERVER''
      ''/etc/spdkcsi-nodeserver-config/nodeserver-config.json'') (demo_world [] [])) = Ret (Inl err) \<and> is_not_exist err)"
proof -
  have "\<not> no_monitor plain_node" "sv_ns node_servers = Some plain_node"
    by (simp_all add: plain_node_def node_servers_def)
  then show ?thesis using node_conf_run monitor_needs_xpu_configuration by metis
qed

text \<open>
  The driver confirms a list of volume capabilities exactly if it is the controller and every entry is the
  single-node writer mode, or the list is empty; what it advertises as a controller is the list of \<open>Run\<close>, and
  a request for a capability outside it is refused with \<open>InvalidArgument\<close>.
\<close>

theorem advertised_capabilities:
  assumes "Run_driver conf = Some d"
  shows "(ValidateVolumeCapabilities d caps = Some caps \<longleftrightarrow>
      caps = [] \<or> cf_IsControllerServer conf \<and> set caps = {SINGLE_NODE_WRITER}) \<and>
    DefaultControllerGetCapabilities d = (if cf_IsControllerServer conf then controllerCaps else []) \<and>
    (ValidateControllerServiceRequest d c = Inl (Status InvalidArgument (rpc_name c)) \<longleftrightarrow>
      c \<noteq> RPC_UNKNOWN \<and> c \<notin> set (DefaultControllerGetCapabilities d))"
proof -
  have d: "dr_vc d = (if cf_IsControllerServer conf then [SINGLE_NODE_WRITER] else [])"
    "dr_cap d = (if cf_IsControllerServer conf then controllerCaps else [])"
    using assms
    by (auto simp: Run_driver_def NewCSIDriver_def AddVolumeCapabilityAccessModes_def volumeModes_def Let_def
        AddControllerServiceCapabilities_def NewVolumeCapabilityAccessMode_def NewControllerServiceCapability_def [abs_def]
        map_ident split: if_splits)
  have "ValidateVolumeCapabilities d caps = Some caps \<longleftrightarrow> set caps \<subseteq> set (dr_vc d)"
    by (auto simp: GetVolumeCapabilityAccessModes_def list_all_iff list_ex_iff)
  moreover have "set caps \<subseteq> {SINGLE_NODE_WRITER} \<longleftrightarrow> caps = [] \<or> set caps = {SINGLE_NODE_WRITER}"
    by (cases caps) auto
  ultimately have "ValidateVolumeCapabilities d caps = Some caps \<longleftrightarrow>
      caps = [] \<or> cf_IsControllerServer conf \<and> set caps = {SINGLE_NODE_WRITER}"
    unfolding d(1) by (cases "cf_IsControllerServer conf") (simp_all del: ValidateVolumeCapabilities.simps)
  moreover have "ValidateControllerServiceRequest d c = Inl (Status InvalidArgument (rpc_name c)) \<longleftrightarrow>
      c \<noteq> RPC_UNKNOWN \<and> c \<notin> set (DefaultControllerGetCapabilities d)"
    by (simp add: DefaultControllerGetCapabilities_def ValidateControllerServiceRequest_def list_ex_iff)
  moreover have "DefaultControllerGetCapabilities d = (if cf_IsControllerServer conf then controllerCaps else [])"
    unfolding DefaultControllerGetCapabilities_def by (rule d(2))
  ultimately show ?thesis by blast
qed

theorem advertised_capabilities_witness:
  "\<exists>d. Run_driver (node_conf\<lparr>cf_IsControllerServer := True\<rparr>) = Some d \<and>
    ValidateVolumeCapabilities d [SINGLE_NODE_WRITER] = Some [SINGLE_NODE_WRITER]"
proof -
  let ?c = "node_conf\<lparr>cf_IsControllerServer := True\<rparr>"
  obtain d where "Run_driver ?c = Some d" by (simp add: Run_driver_def NewCSIDriver_def node_conf_def default_conf_def)
  then show ?thesis using advertised_capabilities [of ?c d "[SINGLE_NODE_WRITER]" RPC_UNKNOWN] by simp
qed

end
