(* ===== verification/Costs.thy ===== *)
theory Costs
  imports Host
begin

text \<open>
  How often a program makes a call of some kind. \<open>spends P n m\<close> says that every run of \<open>m\<close> adds at most \<open>n\<close>
  events of kind \<open>P\<close> to the trace; the rules compose the bounds along the statements of a program, and
  \<open>waits\<close> does the same for the seconds it sleeps.
\<close>

section \<open>Budgets\<close>

definition cost :: "(event \<Rightarrow> nat) \<Rightarrow> event list \<Rightarrow> nat" where
  "cost c es = sum_list (map c es)"

definition spends :: "(event \<Rightarrow> nat) \<Rightarrow> nat \<Rightarrow> ('x, 'a) io \<Rightarrow> bool" where
  "spends c n m \<longleftrightarrow> (\<forall>w. \<exists>es. w_trace (snd (m w)) = w_trace w @ es \<and> cost c es \<le> n)"

lemma spendsI:
  "(\<And>w r w'. m w = (r, w') \<Longrightarrow> \<exists>es. w_trace w' = w_trace w @ es \<and> cost c es \<le> n) \<Longrightarrow> spends c n m"
  unfolding spends_def by (metis prod.collapse)

lemma spendsD:
  "spends c n m \<Longrightarrow> m w = (r, w') \<Longrightarrow> \<exists>es. w_trace w' = w_trace w @ es \<and> cost c es \<le> n"
  unfolding spends_def by (metis snd_conv)

lemma cost_append [simp]: "cost c (xs @ ys) = cost c xs + cost c ys"
  by (simp add: cost_def)

lemma cost_free: "list_all P es \<Longrightarrow> (\<And>e. P e \<Longrightarrow> c e = 0) \<Longrightarrow> cost c es = 0"
  by (induction es) (auto simp: cost_def)

lemma spends_weaken: "spends c k m \<Longrightarrow> k \<le> n \<Longrightarrow> spends c n m"
  unfolding spends_def by (meson order_trans)

lemma spends_free: "keeps (extends P) m \<Longrightarrow> (\<And>e. P e \<Longrightarrow> c e = 0) \<Longrightarrow> spends c n m"
  by (rule spendsI) (auto simp: extends_def cost_free dest!: keepsD)

lemma spends_ret: "spends c n (ret a)"
  by (rule spendsI) (simp add: ret_def cost_def)

lemma spends_panic: "spends c n (panic p)"
  by (rule spendsI) (simp add: panic_def cost_def)

lemma spends_throw: "spends c n (throw e)"
  by (simp add: throw_def spends_ret)

lemma spends_service: "cost c ev \<le> n \<Longrightarrow> spends c n (service ev f)"
  by (rule spendsI) (auto simp: service_def split: prod.splits)

lemma spends_bindP:
  assumes "spends c a m" and "\<And>x. spends c b (f x)" and "a + b \<le> n"
  shows "spends c n (bindP m f)"
proof (rule spendsI)
  fix w r w'
  assume run: "bindP m f w = (r, w')"
  obtain q u where mw: "m w = (q, u)" by (cases "m w")
  obtain es where es: "w_trace u = w_trace w @ es" "cost c es \<le> a" using spendsD [OF assms(1) mw] by blast
  show "\<exists>es. w_trace w' = w_trace w @ es \<and> cost c es \<le> n"
  proof (cases q)
    case (Ret x)
    then have "f x u = (r, w')" using run mw by (simp add: bindP_def)
    then obtain fs where "w_trace w' = w_trace u @ fs" "cost c fs \<le> b" using spendsD [OF assms(2)] by blast
    then show ?thesis using es assms(3) by (intro exI [of _ "es @ fs"]) simp
  next
    case (Panicked p)
    then show ?thesis using run mw es assms(3) by (auto simp: bindP_def)
  qed
qed

lemma spends_bindE:
  assumes "spends c a m" and "\<And>x. spends c b (f x)" and "a + b \<le> n"
  shows "spends c n (bindE m f)"
  unfolding bindE_def
proof (rule spends_bindP [OF assms(1) _ assms(3)])
  show "spends c b (case r of Inl e \<Rightarrow> throw e | Inr x \<Rightarrow> f x)" for r
    by (cases r) (simp_all add: spends_throw assms(2))
qed

lemma spends_mapErr: "spends c n m \<Longrightarrow> spends c n (mapErr g m)"
  unfolding mapErr_def by (rule spends_bindP [where a = n and b = 0]) (simp_all add: spends_ret)

lemma spends_if: "spends c n m \<Longrightarrow> spends c n m' \<Longrightarrow> spends c n (if b then m else m')"
  by simp

lemma spends_sum:
  "(\<And>e. spends c n (f e)) \<Longrightarrow> (\<And>a. spends c n (g a)) \<Longrightarrow> spends c n (case r of Inl e \<Rightarrow> f e | Inr a \<Rightarrow> g a)"
  by (cases r) auto

lemma spends_option:
  "spends c n m \<Longrightarrow> (\<And>a. spends c n (g a)) \<Longrightarrow> spends c n (case r of None \<Rightarrow> m | Some a \<Rightarrow> g a)"
  by (cases r) auto

lemma spends_list:
  "spends c n m \<Longrightarrow> (\<And>a as. spends c n (g a as)) \<Longrightarrow> spends c n (case r of [] \<Rightarrow> m | a # as \<Rightarrow> g a as)"
  by (cases r) auto

lemma spends_prod: "(\<And>a b. spends c n (g a b)) \<Longrightarrow> spends c n (case r of (a, b) \<Rightarrow> g a b)"
  by (cases r) auto

lemma spends_forP: "(\<And>a. spends c k (f a)) \<Longrightarrow> length as * k \<le> n \<Longrightarrow> spends c n (forP f as)"
proof (induction as arbitrary: n)
  case Nil
  then show ?case by (simp add: spends_ret)
next
  case (Cons a as)
  have "spends c (length as * k) (forP f as)" using Cons by simp
  then show ?case using Cons.prems by (auto intro: spends_bindP)
qed

lemmas spends_rules = spends_ret spends_panic spends_throw spends_mapErr spends_if spends_sum spends_option
  spends_list spends_prod

section \<open>Two kinds of cost\<close>

text \<open>The seconds slept, and the \<open>nvme connect\<close> commands run.\<close>

fun slept :: "event \<Rightarrow> nat" where
  "slept (EvSleep n) = n"
| "slept _ = 0"

fun connects :: "event \<Rightarrow> nat" where
  "connects (EvCmd (prog # verb # args)) = (if prog = ''nvme'' \<and> verb = ''connect'' then 1 else 0)"
| "connects _ = 0"

text \<open>Exactly what a program adds to the trace, for programs whose calls do not depend on results.\<close>

lemma forP_trace:
  assumes "\<And>a w. \<exists>w'. f a w = (Ret (), w') \<and> w_trace w' = w_trace w @ [ev a]"
  shows "\<exists>w'. forP f as w = (Ret (), w') \<and> w_trace w' = w_trace w @ map ev as"
proof (induction as arbitrary: w)
  case Nil
  then show ?case by (simp add: ret_def)
next
  case (Cons a as)
  obtain w1 where w1: "f a w = (Ret (), w1)" "w_trace w1 = w_trace w @ [ev a]" using assms by blast
  then show ?case using Cons.IH [of w1] by (auto simp: prog_simps)
qed

end
