(* ===== verification/InitiatorFacts.thy ===== *)
theory InitiatorFacts
  imports Initiator Costs
begin

text \<open>
  What the node service relies on when it uses an initiator, as a locale that both initiators and their common
  interface meet, and the properties of connecting, disconnecting and waiting for devices.
\<close>

section \<open>The contract of an initiator\<close>

text \<open>The calls an initiator makes: requests, commands, waiting, and reading the configuration.\<close>

fun device_event :: "event \<Rightarrow> bool" where
  "device_event (EvHttp rq) = True"
| "device_event (EvCmd cmd) = True"
| "device_event (EvSleep n) = True"
| "device_event (EvFile (OpRead p)) = True"
| "device_event _ = False"

locale device_contract =
  fixes connect :: "'i \<Rightarrow> ('x, string) ioE"
    and disconnect :: "'i \<Rightarrow> ('x, unit) ioE"
  assumes connect_fs: "keeps same_fs (connect i)"
    and disconnect_fs: "keeps same_fs (disconnect i)"
    and connect_events: "keeps (extends device_event) (connect i)"
    and disconnect_events: "keeps (extends device_event) (disconnect i)"
    and connect_waits: "spends slept 42 (connect i)"
    and disconnect_waits: "spends slept 21 (disconnect i)"
begin

lemma reconnect_fs: "keeps same_fs (bindE (disconnect i) (\<lambda>_. connect j))"
  by (intro fsf.keeps_bindE connect_fs disconnect_fs)

lemma reconnect_waits: "spends slept 63 (bindE (disconnect i) (\<lambda>_. connect j))"
  by (rule spends_bindE [OF disconnect_waits connect_waits]) simp

end

section \<open>The elementary calls\<close>

text \<open>Calls that neither sleep nor connect.\<close>

definition quiet :: "event \<Rightarrow> bool" where
  "quiet e \<longleftrightarrow> device_event e \<and> slept e = 0 \<and> connects e = 0"

lemma quiet_sends: "sends ms e \<Longrightarrow> quiet e"
  by (induction ms e rule: sends.induct) (auto simp: quiet_def)

lemma quiet_device: "keeps (extends quiet) m \<Longrightarrow> keeps (extends device_event) m"
  by (erule keeps_mono) (erule extends_mono, simp add: quiet_def)

lemma quiet_free: "keeps (extends quiet) m \<Longrightarrow> spends slept n m" "keeps (extends quiet) m \<Longrightarrow> spends connects n m"
  by (rule spends_free [where P = quiet]; simp add: quiet_def)+

lemma keeps_call_quiet: "keeps (extends quiet) (CallSBCLI E client verb path args)"
  by (rule keeps_mono [OF keeps_CallSBCLI [of verb "{verb}"]]) (auto intro: extends_mono quiet_sends)

lemma keeps_client_quiet: "keeps (extends quiet) (NewsimplyBlockClient E clusterID)"
  by (rule keeps_mono [OF keeps_NewsimplyBlockClient [of "{}"]]) (auto intro: extends_mono quiet_sends)

lemma keeps_glob: "keeps (extends P) (Glob E pat)" "keeps (extends P) (EvalSymlinks E p)"
  "P (EvSleep k) \<Longrightarrow> keeps (extends P) (Sleep E k)"
  unfolding Glob_def EvalSymlinks_def Sleep_def by (rule keeps_service_tr; simp)+

lemma keeps_glob_fs: "keeps same_fs (Glob E pat)" "keeps same_fs (EvalSymlinks E p)" "keeps same_fs (Sleep E k)"
  unfolding Glob_def EvalSymlinks_def Sleep_def by (rule keeps_service_fs)+

lemma keeps_exec: "P (EvCmd cmd) \<Longrightarrow> keeps (extends P) (execWithTimeout E cmd t)"
  unfolding execWithTimeout_def exec_run_def by (intro tr.keeps_rules keeps_service_tr) simp

lemma keeps_output: "P (EvCmd cmd) \<Longrightarrow> keeps (extends P) (cmd_output E cmd)"
  unfolding cmd_output_def exec_run_def by (intro tr.keeps_rules keeps_service_tr) simp

lemma keeps_retry: "P (EvCmd cmd) \<Longrightarrow> keeps (extends P) (execWithTimeoutRetry E cmd t r)"
proof -
  assume "P (EvCmd cmd)"
  then have "keeps (extends P) (retryLoop E cmd t r err)" for err
    by (induction r arbitrary: err) (simp_all add: tr.keeps_ret tr.keeps_bindP tr.keeps_sum keeps_exec)
  then show ?thesis by (simp add: execWithTimeoutRetry_def)
qed

lemma keeps_exec_fs: "keeps same_fs (execWithTimeout E cmd t)" "keeps same_fs (cmd_output E cmd)"
  unfolding execWithTimeout_def cmd_output_def exec_run_def by (intro fsf.keeps_rules keeps_service_fs)+

lemma keeps_retry_fs: "keeps same_fs (execWithTimeoutRetry E cmd t r)"
proof -
  have "keeps same_fs (retryLoop E cmd t r err)" for err
    by (induction r arbitrary: err) (simp_all add: fsf.keeps_ret fsf.keeps_bindP fsf.keeps_sum keeps_exec_fs)
  then show ?thesis by (simp add: execWithTimeoutRetry_def)
qed

section \<open>What the parts do\<close>

text \<open>Every part leaves the files alone and makes device calls only; most are quiet.\<close>

lemma keeps_readyLoop: "P (EvSleep 1) \<Longrightarrow> keeps (extends P) (readyLoop E g n)" "keeps same_fs (readyLoop E g n)"
  by (induction n) (simp_all add: fsf.keeps_rules tr.keeps_rules keeps_glob keeps_glob_fs)

lemma keeps_goneLoop: "P (EvSleep 1) \<Longrightarrow> keeps (extends P) (goneLoop E g n)" "keeps same_fs (goneLoop E g n)"
  by (induction n) (simp_all add: fsf.keeps_rules tr.keeps_rules keeps_glob keeps_glob_fs)

lemma keeps_wait:
  "P (EvSleep 1) \<Longrightarrow> keeps (extends P) (waitForDeviceReady E g s)" "keeps same_fs (waitForDeviceReady E g s)"
  "P (EvSleep 1) \<Longrightarrow> keeps (extends P) (waitForDeviceGone E g)" "keeps same_fs (waitForDeviceGone E g)"
  unfolding waitForDeviceReady_def waitForDeviceGone_def by (rule keeps_readyLoop keeps_goneLoop; assumption?)+

lemma keeps_subsystems:
  "keeps (extends quiet) (getSubsystemsForDevice E d)" "keeps same_fs (getSubsystemsForDevice E d)"
  "keeps (extends quiet) (isNqnConnected E nqn)" "keeps same_fs (isNqnConnected E nqn)"
  "keeps (extends quiet) (getNVMeDeviceInfos E)" "keeps same_fs (getNVMeDeviceInfos E)"
  unfolding getSubsystemsForDevice_def isNqnConnected_def getNVMeDeviceInfos_def
  by (intro fsf.keeps_rules tr.keeps_rules keeps_output keeps_exec_fs; simp add: quiet_def)+

lemma keeps_disconnectPath:
  "keeps (extends quiet) (disconnectDevicePath E d)" "keeps same_fs (disconnectDevicePath E d)"
  unfolding disconnectDevicePath_def Let_def
  by (intro fsf.keeps_rules tr.keeps_rules keeps_glob keeps_glob_fs keeps_subsystems keeps_retry keeps_retry_fs;
      simp add: quiet_def)+

lemma keeps_fetch:
  "keeps (extends quiet) (fetchLvolConnection E node l)" "keeps same_fs (fetchLvolConnection E node l)"
  "keeps (extends quiet) (fetchNodeInfo E node l)" "keeps same_fs (fetchNodeInfo E node l)"
  "keeps (extends quiet) (isNodeOnline E node l)" "keeps same_fs (isNodeOnline E node l)"
  unfolding fetchLvolConnection_def fetchNodeInfo_def isNodeOnline_def
  by (intro fsf.keeps_rules tr.keeps_rules keeps_CallSBCLI_fs keeps_call_quiet)+

lemma keeps_connectLoop:
  "keeps (extends device_event) (connectLoop E nvmf tmo cs i conns)" "keeps same_fs (connectLoop E nvmf tmo cs i conns)"
proof (induction conns arbitrary: i)
  case Nil
  { case 1 show ?case by (simp add: tr.keeps_rules) next case 2 show ?case by (simp add: fsf.keeps_rules) }
next
  case (Cons c conns)
  {
    case 1 show ?case unfolding connectLoop.simps
      by (intro tr.keeps_rules keeps_retry keeps_wait quiet_device [OF keeps_disconnectPath(1)] Cons) simp_all
  next
    case 2 show ?case unfolding connectLoop.simps
      by (intro fsf.keeps_rules keeps_retry_fs keeps_wait keeps_disconnectPath Cons)
  }
qed

lemmas keeps_device_parts = keeps_client_quiet [THEN quiet_device] keeps_call_quiet [THEN quiet_device]
  keeps_subsystems(1,3,5) [THEN quiet_device] keeps_fetch(1,3,5) [THEN quiet_device]
  keeps_disconnectPath(1) [THEN quiet_device]

lemma keeps_nvmf:
  "keeps (extends device_event) (nvmf_Connect E nvmf)" "keeps same_fs (nvmf_Connect E nvmf)"
  "keeps (extends device_event) (nvmf_Disconnect E nvmf)" "keeps same_fs (nvmf_Disconnect E nvmf)"
  unfolding nvmf_Connect_def nvmf_Disconnect_def Let_def
  by (intro fsf.keeps_rules tr.keeps_rules keeps_NewsimplyBlockClient_fs keeps_device_parts keeps_subsystems
      keeps_fetch keeps_connectLoop keeps_wait keeps_glob keeps_glob_fs keeps_disconnectPath; simp?)+

lemma keeps_cachingLoop:
  "keeps (extends quiet) (cachingLoop E cache action h cs b)" "keeps same_fs (cachingLoop E cache action h cs b)"
proof (induction cs arbitrary: b)
  case Nil
  { case 1 show ?case by (simp add: tr.keeps_rules) next case 2 show ?case by (simp add: fsf.keeps_rules) }
next
  case (Cons c cs)
  {
    case 1 show ?case
    proof (cases c)
      case (Some n)
      show ?thesis unfolding Some cachingLoop.simps by (intro tr.keeps_rules keeps_call_quiet Cons)
    qed (simp add: tr.keeps_panic)
  next
    case 2 show ?case
    proof (cases c)
      case (Some n)
      show ?thesis unfolding Some cachingLoop.simps by (intro fsf.keeps_rules keeps_CallSBCLI_fs Cons)
    qed (simp add: fsf.keeps_panic)
  }
qed

lemma keeps_cachingNodes:
  "keeps (extends quiet) (cachingNodes E cache action)" "keeps same_fs (cachingNodes E cache action)"
  unfolding cachingNodes_def
  by (intro fsf.keeps_rules tr.keeps_rules keeps_CallSBCLI_fs keeps_call_quiet keeps_cachingLoop)+

lemma keeps_cache:
  "keeps (extends device_event) (cache_Connect E cache)" "keeps same_fs (cache_Connect E cache)"
  "keeps (extends device_event) (cache_Disconnect E cache)" "keeps same_fs (cache_Disconnect E cache)"
  unfolding cache_Connect_def cache_Disconnect_def
  by (intro fsf.keeps_rules tr.keeps_rules quiet_device [OF keeps_cachingNodes(1)] keeps_cachingNodes keeps_wait; simp?)+

section \<open>Budgets\<close>

lemma spends_exec: "cost c [EvCmd cmd] \<le> n \<Longrightarrow> spends c n (execWithTimeout E cmd t)"
  unfolding execWithTimeout_def exec_run_def
  by (rule spends_bindP [where a = n and b = 0]) (simp_all add: spends_service spends_ret)

lemma spends_retry: "cost c [EvCmd cmd] \<le> k \<Longrightarrow> r * k \<le> n \<Longrightarrow> spends c n (execWithTimeoutRetry E cmd t r)"
proof -
  assume k: "cost c [EvCmd cmd] \<le> k" and n: "r * k \<le> n"
  have "spends c (r * k) (retryLoop E cmd t r err)" for err
  proof (induction r arbitrary: err)
    case (Suc r)
    show ?case unfolding retryLoop.simps
      by (rule spends_bindP [OF spends_exec [OF k], where b = "r * k"]) (auto intro!: spends_sum spends_ret Suc)
  qed (simp add: spends_ret)
  then show ?thesis using n unfolding execWithTimeoutRetry_def by (blast intro: spends_weaken)
qed

lemma spends_glob: "spends c n (Glob E pat)"
  unfolding Glob_def by (rule spends_service) (simp add: cost_def)

lemma spends_readyLoop: "spends c (n * c (EvSleep 1)) (readyLoop E g n)"
proof (induction n)
  case (Suc n)
  have "spends c (Suc n * c (EvSleep 1)) (bindP (Sleep E 1) (\<lambda>_. readyLoop E g n))"
    unfolding Sleep_def
    by (rule spends_bindP [where a = "c (EvSleep 1)" and b = "n * c (EvSleep 1)"])
      (simp_all add: Suc [simplified] spends_service cost_def)
  then show ?case unfolding readyLoop.simps
    by (intro spends_bindE [where a = 0 and b = "Suc n * c (EvSleep 1)"] spends_glob spends_list spends_ret) simp_all
qed (simp add: spends_throw)

lemma spends_goneLoop: "spends c (n * c (EvSleep 1)) (goneLoop E g n)"
proof (induction n)
  case (Suc n)
  have "spends c (Suc n * c (EvSleep 1)) (bindP (Sleep E 1) (\<lambda>_. goneLoop E g n))"
    unfolding Sleep_def
    by (rule spends_bindP [where a = "c (EvSleep 1)" and b = "n * c (EvSleep 1)"])
      (simp_all add: Suc [simplified] spends_service cost_def)
  then show ?case unfolding goneLoop.simps
    by (intro spends_bindE [where a = 0 and b = "Suc n * c (EvSleep 1)"] spends_glob spends_if spends_ret) simp_all
qed (simp add: spends_throw)

lemma spends_wait:
  "spends slept 21 (waitForDeviceReady E g 20)" "spends slept 21 (waitForDeviceGone E g)"
  "spends connects 0 (waitForDeviceReady E g 20)"
  using spends_readyLoop [of slept 21 E g] spends_goneLoop [of slept 21 E g] spends_readyLoop [of connects 21 E g]
  by (simp_all add: waitForDeviceReady_def waitForDeviceGone_def)

text \<open>The loop over the paths: at most as many connect commands per path as it has tries, at most one wait.\<close>

lemma connectLoop_waits: "spends slept 21 (connectLoop E nvmf tmo cs i conns)"
proof (induction conns arbitrary: i)
  case (Cons c conns)
  have "spends slept 21 (bindE (waitForDeviceReady E (nvmfGlob nvmf) 20) (\<lambda>d. bindE (disconnectDevicePath E d) (\<lambda>_. throw e)))"
    for e :: goerr and E
    by (intro spends_bindE [OF spends_wait(1), where b = 0] spends_bindE [where a = 0 and b = 0]
        quiet_free keeps_disconnectPath spends_throw) simp_all
  then show ?case unfolding connectLoop.simps
    by (intro spends_rules spends_bindP [where a = 0 and b = 21] spends_retry [where k = 0] Cons)
      (simp_all add: cost_def connectCmd_def)
qed (simp add: spends_ret)

lemma connectLoop_connects:
  "spends connects (length conns * length (nv_connections nvmf)) (connectLoop E nvmf tmo cs i conns)"
proof (induction conns arbitrary: i)
  case (Cons c conns)
  let ?n = "length (nv_connections nvmf)"
  have "spends connects n (bindE (waitForDeviceReady E (nvmfGlob nvmf) 20) (\<lambda>d. bindE (disconnectDevicePath E d) (\<lambda>_. throw e)))"
    for e :: goerr and E and n
    by (intro spends_bindE [OF spends_wait(3), where b = n] spends_bindE [where a = 0 and b = n]
        quiet_free keeps_disconnectPath spends_throw) simp_all
  then show ?case unfolding connectLoop.simps
    by (intro spends_rules spends_bindP [where a = ?n and b = "length conns * ?n"] spends_retry [where k = 1] Cons)
      (simp_all add: cost_def connectCmd_def)
qed (simp add: spends_ret)

lemma nvmf_Connect_spends:
  "spends slept 42 (nvmf_Connect E nvmf)"
  "spends connects (length (nv_connections nvmf) * length (nv_connections nvmf)) (nvmf_Connect E nvmf)"
proof -
  let ?k = "length (nv_connections nvmf) * length (nv_connections nvmf)"
  have body: "spends c k (if b then ret (Inr ()) else let (clusterID, lvolID) = getLvolIDFromNQN (nv_nqn nvmf) in
      bindE (NewsimplyBlockClient E clusterID) (\<lambda>sbc. bindE (fetchLvolConnection E sbc lvolID) (\<lambda>cs.
        connectLoop E nvmf tmo cs 0 (nv_connections nvmf))))"
    if "c = slept \<or> c = connects" and "\<And>cs. spends c k (connectLoop E nvmf tmo cs 0 (nv_connections nvmf))"
    for c k b tmo
  proof -
    have "spends c 0 (NewsimplyBlockClient E x)" and "spends c 0 (fetchLvolConnection E sbc x)" for x sbc
      using that(1) by (auto intro: quiet_free keeps_client_quiet keeps_fetch)
    then have "spends c k (bindE (NewsimplyBlockClient E x) (\<lambda>sbc. bindE (fetchLvolConnection E sbc y) (\<lambda>cs.
        connectLoop E nvmf tmo cs 0 (nv_connections nvmf))))" for x y
      using that(2) by (intro spends_bindE [where a = 0 and b = k]) simp_all
    then show ?thesis by (simp add: spends_ret split: prod.split)
  qed
  show "spends slept 42 (nvmf_Connect E nvmf)" unfolding nvmf_Connect_def Let_def [of "if _ then _ else _"]
    by (intro spends_bindE [where a = 0 and b = 42] quiet_free keeps_subsystems
        spends_bindE [where a = 21 and b = 21] body connectLoop_waits spends_wait) simp_all
  show "spends connects ?k (nvmf_Connect E nvmf)" unfolding nvmf_Connect_def Let_def [of "if _ then _ else _"]
    by (intro spends_bindE [where a = 0 and b = ?k] quiet_free keeps_subsystems
        spends_bindE [where a = ?k and b = 0] body connectLoop_connects spends_wait) simp_all
qed

lemma nvmf_Disconnect_spends: "spends slept 21 (nvmf_Disconnect E nvmf)"
  unfolding nvmf_Disconnect_def Let_def
  by (intro spends_bindE [where a = 0 and b = 21] spends_mapErr spends_glob spends_if spends_list spends_ret
      quiet_free keeps_disconnectPath spends_wait) simp_all

lemma cache_spends: "spends slept 42 (cache_Connect E cache)" "spends slept 21 (cache_Disconnect E cache)"
proof -
  have "spends slept 21 (cache_Connect E cache)" "spends slept 21 (cache_Disconnect E cache)"
    unfolding cache_Connect_def cache_Disconnect_def
    by (intro spends_bindE [where a = 0 and b = 21] quiet_free keeps_cachingNodes spends_wait; simp)+
  then show "spends slept 42 (cache_Connect E cache)" "spends slept 21 (cache_Disconnect E cache)"
    by (simp_all add: spends_weaken)
qed

section \<open>The initiators meet the contract\<close>

interpretation nvmf_dev: device_contract "nvmf_Connect E" "nvmf_Disconnect E" for E
  by unfold_locales (rule keeps_nvmf nvmf_Connect_spends nvmf_Disconnect_spends)+

interpretation cache_dev: device_contract "cache_Connect E" "cache_Disconnect E" for E
  by unfold_locales (rule keeps_cache cache_spends)+

interpretation dev: device_contract "Connect E" "Disconnect E" for E
proof unfold_locales
  fix i
  show "keeps same_fs (Connect E i)" and "keeps same_fs (Disconnect E i)"
    and "keeps (extends device_event) (Connect E i)" and "keeps (extends device_event) (Disconnect E i)"
    and "spends slept 42 (Connect E i)" and "spends slept 21 (Disconnect E i)"
    by (cases i; simp add: nvmf_dev.connect_fs nvmf_dev.disconnect_fs nvmf_dev.connect_events
        nvmf_dev.disconnect_events nvmf_dev.connect_waits nvmf_dev.disconnect_waits cache_dev.connect_fs
        cache_dev.disconnect_fs cache_dev.connect_events cache_dev.disconnect_events cache_dev.connect_waits
        cache_dev.disconnect_waits)+
qed

text \<open>
  C31. Connecting a volume over \<open>n\<close> paths runs at most \<open>n * n\<close> connect commands and sleeps at most 42 seconds,
  disconnecting sleeps at most 21, whatever the cluster, the commands and the device files do, and on every
  error path.
\<close>

theorem initiator_bounds:
  "spends connects (length (nv_connections nvmf) * length (nv_connections nvmf)) (Connect E (InitiatorNVMf nvmf)) \<and>
   spends slept 42 (Connect E i) \<and> spends slept 21 (Disconnect E i)"
  by (simp add: nvmf_Connect_spends dev.connect_waits dev.disconnect_waits)

section \<open>Waiting\<close>

text \<open>What one round of waiting makes of the outside state.\<close>

definition tick :: "'x env \<Rightarrow> string \<Rightarrow> 'x \<Rightarrow> 'x" where
  "tick E g x = time_sleep E 1 (snd (dev_glob E g x))"

lemma readyLoop_finds:
  assumes "\<And>i. i < k \<Longrightarrow> fst (dev_glob E g ((tick E g ^^ i) (w_ext w))) = Inr []"
    and "fst (dev_glob E g ((tick E g ^^ k) (w_ext w))) = Inr (m # ms)" and "k < n"
  shows "\<exists>w'. readyLoop E g n w = (Ret (Inr m), w') \<and> w_trace w' = w_trace w @ replicate k (EvSleep 1)"
  using assms
proof (induction k arbitrary: w n)
  case 0
  obtain n' where n: "n = Suc n'" using 0 by (cases n) auto
  obtain x where "dev_glob E g (w_ext w) = (Inr (m # ms), x)" using 0(2) by (cases "dev_glob E g (w_ext w)") simp
  then show ?case by (simp add: n Glob_def service_def prog_simps)
next
  case (Suc k)
  obtain n' where n: "n = Suc n'" using Suc.prems by (cases n) auto
  obtain x where x: "dev_glob E g (w_ext w) = (Inr [], x)"
    using Suc.prems(1) [of 0] by (cases "dev_glob E g (w_ext w)") simp
  let ?w = "w\<lparr>w_ext := time_sleep E 1 x, w_trace := w_trace w @ [EvSleep 1]\<rparr>"
  have next_ext: "w_ext ?w = tick E g (w_ext w)" by (simp add: tick_def x)
  have "\<exists>w'. readyLoop E g n' ?w = (Ret (Inr m), w') \<and> w_trace w' = w_trace ?w @ replicate k (EvSleep 1)"
  proof (rule Suc.IH)
    show "fst (dev_glob E g ((tick E g ^^ i) (w_ext ?w))) = Inr []" if "i < k" for i
      using Suc.prems(1) [of "Suc i"] that unfolding next_ext by (simp add: funpow_Suc_right del: funpow.simps)
    show "fst (dev_glob E g ((tick E g ^^ k) (w_ext ?w))) = Inr (m # ms)"
      using Suc.prems(2) unfolding next_ext by (simp add: funpow_Suc_right del: funpow.simps)
    show "k < n'" using Suc.prems(3) n by simp
  qed
  moreover have "readyLoop E g n w = readyLoop E g n' ?w"
    by (simp add: n Glob_def Sleep_def service_def prog_simps x)
  ultimately show ?case by auto
qed

text \<open>
  C30. Waiting for a device notices it: if the device file appears after \<open>k\<close> seconds and \<open>k\<close> is within the time limit,
  the wait succeeds with the first match, having slept exactly \<open>k\<close> times one second and called nothing else.
\<close>

theorem device_wait_succeeds:
  assumes "\<And>i. i < k \<Longrightarrow> fst (dev_glob E g ((tick E g ^^ i) (w_ext w))) = Inr []"
    and "fst (dev_glob E g ((tick E g ^^ k) (w_ext w))) = Inr (m # ms)" and "k \<le> seconds"
  shows "\<exists>w'. waitForDeviceReady E g seconds w = (Ret (Inr m), w') \<and>
    w_trace w' = w_trace w @ replicate k (EvSleep 1)"
  unfolding waitForDeviceReady_def using assms by (intro readyLoop_finds) simp_all

text \<open>An environment whose outside state is a clock: the device is there from the third second on.\<close>

definition clock_env :: "nat env" where
  "clock_env = \<lparr>
     os_getenv = (\<lambda>_. []), os_hostname = Inr ''node-1'', os_fault = (\<lambda>_ x. (None, x)), os_partial = (\<lambda>_ _ _. False), http_check = (\<lambda>_ _. None),
     http_do = (\<lambda>_ x. (Inl (ErrorString ''connection refused''), x)), float_text = (\<lambda>_. None), fmt_v = (\<lambda>_. []),
     clock_now = (\<lambda>x. (int x, x)), time_sleep = (\<lambda>n x. x + n), run_cmd = (\<lambda>_ _ x. (CmdDone None [], x)),
     dev_glob = (\<lambda>p x. (Inr (if x < 3 then [] else [p]), x)), dev_realpath = (\<lambda>p x. (Inr p, x)),
     sys_read = (\<lambda>_ x. (Inr [], x)), sys_readdir = (\<lambda>_ x. (Inr [], x)), slice_sort = (\<lambda>bs. [0..<length bs]),
     grpc_dial = (\<lambda>_ x. (None, x)), k8s_config = (\<lambda>x. (None, x)), k8s_client = (\<lambda>x. (None, x)),
     k8s_pvc = (\<lambda>_ _ x. (Inr [], x)), k8s_secret = (\<lambda>_ _ x. (Inr [], x)),
     mnt_is_mount = (\<lambda>p fs x. ((False, None), x)), mnt_corrupted = (\<lambda>_. False), mnt_mount = (\<lambda>_ _ _ _ x. (None, x)),
     mnt_format_mount = (\<lambda>_ _ _ _ _ x. (None, x)), mnt_unmount = (\<lambda>_ x. (None, x)),
     fs_need_resize = (\<lambda>_ _ x. (Inr False, x)), fs_resize = (\<lambda>_ _ x. (Inr True, x))\<rparr>"

theorem device_wait_succeeds_witness:
  "\<exists>w'. waitForDeviceReady clock_env ''dev'' 20 \<lparr>w_ext = 0, w_fs = [], w_trace = []\<rparr> = (Ret (Inr ''dev''), w') \<and>
    w_trace w' = replicate 3 (EvSleep 1)"
proof -
  have tick: "(tick clock_env ''dev'' ^^ i) x = x + i" for i x
    by (induction i arbitrary: x) (simp_all add: tick_def clock_env_def)
  show ?thesis
    using device_wait_succeeds [of 3 clock_env "''dev''" "\<lparr>w_ext = 0, w_fs = [], w_trace = []\<rparr>" "''dev''" "[]" 20]
    by (simp add: tick) (simp add: clock_env_def)
qed

end
