(* ===== verification/InitiatorPaths.thy ===== *)
theory InitiatorPaths
  imports InitiatorFacts
begin

text \<open>
  The order in which paths are connected and disconnected, the initiators a volume context stands for, and
  where connecting goes wrong.
\<close>

section \<open>Disconnecting\<close>

lemma insert_path_sorted:
  assumes "list_all optimized os" and "list_all (\<lambda>p. \<not> optimized p) ns"
  shows "insert_path x (os @ ns) = (if optimized x then os @ x # ns else os @ ns @ [x])"
  using assms
proof (induction os)
  case Nil
  then show ?case by (induction ns) (auto simp: path_less_def)
next
  case (Cons y os)
  then show ?case by (simp add: path_less_def)
qed

lemma sort_paths_short:
  assumes "length paths \<le> 12"
  shows "sort_paths E paths = rev (filter (\<lambda>p. \<not> optimized p) paths) @ rev (filter optimized paths)"
proof -
  have "fold insert_path ps (filter optimized qs @ filter (\<lambda>p. \<not> optimized p) qs) =
      filter optimized (qs @ ps) @ filter (\<lambda>p. \<not> optimized p) (qs @ ps)" for ps qs
  proof (induction ps arbitrary: qs)
    case (Cons p ps)
    have "insert_path p (filter optimized qs @ filter (\<lambda>p. \<not> optimized p) qs) =
        filter optimized (qs @ [p]) @ filter (\<lambda>p. \<not> optimized p) (qs @ [p])"
      by (subst insert_path_sorted) (auto simp: list_all_iff)
    then show ?case using Cons [of "qs @ [p]"] by simp
  qed simp
  from this [of paths "[]"] show ?thesis using assms by (simp add: sort_paths_def)
qed

text \<open>The names and access states of all paths in an answer of \<open>nvme list-subsys\<close>.\<close>

definition all_paths :: "subsystem list list \<Rightarrow> nvme_path list" where
  "all_paths hosts = map (\<lambda>p. \<lparr>pa_Name = pa_Name p, pa_Transport = [], pa_Address = [], pa_State = [],
     pa_ANAState = pa_ANAState p\<rparr>) (concat (map (\<lambda>host. concat (map su_Paths host)) hosts))"

definition disconnect_cmd :: "nvme_path \<Rightarrow> string list" where
  "disconnect_cmd p = [''nvme'', ''disconnect'', ''-d'', pa_Name p]"

lemma single_try:
  "\<exists>w'. bindP (execWithTimeoutRetry E cmd t 1) (\<lambda>_. ret ()) w = (Ret (), w') \<and> w_trace w' = w_trace w @ [EvCmd cmd]"
proof -
  obtain r x where "run_cmd E cmd (Some t) (w_ext w) = (r, x)" by (cases "run_cmd E cmd (Some t) (w_ext w)")
  then show ?thesis
    by (auto simp: execWithTimeoutRetry_def execWithTimeout_def exec_run_def service_def prog_simps bindP_def ret_def
        split: cmd_result.splits option.splits sum.splits)
qed

text \<open>
  C26. Disconnecting a device sends one disconnect command per path, those that are not optimized first and the
  optimized ones after them, each group from the last to the first, and succeeds whether or not the
  commands do. The comparison given to the sort is no strict order; this is what insertion sort makes of it.
\<close>

theorem disconnect_paths_in_order:
  assumes "dev_realpath E d (w_ext w) = (Inr real, x)"
    and "run_cmd E [''nvme'', ''list-subsys'', ''-o'', ''json'', real] None x = (CmdDone None out, y)"
    and "json_unmarshal (dec_slice dec_subsystemResponse []) [] out = Inr hosts"
    and "length (all_paths hosts) \<le> 12"
  shows "\<exists>w'. disconnectDevicePath E d w = (Ret (Inr ()), w') \<and>
    w_trace w' = w_trace w @ EvCmd [''nvme'', ''list-subsys'', ''-o'', ''json'', real] #
      map (EvCmd \<circ> disconnect_cmd)
        (rev (filter (\<lambda>p. \<not> optimized p) (all_paths hosts)) @ rev (filter optimized (all_paths hosts)))"
proof -
  let ?ls = "[''nvme'', ''list-subsys'', ''-o'', ''json'', real]"
  let ?w1 = "w\<lparr>w_ext := x\<rparr>" and ?w2 = "w\<lparr>w_ext := y, w_trace := w_trace w @ [EvCmd ?ls]\<rparr>"
  let ?body = "\<lambda>p. bindP (execWithTimeoutRetry E (disconnect_cmd p) 40 1) (\<lambda>_. ret ())"
  have real: "EvalSymlinks E d w = (Ret (Inr real), ?w1)" using assms(1) by (simp add: EvalSymlinks_def service_def)
  have subs: "getSubsystemsForDevice E real ?w1 = (Ret (Inr hosts), ?w2)"
    using assms(2,3) by (simp add: getSubsystemsForDevice_def cmd_output_def exec_run_def service_def prog_simps)
  obtain w' where "forP ?body (sort_paths E (all_paths hosts)) ?w2 = (Ret (), w')"
    and "w_trace w' = w_trace ?w2 @ map (EvCmd \<circ> disconnect_cmd) (sort_paths E (all_paths hosts))"
    using forP_trace [of ?body "EvCmd \<circ> disconnect_cmd" "sort_paths E (all_paths hosts)" ?w2] single_try by fastforce
  moreover from real subs this(1) have "disconnectDevicePath E d w = (Ret (Inr ()), w')"
    by (simp add: disconnectDevicePath_def all_paths_def disconnect_cmd_def Let_def prog_simps)
  ultimately show ?thesis by (simp add: sort_paths_short [OF assms(4)])
qed

definition two_paths :: string where
  "two_paths = ''[{\"Subsystems\":[{\"NQN\":\"n\",\"Paths\":[{\"Name\":\"nvme0\",\"ANAState\":\"optimized\"},{\"Name\":\"nvme1\",\"ANAState\":\"non-optimized\"}]}]}]''"

definition two_path_env :: "(goerr + http_response) list env" where
  "two_path_env = demo_env\<lparr>run_cmd := \<lambda>_ _ x. (CmdDone None two_paths, x)\<rparr>"

definition listed :: "string \<Rightarrow> string \<Rightarrow> nvme_path" where
  "listed name state = \<lparr>pa_Name = name, pa_Transport = [], pa_Address = [], pa_State = [], pa_ANAState = state\<rparr>"

lemma two_paths_decode:
  "json_unmarshal (dec_slice dec_subsystemResponse []) [] two_paths = Inr
    [[\<lparr>su_Name = [], su_NQN = ''n'', su_Paths = [listed ''nvme0'' ''optimized'', listed ''nvme1'' ''non-optimized'']\<rparr>]]"
  by code_simp

theorem disconnect_paths_in_order_witness:
  "\<exists>w'. disconnectDevicePath two_path_env ''/dev/nvme0n1'' (demo_world [] []) = (Ret (Inr ()), w') \<and>
    w_trace w' = EvCmd [''nvme'', ''list-subsys'', ''-o'', ''json'', ''/dev/nvme0n1''] #
      map (EvCmd \<circ> disconnect_cmd) [listed ''nvme1'' ''non-optimized'', listed ''nvme0'' ''optimized'']"
proof -
  let ?hosts = "[[\<lparr>su_Name = [], su_NQN = ''n'',
    su_Paths = [listed ''nvme0'' ''optimized'', listed ''nvme1'' ''non-optimized'']\<rparr>]]"
  have paths: "all_paths ?hosts = [listed ''nvme0'' ''optimized'', listed ''nvme1'' ''non-optimized'']"
    by (simp add: all_paths_def listed_def)
  show ?thesis
    using disconnect_paths_in_order [of two_path_env "''/dev/nvme0n1''" "demo_world [] []" "''/dev/nvme0n1''" "[]",
        OF _ _ two_paths_decode, where y = "[]"]
    unfolding paths by (simp add: two_path_env_def demo_env_def demo_world_def optimized_def listed_def)
qed

section \<open>Connecting\<close>

text \<open>Connect commands that succeed whatever state they find.\<close>

definition commands_work :: "'x env \<Rightarrow> bool" where
  "commands_work E \<longleftrightarrow> (\<forall>cmd limit x. \<exists>out y. run_cmd E cmd limit x = (CmdDone None out, y))"

lemma retry_works:
  assumes "commands_work E" and "0 < n"
  shows "\<exists>w'. execWithTimeoutRetry E cmd t n w = (Ret (Inr ()), w') \<and> w_trace w' = w_trace w @ [EvCmd cmd]"
proof -
  obtain k where n: "n = Suc k" using assms(2) by (cases n) auto
  obtain out y where "run_cmd E cmd (Some t) (w_ext w) = (CmdDone None out, y)"
    using assms(1) unfolding commands_work_def by blast
  then show ?thesis
    by (simp add: n execWithTimeoutRetry_def execWithTimeout_def exec_run_def service_def prog_simps)
qed

lemma connectLoop_works:
  assumes "commands_work E" and "nv_connections nvmf \<noteq> []" and "i \<le> length cs"
  shows "\<exists>w'. connectLoop E nvmf tmo (map Some cs) i conns w =
      (if length conns \<le> length cs - i then Ret (Inr ()) else Panicked ''index out of range'', w') \<and>
    w_trace w' = w_trace w @ map (\<lambda>(c, conn). EvCmd (connectCmd nvmf c conn tmo)) (zip (drop i cs) conns)"
  using assms(3)
proof (induction conns arbitrary: i w)
  case (Cons conn conns)
  show ?case
  proof (cases "i < length cs")
    case False
    then show ?thesis using Cons.prems by (simp add: panic_def)
  next
    case True
    obtain w1 where w1: "execWithTimeoutRetry E (connectCmd nvmf (cs ! i) conn tmo) 40 (length (nv_connections nvmf)) w
        = (Ret (Inr ()), w1)" "w_trace w1 = w_trace w @ [EvCmd (connectCmd nvmf (cs ! i) conn tmo)]"
      using retry_works [OF assms(1)] assms(2) by (metis length_greater_0_conv)
    have "connectLoop E nvmf tmo (map Some cs) i (conn # conns) w = connectLoop E nvmf tmo (map Some cs) (Suc i) conns w1"
      using True w1(1) by (simp add: prog_simps)
    then show ?thesis using Cons.IH [of "Suc i" w1] True w1(2) by (auto simp: Cons_nth_drop_Suc [symmetric])
  qed
qed (simp add: ret_def)

text \<open>
  C25. When the commands work, the volume is connected by one command per stashed path, in their order, each with
  the address the cluster now gives and the port from the stash; if the cluster now gives fewer
  paths than were stashed, it connects those and then panics.
\<close>

theorem connect_one_command_per_path:
  assumes "commands_work E" and "nv_connections nvmf \<noteq> []"
  shows "\<exists>w'. connectLoop E nvmf tmo (map Some cs) 0 (nv_connections nvmf) w =
      (if length (nv_connections nvmf) \<le> length cs then Ret (Inr ()) else Panicked ''index out of range'', w') \<and>
    w_trace w' = w_trace w @ map (\<lambda>(c, conn). EvCmd (connectCmd nvmf c conn tmo)) (zip cs (nv_connections nvmf))"
  using connectLoop_works [OF assms, of 0] by simp

definition two_conns :: initiatorNVMf where
  "two_conns = \<lparr>nv_targetType = ''tcp'', nv_connections = [\<lparr>ci_IP = ''a'', ci_Port = 1\<rparr>, \<lparr>ci_IP = ''b'', ci_Port = 2\<rparr>],
     nv_nqn = ''q'', nv_reconnectDelay = ''2'', nv_nrIoQueues = ''3'', nv_ctrlLossTmo = ''60'', nv_model = ''m'', nv_nsId = ''1''\<rparr>"

theorem connect_one_command_per_path_witness:
  "\<exists>w'. connectLoop demo_env two_conns 60 (map Some [zero_LvolConnectResp]) 0 (nv_connections two_conns) (demo_world [] []) =
      (Panicked ''index out of range'', w') \<and>
    w_trace w' = [EvCmd (connectCmd two_conns zero_LvolConnectResp \<lparr>ci_IP = ''a'', ci_Port = 1\<rparr> 60)]"
proof -
  have "commands_work demo_env" by (simp add: commands_work_def demo_env_def)
  from connect_one_command_per_path [OF this, of two_conns 60 "[zero_LvolConnectResp]" "demo_world [] []"]
  show ?thesis by (simp add: two_conns_def demo_world_def)
qed

text \<open>
  Connecting is idempotent: if the list of connected subsystems has a line with the volume's name, no request
  is sent and no connect command is run; what is left is the wait for the device file.
\<close>

theorem connect_when_connected:
  assumes "run_cmd E [''nvme'', ''list-subsys''] None (w_ext w) = (CmdDone None out, x)"
    and "line \<in> set (Split [CHR 0x0A] out)" and "Contains line (nv_nqn nvmf)" and "Fields line \<noteq> []"
  shows "\<exists>r w' k. Connect E (InitiatorNVMf nvmf) w = (r, w') \<and> k \<le> 21 \<and>
    w_trace w' = w_trace w @ EvCmd [''nvme'', ''list-subsys''] # replicate k (EvSleep 1)"
proof -
  let ?w1 = "w\<lparr>w_ext := x, w_trace := w_trace w @ [EvCmd [''nvme'', ''list-subsys'']]\<rparr>"
  have sleeps: "list_all (\<lambda>e. e = EvSleep 1) es \<Longrightarrow> es = replicate (length es) (EvSleep 1)" for es
    by (induction es) auto
  have "isNqnConnected E (nv_nqn nvmf) w = (Ret (Inr True), ?w1)"
    using assms by (auto simp: isNqnConnected_def cmd_output_def exec_run_def service_def prog_simps list_ex_iff)
  then have "Connect E (InitiatorNVMf nvmf) w = waitForDeviceReady E (nvmfGlob nvmf) 20 ?w1"
    by (simp add: nvmf_Connect_def Let_def prog_simps)
  moreover obtain r w' where run: "waitForDeviceReady E (nvmfGlob nvmf) 20 ?w1 = (r, w')" by fastforce
  obtain es where es: "w_trace w' = w_trace ?w1 @ es" "list_all (\<lambda>e. e = EvSleep 1) es"
    using keepsD [OF keeps_wait(1) run, of "\<lambda>e. e = EvSleep 1"] unfolding extends_def by blast
  obtain fs where fs: "w_trace w' = w_trace ?w1 @ fs" "cost slept fs \<le> 21"
    using spendsD [OF spends_wait(1) run] by blast
  have "cost slept (replicate k (EvSleep 1)) = k" for k by (induction k) (simp_all add: cost_def)
  then have "length es \<le> 21" using fs es(1) sleeps [OF es(2)] by (metis same_append_eq)
  moreover have "w_trace w' = w_trace w @ EvCmd [''nvme'', ''list-subsys''] # replicate (length es) (EvSleep 1)"
    using es(1) sleeps [OF es(2)] by simp
  ultimately show ?thesis using run by metis
qed

definition connected_env :: "(goerr + http_response) list env" where
  "connected_env = demo_env\<lparr>run_cmd := \<lambda>_ _ x. (CmdDone None ''nvme-subsys0 - NQN=q'', x)\<rparr>"

theorem connect_when_connected_witness:
  "\<exists>r w' k. Connect connected_env (InitiatorNVMf two_conns) (demo_world [] []) = (r, w') \<and> k \<le> 21 \<and>
    w_trace w' = EvCmd [''nvme'', ''list-subsys''] # replicate k (EvSleep 1)"
proof -
  let ?l = "''nvme-subsys0 - NQN=q''"
  have "?l \<in> set (Split [CHR 0x0A] ?l)" and "Contains ?l ''q''" and "Fields ?l \<noteq> []" by code_simp+
  then show ?thesis
    using connect_when_connected [of connected_env "demo_world [] []" ?l "[]" ?l two_conns]
    by (simp add: connected_env_def demo_env_def demo_world_def two_conns_def)
qed

section \<open>From a volume context to an initiator\<close>

text \<open>The connections travel through the context as a JSON text.\<close>

definition conns_ok :: "connectionInfo list \<Rightarrow> bool" where
  "conns_ok cs \<longleftrightarrow> list_all (\<lambda>c. valid_utf8 (ci_IP c) \<and> int64_range (ci_Port c)) cs"

interpretation conns: codec "\<lambda>cs. jprint (JArr (map enc_connectionInfo cs))"
  "json_unmarshal (dec_slice dec_connectionInfo \<lparr>ci_IP = [], ci_Port = 0\<rparr>) []" conns_ok
proof
  fix cs
  assume ok: "conns_ok cs"
  have "valid_utf8 ''ip''" "valid_utf8 ''port''" by code_simp+
  then have "jwf 10000 (JArr (map enc_connectionInfo cs))"
    using ok by (auto simp: conns_ok_def list_all_iff enc_connectionInfo_def jint_def is_num_Itoa)
  moreover have "dec_connectionInfo (enc_connectionInfo c) \<lparr>ci_IP = [], ci_Port = 0\<rparr> = Inr c" if "c \<in> set cs" for c
  proof -
    have "int64_range (ci_Port c)" using ok that by (auto simp: conns_ok_def list_all_iff)
    then show ?thesis
      by (cases c) (simp add: dec_connectionInfo_def enc_connectionInfo_def jint_def field_of_def field_def dec64.dec_enc)
  qed
  ultimately show "json_unmarshal (dec_slice dec_connectionInfo \<lparr>ci_IP = [], ci_Port = 0\<rparr>) []
      (jprint (JArr (map enc_connectionInfo cs))) = Inr cs"
    using dec_elems_map [of cs "\<lambda>v. dec_connectionInfo v \<lparr>ci_IP = [], ci_Port = 0\<rparr>" enc_connectionInfo id]
    by (simp add: json_unmarshal_jprint del: jprint.simps)
qed

definition initiator_keys :: "string list" where
  "initiator_keys = [''targetType'', ''connections'', ''nqn'', ''reconnectDelay'', ''nrIoQueues'', ''ctrlLossTmo'',
     ''model'', ''nsId'', ''uuid'']"

text \<open>Only these entries of a context matter.\<close>

lemma NewSpdkCsiInitiator_cong:
  assumes "\<And>k. k \<in> set initiator_keys \<Longrightarrow> map_of vc k = map_of vc' k"
  shows "NewSpdkCsiInitiator vc = NewSpdkCsiInitiator vc'"
proof -
  have "\<forall>k \<in> set initiator_keys. get0 vc k = get0 vc' k" using assms by (simp add: get0_def)
  then show ?thesis by (simp add: NewSpdkCsiInitiator_def initiator_keys_def Let_def split: sum.split)
qed

text \<open>The initiator that the cluster's answer about a volume describes.\<close>

definition initiator_of :: "LvolConnectResp \<Rightarrow> connectionInfo list \<Rightarrow> initiatorNVMf" where
  "initiator_of r connections =
     \<lparr>nv_targetType = ''tcp'', nv_connections = connections, nv_nqn = lc_Nqn r,
      nv_reconnectDelay = Itoa (lc_ReconnectDelay r), nv_nrIoQueues = Itoa (lc_NrIoQueues r),
      nv_ctrlLossTmo = Itoa (lc_CtrlLossTmo r), nv_model = snd (getLvolIDFromNQN (lc_Nqn r)),
      nv_nsId = Itoa (lc_NSID r)\<rparr>"

text \<open>
  The context that describes a volume's connections makes that initiator wherever it arrives, whatever other entries
  were added on the way.
\<close>

lemma context_names_initiator:
  assumes "conns_ok connections"
    and "\<And>k. k \<in> set initiator_keys \<Longrightarrow> map_of vc k = map_of (volumeInfoMap lvolID r connections) k"
  shows "NewSpdkCsiInitiator vc = Inr (InitiatorNVMf (initiator_of r connections))"
proof -
  have tcp: "ToLower ''tcp'' = ''tcp''" by code_simp
  have "NewSpdkCsiInitiator vc = NewSpdkCsiInitiator (volumeInfoMap lvolID r connections)"
    by (rule NewSpdkCsiInitiator_cong [OF assms(2)])
  also have "\<dots> = Inr (InitiatorNVMf (initiator_of r connections))"
    using conns.dec_enc [OF assms(1)] tcp
    by (simp add: NewSpdkCsiInitiator_def volumeInfoMap_def get0_def initiator_of_def del: jprint.simps ToLower.simps)
  finally show ?thesis .
qed

lemma no_client_call: "\<not> rc_HTTPClient client \<Longrightarrow> CallSBCLI E client verb p args w \<noteq> (Ret (Inr out), w')"
  by (auto simp: CallSBCLI_def Let_def throw_def ret_def panic_def split: option.splits)

lemma no_client_cache:
  assumes "\<not> rc_HTTPClient (ca_client cache)"
  shows "Connect E (InitiatorCache cache) w \<noteq> (Ret (Inr devicePath), w')"
    and "Disconnect E (InitiatorCache cache) w \<noteq> (Ret (Inr ()), w')"
proof -
  have "cachingNodes E cache action w \<noteq> (Ret (Inr ()), w')" for action w'
    by (auto simp: cachingNodes_def panic_def no_client_call [OF assms] elim!: bindE_InrE split: sum.splits)
  then show "Connect E (InitiatorCache cache) w \<noteq> (Ret (Inr devicePath), w')"
    "Disconnect E (InitiatorCache cache) w \<noteq> (Ret (Inr ()), w')"
    by (auto simp: cache_Connect_def cache_Disconnect_def elim!: bindE_InrE)
qed

text \<open>
  The cache initiator cannot be used: it is made without a client, so connecting and disconnecting never
  succeed, whatever the context, the cluster and the devices.
\<close>

theorem cache_initiator_unusable:
  assumes "NewSpdkCsiInitiator vc = Inr i" and "ToLower (get0 vc ''targetType'') = ''cache''"
  shows "\<not> (\<exists>devicePath w'. Connect E i w = (Ret (Inr devicePath), w')) \<and>
    \<not> (\<exists>w'. Disconnect E i w = (Ret (Inr ()), w'))"
proof -
  obtain cache where "i = InitiatorCache cache" "\<not> rc_HTTPClient (ca_client cache)"
    using assms by (auto simp: NewSpdkCsiInitiator_def Let_def)
  then show ?thesis using no_client_cache by blast
qed

theorem cache_initiator_unusable_witness:
  "\<exists>i. NewSpdkCsiInitiator [(''targetType'', ''Cache''), (''uuid'', ''v'')] = Inr i \<and>
    \<not> (\<exists>devicePath w'. Connect demo_env i (demo_world [] []) = (Ret (Inr devicePath), w'))"
proof -
  have low: "ToLower (get0 [(''targetType'', ''Cache''), (''uuid'', ''v'')] ''targetType'') = ''cache''" by code_simp
  then obtain i where "NewSpdkCsiInitiator [(''targetType'', ''Cache''), (''uuid'', ''v'')] = Inr i"
    by (simp add: NewSpdkCsiInitiator_def Let_def)
  then show ?thesis using cache_initiator_unusable [OF _ low] by blast
qed

end
