(* ===== verification/NodeFacts.thy ===== *)
theory NodeFacts
  imports Node InitiatorPaths
begin

text \<open>
  The node service: what its handlers may do while they hold the lock of the volume, how long they wait, which
  errors they return, and how staging, publishing, expanding and unstaging fit together through the stash. The
  parts that use an initiator are proved over its contract.
\<close>

section \<open>Effects\<close>

text \<open>A handler takes its lock once, at the outside.\<close>

fun lock_free :: "event \<Rightarrow> bool" where
  "lock_free (EvLock k) = False"
| "lock_free (EvUnlock k) = False"
| "lock_free _ = True"

lemma device_lock_free: "device_event e \<Longrightarrow> lock_free e"
  by (induction e rule: device_event.induct) auto

lemma keeps_lock_free: "keeps (extends device_event) m \<Longrightarrow> keeps (extends lock_free) m"
  by (erule keeps_mono) (erule extends_mono, rule device_lock_free)

lemma keeps_file_calls:
  assumes "\<And>op. P (EvFile op)"
  shows "keeps (extends P) (Stat E p)" "keeps (extends P) (MkdirAll E p)" "keeps (extends P) (WriteFile E p t)"
    "keeps (extends P) (Remove E p)" "keeps (extends P) (RemoveAll E p)" "keeps (extends P) (CreateFile E p)"
    "keeps (extends P) (ReadFile E p)"
  unfolding Stat_def MkdirAll_def WriteFile_def Remove_def RemoveAll_def CreateFile_def ReadFile_def pathErr_def
  by (intro tr.keeps_rules keeps_file_op_tr keeps_remove_tree_tr assms)+

lemma keeps_stash:
  assumes "\<And>op. P (EvFile op)"
  shows "keeps (extends P) (StashVolumeContext E vc p)" "keeps (extends P) (LookupVolumeContext E p)"
    "keeps (extends P) (CleanUpVolumeContext E p)"
  unfolding StashVolumeContext_def LookupVolumeContext_def CleanUpVolumeContext_def stashContext_def lookupContext_def
    cleanUpContext_def Let_def
  by (intro tr.keeps_rules keeps_file_calls assms)+

lemma keeps_IsMountPoint: "keeps (extends P) (IsMountPoint E p)" "keeps same_fs (IsMountPoint E p)"
  by (rule keepsI; auto simp: IsMountPoint_def service_def extends_def same_fs_def split: prod.splits)+

lemma keeps_orErr: "keeps (extends P) m \<Longrightarrow> keeps (extends P) (orErr m)"
  unfolding orErr_def by (intro tr.keeps_rules)

lemma keeps_mounts:
  "P (EvMount s t f fl) \<Longrightarrow> keeps (extends P) (Mount E s t f fl)"
  "P (EvFormatMount s t f fl opts) \<Longrightarrow> keeps (extends P) (FormatAndMount E s t f fl opts)"
  "P (EvUnmount p) \<Longrightarrow> keeps (extends P) (Unmount E p)"
  unfolding Mount_def FormatAndMount_def Unmount_def by (intro keeps_orErr keeps_service_tr; simp)+

text \<open>Events that neither take a lock nor sleep.\<close>

definition mount_event :: "event \<Rightarrow> bool" where
  "mount_event e \<longleftrightarrow> lock_free e \<and> slept e = 0"

lemma mount_event_simps [simp]:
  "mount_event (EvFile op)" "mount_event (EvMount s t f fl)" "mount_event (EvFormatMount s t f fl opts)"
  "mount_event (EvUnmount p)" "mount_event (EvResize s t)" "mount_event (EvCmd cmd)"
  by (simp_all add: mount_event_def)

lemmas keeps_node_calls = keeps_file_calls keeps_stash keeps_IsMountPoint(1) keeps_mounts keeps_output keeps_service_tr

lemma keeps_node_parts:
  "keeps (extends mount_event) (isStaged E p)" "keeps (extends mount_event) (createMountPoint E p)"
  "keeps (extends mount_event) (deleteMountPoint E p)" "keeps (extends mount_event) (contextDevice E v p)"
  "keeps (extends mount_event) (makeTargetFile E p)"
  unfolding isStaged_def createMountPoint_def deleteMountPoint_def contextDevice_def makeTargetFile_def MakeFile_def Let_def
  by (intro tr.keeps_rules keeps_node_calls; simp)+

lemma keeps_stageVolume: "keeps (extends mount_event) (stageVolume E d p req vc)"
  unfolding stageVolume_def Let_def by (intro tr.keeps_rules keeps_node_calls keeps_node_parts) simp_all

lemma keeps_publishVolume: "keeps (extends mount_event) (ns_publishVolume E p req)"
  unfolding ns_publishVolume_def Let_def
  by (cases "pb_AccessType req"; simp; intro tr.keeps_rules keeps_node_calls keeps_node_parts; simp)

lemma mount_free: "keeps (extends mount_event) m \<Longrightarrow> keeps (extends lock_free) m"
  "keeps (extends mount_event) m \<Longrightarrow> spends slept n m"
  by (erule keeps_mono, erule extends_mono, simp add: mount_event_def)
    (rule spends_free [where P = mount_event]; simp add: mount_event_def)

section \<open>Using an initiator\<close>

text \<open>
  What staging does once it has an initiator: connect, use the device, and disconnect if that fails. Only the
  contract of the initiator matters for it.
\<close>

lemma keeps_disconnectOnError:
  "keeps (extends P) disconnect \<Longrightarrow> keeps (extends P) m \<Longrightarrow> keeps (extends P) (disconnectOnError disconnect m)"
  unfolding disconnectOnError_def by (intro tr.keeps_rules)

lemma spends_disconnectOnError:
  "spends c a m \<Longrightarrow> spends c b disconnect \<Longrightarrow> a + b \<le> n \<Longrightarrow> spends c n (disconnectOnError disconnect m)"
  unfolding disconnectOnError_def
  by (rule spends_bindP [where a = a and b = b])
    (auto intro!: spends_sum spends_ret spends_bindP [where a = b and b = 0] spends_throw)

context device_contract begin

lemma session_lock_free:
  assumes "\<And>d. keeps (extends lock_free) (use d)"
  shows "keeps (extends lock_free) (bindE (mapErr g (connect i)) (\<lambda>d. disconnectOnError (disconnect i) (use d)))"
  by (intro tr.keeps_rules keeps_disconnectOnError keeps_lock_free connect_events disconnect_events assms)

lemma session_waits:
  assumes "\<And>d. spends slept 0 (use d)"
  shows "spends slept 63 (bindE (mapErr g (connect i)) (\<lambda>d. disconnectOnError (disconnect i) (use d)))"
  by (rule spends_bindE [where a = 42 and b = 21])
    (auto intro: spends_mapErr connect_waits spends_disconnectOnError [OF assms disconnect_waits])

end

section \<open>Locks and waiting\<close>

lemma stage_body:
  "keeps (extends lock_free) (bindE (mapErr toInternal (stageVolume E d p req vc)) (\<lambda>_. mapErr toInternal (StashVolumeContext E c q)))"
  "spends slept 0 (bindE (mapErr toInternal (stageVolume E d p req vc)) (\<lambda>_. mapErr toInternal (StashVolumeContext E c q)))"
  by (rule mount_free; intro tr.keeps_rules keeps_stageVolume keeps_stash; simp)+

lemma node_runs_locked:
  shows "runs_locked (st_VolumeId sreq) lock_free (ns_NodeStageVolume E sreq)"
    and "runs_locked volumeID lock_free (ns_NodeUnstageVolume E volumeID path)"
    and "runs_locked (pb_VolumeId preq) lock_free (ns_NodePublishVolume E preq)"
    and "runs_locked volumeID lock_free (ns_NodeUnpublishVolume E volumeID path)"
    and "keeps (extends lock_free) (ns_NodeExpandVolume E volumeID mountPath path)"
proof -
  show "runs_locked (st_VolumeId sreq) lock_free (ns_NodeStageVolume E sreq)"
    unfolding ns_NodeStageVolume_def Let_def
    by (intro runs_locked_withLock tr.keeps_rules mount_free keeps_node_parts dev.session_lock_free stage_body)
  show "runs_locked volumeID lock_free (ns_NodeUnstageVolume E volumeID path)"
    unfolding ns_NodeUnstageVolume_def Let_def
    by (intro runs_locked_withLock tr.keeps_rules mount_free(1) [OF keeps_node_parts(3)] keeps_stash
        keeps_lock_free [OF dev.disconnect_events]) simp_all
  show "runs_locked (pb_VolumeId preq) lock_free (ns_NodePublishVolume E preq)"
    unfolding ns_NodePublishVolume_def
    by (intro runs_locked_withLock tr.keeps_rules mount_free keeps_publishVolume)
  show "runs_locked volumeID lock_free (ns_NodeUnpublishVolume E volumeID path)"
    unfolding ns_NodeUnpublishVolume_def
    by (intro runs_locked_withLock tr.keeps_rules mount_free keeps_node_parts)
  show "keeps (extends lock_free) (ns_NodeExpandVolume E volumeID mountPath path)"
    unfolding ns_NodeExpandVolume_def
    by (intro tr.keeps_rules mount_free(1) [OF keeps_node_parts(4)] keeps_service_tr) simp_all
qed

text \<open>
  C6. Staging, unstaging, publishing and unpublishing each hold the lock of the volume identifier for their whole
  body and give it back on every path, panics included; expanding a volume takes no lock.
\<close>

theorem node_handlers_locked:
  "runs_locked (st_VolumeId sreq) lock_free (ns_NodeStageVolume E sreq) \<and>
   runs_locked volumeID lock_free (ns_NodeUnstageVolume E volumeID path) \<and>
   runs_locked (pb_VolumeId preq) lock_free (ns_NodePublishVolume E preq) \<and>
   runs_locked volumeID lock_free (ns_NodeUnpublishVolume E volumeID path) \<and>
   keeps (extends lock_free) (ns_NodeExpandVolume E volumeID mountPath path)"
  by (intro conjI node_runs_locked)

lemma spends_withLock: "spends slept n m \<Longrightarrow> spends slept n (withLock k m)"
proof (rule spendsI)
  fix w r w'
  assume m: "spends slept n m" and run: "withLock k m w = (r, w')"
  obtain q u where q: "m (locked k w) = (q, u)" by (cases "m (locked k w)")
  then have "w' = unlocked k u" using withLock_locked [where m = m and k = k and w = w, OF q] run by simp
  moreover obtain es where "w_trace u = w_trace (locked k w) @ es" "cost slept es \<le> n" using spendsD [OF m q] by blast
  ultimately show "\<exists>es. w_trace w' = w_trace w @ es \<and> cost slept es \<le> n"
    by (intro exI [of _ "EvLock k # es @ [EvUnlock k]"]) (simp add: locked_def unlocked_def cost_def)
qed

text \<open>
  C34. Staging a volume sleeps at most 63 seconds while it holds the lock (42 to connect, 21 to disconnect
  when something fails afterwards), unstaging at most 21, and publishing and unpublishing not at all.
\<close>

theorem node_handlers_wait:
  "spends slept 63 (ns_NodeStageVolume E sreq) \<and> spends slept 21 (ns_NodeUnstageVolume E volumeID path) \<and>
   spends slept 0 (ns_NodePublishVolume E preq) \<and> spends slept 0 (ns_NodeUnpublishVolume E volumeID path)"
proof (intro conjI)
  show "spends slept 63 (ns_NodeStageVolume E sreq)"
    unfolding ns_NodeStageVolume_def Let_def
    by (intro spends_withLock spends_rules spends_bindE [where a = 0 and b = 63] mount_free(2) keeps_node_parts
        dev.session_waits stage_body) simp_all
  show "spends slept 21 (ns_NodeUnstageVolume E volumeID path)"
    unfolding ns_NodeUnstageVolume_def Let_def
    by (intro spends_withLock spends_rules spends_bindE [OF spends_mapErr [OF mount_free(2) [OF keeps_node_parts(3)]], where b = 21]
        spends_bindE [OF spends_mapErr [OF mount_free(2) [OF keeps_stash(2)]], where b = 21]
        spends_bindE [where a = 0 and b = 21 and m = "ret _"] spends_bindE [OF spends_mapErr [OF dev.disconnect_waits], where b = 0]
        mount_free(2) keeps_stash) simp_all
  show "spends slept 0 (ns_NodePublishVolume E preq)"
    unfolding ns_NodePublishVolume_def by (intro spends_withLock spends_rules mount_free keeps_publishVolume)
  show "spends slept 0 (ns_NodeUnpublishVolume E volumeID path)"
    unfolding ns_NodeUnpublishVolume_def by (intro spends_withLock spends_rules mount_free keeps_node_parts)
qed

end
