(* ===== verification/Demo.thy ===== *)
theory Demo
  imports Nvmf
begin

text \<open>
  A concrete cluster for the examples: its secret file, its replies, and what the requests of the client
  return on them. The examples of the handlers are runs in this scenario; no property depends on it.
\<close>

section \<open>The scenario\<close>

definition demo_secret :: fs where
  "demo_secret = [([''etc''], FDir), ([''etc'', ''spdkcsi-secret''], FDir),
     ([''etc'', ''spdkcsi-secret'', ''secret.json''], FFile (jprint (JObj [(''clusters'', JArr [JObj
       [(''cluster_id'', JStr ''c1''), (''cluster_endpoint'', JStr ''http://sb''),
        (''cluster_secret'', JStr ''s3'')]])])))]"

definition demo_state :: "http_response list \<Rightarrow> event list \<Rightarrow> (goerr + http_response) list world" where
  "demo_state replies trace = \<lparr>w_ext = map Inr replies, w_fs = demo_secret, w_trace = trace\<rparr>"

definition demo_node :: NodeNVMf where
  "demo_node = NewNVMf ''c1'' ''http://sb'' ''s3''"

text \<open>The replies about a volume \<open>v-1\<close>: unknown, found, created, done, its connection, a failure.\<close>

definition missing_reply :: http_response where
  "missing_reply = \<lparr>rs_status = 404, rs_body = jprint (JObj [(''error'', JStr ''LVol: No such device'')])\<rparr>"

definition failure_reply :: http_response where
  "failure_reply = \<lparr>rs_status = 500, rs_body = []\<rparr>"

definition volume_reply :: http_response where
  "volume_reply = \<lparr>rs_status = 200, rs_body = jprint (JObj [(''results'', JArr [JObj
     [(''lvol_name'', JStr ''pvc-1''), (''uuid'', JStr ''v-1''), (''size'', jint 1073741824)]])])\<rparr>"

definition id_reply :: http_response where
  "id_reply = \<lparr>rs_status = 200, rs_body = jprint (JObj [(''results'', JStr ''v-1'')])\<rparr>"

definition done_reply :: http_response where
  "done_reply = \<lparr>rs_status = 200, rs_body = jprint (JObj [(''result'', JBool True)])\<rparr>"

definition connect_reply :: http_response where
  "connect_reply = \<lparr>rs_status = 200, rs_body = jprint (JObj [(''results'', JArr [JObj
     [(''nqn'', JStr ''nqn.2023:c1:lvol:v-1''), (''ip'', JStr ''10.0.0.1''), (''port'', jint 4420)]])])\<rparr>"

section \<open>Running in it\<close>

named_theorems demo_simps "runs in the scenario"

lemma demo_state_simps [demo_simps]:
  "w_ext (demo_state rs tr) = map Inr rs" "w_fs (demo_state rs tr) = demo_secret" "w_trace (demo_state rs tr) = tr"
  "(demo_state rs tr)\<lparr>w_trace := tr'\<rparr> = demo_state rs tr'"
  by (simp_all add: demo_state_def)

lemma demo_node_simps [demo_simps]:
  "rc_ClusterID (nd_Client demo_node) = ''c1''" "rc_HTTPClient (nd_Client demo_node)"
  by (simp_all add: demo_node_def NewNVMf_def)

lemma demo_service [demo_simps]:
  "service ev (\<lambda>x. ((), x)) (demo_state rs tr) = (Ret (), demo_state rs (tr @ ev))"
  by (simp add: service_def demo_state_def)

lemma demo_call [demo_simps]:
  "CallSBCLI demo_env (nd_Client demo_node) m p a (demo_state (r # rs) tr) =
    (Ret (sbcli_result (\<lambda>_. None) m r), demo_state rs (tr @ [EvHttp (sbcli_request (nd_Client demo_node) m p a)]))"
proof -
  have "rc_HTTPClient (nd_Client demo_node)" by (rule demo_node_simps)
  then show ?thesis
    by (simp add: CallSBCLI_run [where resp = r and x = "map Inr rs"] demo_state_def demo_env_def)
qed

definition demo_secret_path :: string where
  "demo_secret_path = ''/etc/spdkcsi-secret/secret.json''"

lemma demo_secret_read:
  "ReadFile demo_env demo_secret_path (demo_state rs tr) = (Ret (Inr (jprint (JObj [(''clusters'', JArr [JObj
       [(''cluster_id'', JStr ''c1''), (''cluster_endpoint'', JStr ''http://sb''),
        (''cluster_secret'', JStr ''s3'')]])]))), demo_state rs (tr @ [EvFile (OpRead demo_secret_path)]))"
proof -
  have "path_comps demo_secret_path = [''etc'', ''spdkcsi-secret'', ''secret.json'']" by code_simp
  then show ?thesis
    by (simp add: ReadFile_def pathErr_def bindP_def ret_def file_op_def demo_env_def demo_state_def fs_read_def
        node_at_def demo_secret_def del: jprint.simps jmembers.simps jelems.simps)
qed

lemma demo_client_run [demo_simps]:
  "NewsimplyBlockClient demo_env ''c1'' (demo_state rs tr) =
    (Ret (Inr demo_node), demo_state rs (tr @ [EvFile (OpRead demo_secret_path)]))"
proof -
  let ?doc = "JObj [(''clusters'', JArr [JObj
       [(''cluster_id'', JStr ''c1''), (''cluster_endpoint'', JStr ''http://sb''),
        (''cluster_secret'', JStr ''s3'')]])]"
  have "pick_cluster ''c1'' (case json_unmarshal dec_ClustersInfo [] (jprint ?doc) of Inr cs \<Rightarrow> cs) = Inr demo_node"
    and "\<not> isl (json_unmarshal dec_ClustersInfo [] (jprint ?doc))" by code_simp+
  then obtain cs where "json_unmarshal dec_ClustersInfo [] (jprint ?doc) = Inr cs"
    and "pick_cluster ''c1'' cs = Inr demo_node"
    by (cases "json_unmarshal dec_ClustersInfo [] (jprint ?doc)") auto
  moreover have "FromEnv demo_env ''SPDKCSI_SECRET'' ''/etc/spdkcsi-secret/secret.json'' = demo_secret_path"
    by (simp add: FromEnv_def demo_env_def demo_secret_path_def)
  ultimately show ?thesis
    by (simp add: NewsimplyBlockClient_def ParseJSONFile_def demo_secret_read prog_simps
        del: jprint.simps jmembers.simps jelems.simps)
qed

lemma demo_failure [demo_simps]:
  "sbcli_result f64 m failure_reply = Inl (ErrorString (status_line m 500))"
  by (simp add: sbcli_result_def failure_reply_def)

lemma demo_missing [demo_simps]:
  "sbcli_result f64 m missing_reply = Inl (ErrorString (status_line m 404 @ '' Error: LVol: No such device''))"
proof -
  have "valid_utf8 ''LVol: No such device''" by code_simp
  then have "sbcli_result f64 m missing_reply =
      Inl (ErrorString (status_line m 404 @ '' Error: '' @ ''LVol: No such device''))"
    unfolding missing_reply_def by (intro sbcli_result_error) simp_all
  then show ?thesis by simp
qed

definition volume_doc :: json where
  "volume_doc = (case sbcli_result (\<lambda>_. None) [] volume_reply of Inr v \<Rightarrow> v)"

definition connect_doc :: json where
  "connect_doc = (case sbcli_result (\<lambda>_. None) [] connect_reply of Inr v \<Rightarrow> v)"

lemma sbcli_result_method: "sbcli_result f64 m r = Inr v \<Longrightarrow> sbcli_result f64 m' r = Inr v"
  by (auto simp: sbcli_result_def Let_def split: if_splits sum.splits)

lemma demo_results [demo_simps]:
  "sbcli_result (\<lambda>_. None) m id_reply = Inr (JStr ''v-1'')"
  "sbcli_result (\<lambda>_. None) m done_reply = Inr (JBool True)"
  "sbcli_result (\<lambda>_. None) m volume_reply = Inr volume_doc"
  "sbcli_result (\<lambda>_. None) m connect_reply = Inr connect_doc"
proof -
  show "sbcli_result (\<lambda>_. None) m id_reply = Inr (JStr ''v-1'')"
    by (rule sbcli_result_method [where m = "[]"]) code_simp
  show "sbcli_result (\<lambda>_. None) m done_reply = Inr (JBool True)"
    by (rule sbcli_result_method [where m = "[]"]) code_simp
  show "sbcli_result (\<lambda>_. None) m volume_reply = Inr volume_doc"
    by (rule sbcli_result_method [where m = "[]"]) code_simp
  show "sbcli_result (\<lambda>_. None) m connect_reply = Inr connect_doc"
    by (rule sbcli_result_method [where m = "[]"]) code_simp
qed

lemma demo_volume [demo_simps]:
  "redecode (dec_slice dec_BDev zero_BDev) [] volume_doc =
    Inr [\<lparr>bd_Name = ''pvc-1'', bd_UUID = ''v-1'', bd_LvolSize = 1073741824\<rparr>]"
  by code_simp

definition connect_info :: LvolConnectResp where
  "connect_info = \<lparr>lc_Nqn = ''nqn.2023:c1:lvol:v-1'', lc_ReconnectDelay = 0, lc_NrIoQueues = 0,
     lc_CtrlLossTmo = 0, lc_Port = 4420, lc_IP = ''10.0.0.1'', lc_Connect = [], lc_NSID = 0\<rparr>"

lemma demo_connect [demo_simps]:
  "redecode (dec_slice (dec_ptr dec_LvolConnectResp zero_LvolConnectResp) None) [] connect_doc =
    Inr [Some connect_info]"
  by code_simp

lemma demo_matching [demo_simps]:
  "replaceMatching ErrJSONNoSuchDevice (ErrorString (status_line ''GET'' 404 @ '' Error: LVol: No such device'')) =
    ErrJSONNoSuchDevice"
  "replaceMatching ErrJSONNoSuchDevice (ErrorString (status_line ''DELETE'' 404 @ '' Error: LVol: No such device'')) =
    ErrJSONNoSuchDevice"
  "replaceMatching ErrJSONNoSuchDevice (ErrorString (status_line ''GET'' 500)) = ErrorString (status_line ''GET'' 500)"
  by code_simp+

text \<open>The requests of the node object on these replies.\<close>

lemma demo_GetVolume [demo_simps]:
  "node_GetVolume demo_env demo_node n p (demo_state (volume_reply # rs) tr) = (Ret (Inr ''v-1''),
    demo_state rs (tr @ [EvHttp (sbcli_request (nd_Client demo_node) ''GET'' (''/lvol/'' @ p @ ''/'' @ n) None)]))"
  "node_GetVolume demo_env demo_node n p (demo_state (missing_reply # rs) tr) = (Ret (Inl ErrJSONNoSuchDevice),
    demo_state rs (tr @ [EvHttp (sbcli_request (nd_Client demo_node) ''GET'' (''/lvol/'' @ p @ ''/'' @ n) None)]))"
  by (simp_all add: node_GetVolume_def getVolume_def prog_simps demo_simps)

lemma demo_VolumeInfo [demo_simps]:
  "node_VolumeInfo demo_env demo_node l (demo_state (connect_reply # rs) tr) =
    (Ret (Inr (volumeInfoMap l connect_info [\<lparr>ci_IP = ''10.0.0.1'', ci_Port = 4420\<rparr>])),
     demo_state rs (tr @ [EvHttp (sbcli_request (nd_Client demo_node) ''GET'' (''/lvol/connect/'' @ l) None)]))"
  "node_VolumeInfo demo_env demo_node l (demo_state (failure_reply # rs) tr) =
    (Ret (Inl (ErrorString (status_line ''GET'' 500))),
     demo_state rs (tr @ [EvHttp (sbcli_request (nd_Client demo_node) ''GET'' (''/lvol/connect/'' @ l) None)]))"
  by (simp_all add: node_VolumeInfo_def getVolumeInfo_def prog_simps demo_simps)
    (simp_all add: connect_info_def)

lemma demo_PublishVolume [demo_simps]:
  "node_PublishVolume demo_env demo_node l (demo_state (volume_reply # rs) tr) = (Ret (Inr ()),
    demo_state rs (tr @ [EvHttp (sbcli_request (nd_Client demo_node) ''GET'' (''/lvol/'' @ l) None)]))"
  "node_PublishVolume demo_env demo_node l (demo_state (missing_reply # rs) tr) =
    (Ret (Inl (ErrorString (status_line ''GET'' 404 @ '' Error: LVol: No such device''))),
     demo_state rs (tr @ [EvHttp (sbcli_request (nd_Client demo_node) ''GET'' (''/lvol/'' @ l) None)]))"
  by (simp_all add: node_PublishVolume_def prog_simps demo_simps)

lemma demo_UnpublishVolume [demo_simps]:
  "node_UnpublishVolume demo_env demo_node l (demo_state (volume_reply # rs) tr) = (Ret (Inr ()),
    demo_state rs (tr @ [EvHttp (sbcli_request (nd_Client demo_node) ''GET'' (''/lvol/'' @ l) None)]))"
  "node_UnpublishVolume demo_env demo_node l (demo_state (missing_reply # rs) tr) =
    (Ret (Inl (ErrorString (status_line ''GET'' 404 @ '' Error: LVol: No such device''))),
     demo_state rs (tr @ [EvHttp (sbcli_request (nd_Client demo_node) ''GET'' (''/lvol/'' @ l) None)]))"
  by (simp_all add: node_UnpublishVolume_def prog_simps demo_simps)

lemma demo_DeleteVolume [demo_simps]:
  "node_DeleteVolume demo_env demo_node l (demo_state (done_reply # rs) tr) = (Ret (Inr ()),
    demo_state rs (tr @ [EvHttp (sbcli_request (nd_Client demo_node) ''DELETE'' (''/lvol/'' @ l) None)]))"
  "node_DeleteVolume demo_env demo_node l (demo_state (missing_reply # rs) tr) = (Ret (Inl ErrJSONNoSuchDevice),
    demo_state rs (tr @ [EvHttp (sbcli_request (nd_Client demo_node) ''DELETE'' (''/lvol/'' @ l) None)]))"
  by (simp_all add: node_DeleteVolume_def deleteVolume_def prog_simps demo_simps)

lemma demo_CreateVolume [demo_simps]:
  "node_CreateVolume demo_env demo_node d (demo_state (id_reply # rs) tr) = (Ret (Inr ''v-1''),
    demo_state rs (tr @ [EvHttp (sbcli_request (nd_Client demo_node) ''POST'' ''/lvol'' (Some (enc_CreateLVolData d)))]))"
  by (simp add: node_CreateVolume_def createVolume_def as_string_def prog_simps demo_simps)

end
