(* ===== verification/ControllerFacts.thy ===== *)
theory ControllerFacts
  imports Controller Demo
begin

text \<open>
  What the handlers of the controller service guarantee: which requests they can cause, how their
  identifiers fit together, what a repeated or failing call does.
\<close>

section \<open>Requests the handlers cause\<close>

text \<open>What the calls of the Kubernetes client leave as it was: the files and the trace.\<close>

definition silent :: "'x world \<Rightarrow> 'x world \<Rightarrow> bool" where
  "silent w w' \<longleftrightarrow> w_fs w' = w_fs w \<and> w_trace w' = w_trace w"

interpretation sil: effect_rel silent
  by unfold_locales (simp_all add: silent_def)

lemma keeps_service_silent: "keeps silent (service [] f)"
  by (simp add: keeps_def silent_def service_def split: prod.splits)

lemma keeps_kubernetes:
  "keeps silent (pvcAnnotations E n ns)" "keeps silent (GetCryptoKeys E n ns)"
  "keeps silent (getHostIDAnnotation E n ns)" "keeps silent (getLvolIDAnnotation E n ns)"
  "keeps silent (getNvmfModelIDAnnotation E n ns)"
proof -
  have 1: "keeps silent (pvcAnnotations E n ns)" for n ns
    unfolding pvcAnnotations_def by (intro sil.keeps_rules keeps_service_silent)
  show "keeps silent (pvcAnnotations E n ns)" by (rule 1)
  show "keeps silent (GetCryptoKeys E n ns)"
    unfolding GetCryptoKeys_def Let_def by (intro sil.keeps_rules keeps_service_silent 1)
  show "keeps silent (getHostIDAnnotation E n ns)" "keeps silent (getLvolIDAnnotation E n ns)"
    "keeps silent (getNvmfModelIDAnnotation E n ns)"
    unfolding getHostIDAnnotation_def getLvolIDAnnotation_def getNvmfModelIDAnnotation_def
    by (intro sil.keeps_rules 1)+
qed

lemma prepare_silent: "keeps silent (prepareCreateVolumeReq E req sizeMiB)"
  unfolding prepareCreateVolumeReq_def requestedKeys_def Let_def
  by (intro sil.keeps_rules keeps_kubernetes)

lemma keeps_prepareCreateVolumeReq: "keeps (extends P) (prepareCreateVolumeReq E req sizeMiB)"
  by (rule keeps_mono [OF prepare_silent]) (simp add: silent_def extends_def)

lemma keeps_cs_createVolume:
  assumes "{''GET'', ''POST''} \<subseteq> ms"
  shows "keeps (extends (sends ms)) (cs_createVolume E req sbclient)"
proof -
  have get: "''GET'' \<in> ms" and post: "''POST'' \<in> ms" using assms by auto
  note node = keeps_node_get [OF get] keeps_node_post [OF post] keeps_NewsimplyBlockClient
  have snap: "keeps (extends (sends ms)) (handleSnapshotSource E s req p v n)" for s p v n
    unfolding handleSnapshotSource_def Let_def by (intro tr.keeps_rules node)
  have vol: "keeps (extends (sends ms)) (handleVolumeSource E s req p v n)" for s p v n
    unfolding handleVolumeSource_def Let_def by (intro tr.keeps_rules node)
  have src: "keeps (extends (sends ms)) (handleVolumeContentSource E s req p v n)" for s p v n
    unfolding handleVolumeContentSource_def by (cases s) (simp_all add: snap vol tr.keeps_throw)
  show ?thesis
    unfolding cs_createVolume_def getExistingVolume_def Let_def
    by (intro tr.keeps_rules node src keeps_prepareCreateVolumeReq)
qed

lemma keeps_cs_unpublishVolume: "''GET'' \<in> ms \<Longrightarrow> keeps (extends (sends ms)) (cs_unpublishVolume E volumeID)"
  unfolding cs_unpublishVolume_def by (intro tr.keeps_rules keeps_NewsimplyBlockClient keeps_node_get)

lemma keeps_cs_publishVolume: "''GET'' \<in> ms \<Longrightarrow> keeps (extends (sends ms)) (cs_publishVolume E volumeID sbclient)"
  unfolding cs_publishVolume_def
  by (intro tr.keeps_rules keeps_NewsimplyBlockClient keeps_node_get keeps_cs_unpublishVolume)

lemma keeps_cs_deleteVolume: "''DELETE'' \<in> ms \<Longrightarrow> keeps (extends (sends ms)) (cs_deleteVolume E volumeID)"
  unfolding cs_deleteVolume_def by (intro tr.keeps_rules keeps_NewsimplyBlockClient keeps_node_delete)

lemma keeps_ListClusters: "keeps (extends (sends ms)) (ListClusters E)"
  unfolding ListClusters_def ParseJSONFile_def by (intro tr.keeps_rules keeps_ReadFile_tr) simp

lemma keeps_collectSnapshots: "''GET'' \<in> ms \<Longrightarrow> keeps (extends (sends ms)) (collectSnapshots E clusters)"
proof (induction clusters)
  case (Cons c clusters)
  then show ?case unfolding collectSnapshots.simps
    by (intro tr.keeps_rules keeps_NewsimplyBlockClient keeps_node_get) assumption
qed (simp add: tr.keeps_ret)

lemma keeps_snapshotResponses: "keeps (extends P) (snapshotResponses entries)"
proof (induction entries rule: snapshotResponses.induct)
  case (3 entry entries)
  then show ?case unfolding snapshotResponses.simps by (intro tr.keeps_rules)
qed (simp_all add: tr.keeps_ret tr.keeps_panic)

lemma keeps_cs_ListSnapshots: "''GET'' \<in> ms \<Longrightarrow> keeps (extends (sends ms)) (cs_ListSnapshots E)"
  unfolding cs_ListSnapshots_def
  by (intro tr.keeps_rules keeps_ListClusters keeps_collectSnapshots keeps_snapshotResponses)

lemma keeps_cs_ControllerExpandVolume:
  "''PUT'' \<in> ms \<Longrightarrow> keeps (extends (sends ms)) (cs_ControllerExpandVolume E volumeID sz)"
  unfolding cs_ControllerExpandVolume_def
  by (intro tr.keeps_rules keeps_NewsimplyBlockClient keeps_node_put)

section \<open>Locking\<close>

lemma controller_runs_locked:
  shows "runs_locked (cvr_Name req) (sends {''GET'', ''POST'', ''DELETE''}) (cs_CreateVolume E req)"
    and "runs_locked volumeID (sends {''GET'', ''DELETE''}) (cs_DeleteVolume E volumeID)"
    and "runs_locked volumeID (sends {''GET'', ''POST''}) (cs_CreateSnapshot E volumeID snapshotName)"
    and "runs_locked volumeID (sends {''GET''}) (cs_ControllerGetVolume E volumeID)"
proof -
  show "runs_locked (cvr_Name req) (sends {''GET'', ''POST'', ''DELETE''}) (cs_CreateVolume E req)"
    unfolding cs_CreateVolume_def
    by (intro runs_locked_withLock tr.keeps_rules keeps_NewsimplyBlockClient keeps_cs_createVolume
        keeps_cs_publishVolume keeps_cs_deleteVolume) simp_all
  show "runs_locked volumeID (sends {''GET'', ''DELETE''}) (cs_DeleteVolume E volumeID)"
    unfolding cs_DeleteVolume_def Let_def
    by (intro runs_locked_withLock tr.keeps_rules keeps_cs_unpublishVolume keeps_cs_deleteVolume) simp_all
  show "runs_locked volumeID (sends {''GET'', ''POST''}) (cs_CreateSnapshot E volumeID snapshotName)"
    unfolding cs_CreateSnapshot_def
    by (intro runs_locked_withLock tr.keeps_rules keeps_NewsimplyBlockClient keeps_node_post keeps_node_get
        keeps_service_tr) simp_all
  show "runs_locked volumeID (sends {''GET''}) (cs_ControllerGetVolume E volumeID)"
    unfolding cs_ControllerGetVolume_def
    by (intro runs_locked_withLock tr.keeps_rules keeps_NewsimplyBlockClient keeps_node_get) simp_all
qed

text \<open>
  C5. Creating, deleting, snapshotting and looking up a volume each hold the lock of one key for their whole
  body and give it back on every path; the requests they can send are \<open>GET\<close>, \<open>POST\<close> and \<open>DELETE\<close> for
  creation (the last when publishing fails), \<open>GET\<close> and \<open>DELETE\<close> for deletion, \<open>GET\<close> and \<open>POST\<close> for a snapshot
  and \<open>GET\<close> for a lookup. Creation locks the requested name, the others the volume identifier. Listing snapshots
  and expanding a volume take no lock at all, and send \<open>GET\<close> requests only and \<open>PUT\<close> requests only.
\<close>

theorem controller_handlers_locked:
  "runs_locked (cvr_Name req) (sends {''GET'', ''POST'', ''DELETE''}) (cs_CreateVolume E req) \<and>
   runs_locked volumeID (sends {''GET'', ''DELETE''}) (cs_DeleteVolume E volumeID) \<and>
   runs_locked volumeID (sends {''GET'', ''POST''}) (cs_CreateSnapshot E volumeID snapshotName) \<and>
   runs_locked volumeID (sends {''GET''}) (cs_ControllerGetVolume E volumeID) \<and>
   keeps (extends (sends {''GET''})) (cs_ListSnapshots E) \<and>
   keeps (extends (sends {''PUT''})) (cs_ControllerExpandVolume E volumeID sz)"
  by (intro conjI controller_runs_locked keeps_cs_ListSnapshots keeps_cs_ControllerExpandVolume) simp_all

section \<open>Identifiers\<close>

text \<open>
  C28. A string is accepted as a volume identifier exactly if it is \<open>cluster:pool:volume\<close> with no further colon,
  and then the three parts come back; as a snapshot identifier exactly if it is \<open>cluster:snapshot\<close>. No string is
  both.
\<close>

theorem identifiers_parse:
  "(getSPDKVol s = Inr v \<longleftrightarrow> s = volume_id v \<and> plain_volume v) \<and>
   (getSnapshot s = Inr t \<longleftrightarrow> s = snapshot_id t \<and> plain_snapshot t) \<and>
   \<not> (getSPDKVol s = Inr v \<and> getSnapshot s = Inr t)"
proof -
  have "volume_id v \<noteq> snapshot_id t" if "plain_volume v" "plain_snapshot t"
  proof
    assume "volume_id v = snapshot_id t"
    moreover have "count_list (volume_id v) (CHR '':'') = 2" "count_list (snapshot_id t) (CHR '':'') = 1"
      using that by (simp_all add: plain_volume_def plain_snapshot_def volume_id_def snapshot_id_def count_notin)
    ultimately show False by simp
  qed
  then show ?thesis by (auto simp: getSPDKVol_Inr getSnapshot_Inr)
qed

section \<open>Creating a volume\<close>

definition poolName :: "CreateVolumeRequest \<Rightarrow> string" where
  "poolName req = get0 (cvr_Parameters req) ''pool_name''"

lemma handleVolumeContentSource_Some:
  assumes "handleVolumeContentSource E src req pool vol n w = (Ret (Inr (Some v)), w')"
  shows "\<exists>sb uuid. v = with_id sb pool uuid vol"
  using assms
  by (auto simp: handleVolumeContentSource_def handleSnapshotSource_def handleVolumeSource_def Let_def
      ret_def throw_def elim!: bindE_InrE split: VolumeContentSource.splits option.splits)

text \<open>
  The volume a successful creation returns has the requested capacity, rounded, and an identifier in the
  requested pool; without a content source it is on the given client's cluster.
\<close>

lemma cs_createVolume_Inr:
  assumes "cs_createVolume E req sb w = (Ret (Inr vol), w')"
  shows "\<exists>sb' uuid. vol = with_id sb' (poolName req) uuid (newVolume req) \<and>
    (cvr_ContentSource req = None \<longrightarrow> sb' = sb)"
proof -
  let ?old = "getExistingVolume E (cvr_Name req) (poolName req) sb (newVolume req)"
  obtain r w1 where old: "?old w = (Ret r, w1)"
    using assms unfolding cs_createVolume_def Let_def poolName_def by (auto elim!: bindP_RetE)
  show ?thesis
  proof (cases r)
    case (Inr v)
    then have "v = vol" using assms old unfolding cs_createVolume_def Let_def poolName_def
      by (simp add: prog_simps)
    moreover have "\<exists>uuid. v = with_id sb (poolName req) uuid (newVolume req)"
      using old Inr unfolding getExistingVolume_def by (auto elim!: bindE_InrE simp: ret_def)
    ultimately show ?thesis by blast
  next
    case (Inl e)
    then show ?thesis using assms old unfolding cs_createVolume_def Let_def poolName_def
      by (auto simp: bindP_Ret ret_def elim!: bindE_InrE split: option.splits)
        (blast dest: handleVolumeContentSource_Some)+
  qed
qed

lemma cs_createVolume_existing:
  assumes "node_GetVolume E sb (cvr_Name req) (poolName req) w = (Ret (Inr uuid), w1)"
  shows "cs_createVolume E req sb w = (Ret (Inr (with_id sb (poolName req) uuid (newVolume req))), w1)"
  using assms unfolding cs_createVolume_def getExistingVolume_def Let_def poolName_def
  by (simp add: prog_simps)

lemma with_id_simps [simp]:
  "vol_VolumeId (with_id sb pool uuid vol) = volume_id \<lparr>sv_clusterID = rc_ClusterID (nd_Client sb),
     sv_lvolID = uuid, sv_poolName = pool\<rparr>"
  "vol_CapacityBytes (with_id sb pool uuid vol) = vol_CapacityBytes vol"
  "vol_VolumeContext (with_id sb pool uuid vol) = vol_VolumeContext vol"
  by (simp_all add: with_id_def)

lemma cs_CreateVolume_InrE:
  assumes "cs_CreateVolume E req w = (Ret (Inr vol), w')"
  obtains clusterID sb created volInfo w1 w2 w3 where
    "map_of (cvr_Parameters req) ''cluster_id'' = Some clusterID"
    "NewsimplyBlockClient E clusterID (locked (cvr_Name req) w) = (Ret (Inr sb), w1)"
    "cs_createVolume E req sb w1 = (Ret (Inr created), w2)"
    "cs_publishVolume E (vol_VolumeId created) sb w2 = (Ret (Inr volInfo), w3)"
    "vol = created\<lparr>vol_VolumeContext := volumeContext (vol_VolumeContext created) volInfo\<rparr>"
    "w' = unlocked (cvr_Name req) w3"
  using assms unfolding cs_CreateVolume_def
  by (auto simp: ret_def throw_def elim!: withLock_RetE bindE_InrE bindP_RetE dest!: mapErr_InrE
      split: option.splits sum.splits)

lemma cs_publishVolume_plain:
  assumes "cs_publishVolume E volumeID sb w = (Ret (Inr volInfo), w')"
  shows "\<exists>v. getSPDKVol volumeID = Inr v"
  using assms unfolding cs_publishVolume_def by (auto simp: ret_def elim!: bindE_InrE)

lemma volume_id_parts:
  assumes "getSPDKVol (volume_id v) = Inr u"
  shows "u = v"
proof -
  have eq: "volume_id v = volume_id u" and u: "plain_volume u" using assms by (simp_all add: getSPDKVol_Inr)
  have "count_list (volume_id v) (CHR '':'') = 2"
    unfolding eq using u by (simp add: volume_id_def plain_volume_def count_notin)
  then have "plain_volume v"
    by (simp add: volume_id_def plain_volume_def count_list_0_iff)
  then show ?thesis using volid.enc_inj u eq by metis
qed

lemma requested_capacity:
  assumes "0 \<le> n" and "n \<le> 2 ^ 63 - 2 ^ 20"
  shows "n \<le> wrap64 (ToMiB n * 1024 * 1024)" and "wrap64 (ToMiB n * 1024 * 1024) < n + 2 ^ 20"
proof -
  have T: "ToMiB n = (n + 2 ^ 20 - 1) div 2 ^ 20" using ToMiB_nonneg [OF assms] .
  obtain q r where qr: "(n + 2 ^ 20 - 1) div 2 ^ 20 = q" "n + 2 ^ 20 - 1 = q * 2 ^ 20 + r" "0 \<le> r" "r < 2 ^ 20"
    by (metis div_mult_mod_eq pos_mod_bound pos_mod_sign zero_less_numeral zero_less_power)
  then have "int64_range (q * 1024 * 1024)" using assms by (simp add: int64_range_def)
  then have "wrap64 (ToMiB n * 1024 * 1024) = q * 1024 * 1024" using T qr(1) by (simp add: wrap64_id)
  then show "n \<le> wrap64 (ToMiB n * 1024 * 1024)" "wrap64 (ToMiB n * 1024 * 1024) < n + 2 ^ 20"
    using qr(2-4) by simp_all
qed


section \<open>Examples of creation\<close>

definition demo_create :: CreateVolumeRequest where
  "demo_create = \<lparr>cvr_Name = ''pvc-1'', cvr_RequiredBytes = 1073741825,
     cvr_Parameters = [(''cluster_id'', ''c1''), (''pool_name'', ''p1'')], cvr_ContentSource = None\<rparr>"

lemma demo_create_simps [demo_simps]:
  "cvr_Name demo_create = ''pvc-1''" "cvr_ContentSource demo_create = None" "poolName demo_create = ''p1''"
  "map_of (cvr_Parameters demo_create) ''cluster_id'' = Some ''c1''"
  "get0 (cvr_Parameters demo_create) ''pool_name'' = ''p1''"
  "cvr_RequiredBytes demo_create = 1073741825" "requestedSize demo_create = 1073741825"
  by (simp_all add: demo_create_def poolName_def get0_def requestedSize_def)

lemma demo_locked [demo_simps]:
  "locked k (demo_state rs tr) = demo_state rs (tr @ [EvLock k])"
  "unlocked k (demo_state rs tr) = demo_state rs (tr @ [EvUnlock k])"
  by (simp_all add: locked_def unlocked_def demo_simps)

definition demo_volume :: Volume where
  "demo_volume = with_id demo_node ''p1'' ''v-1'' (newVolume demo_create)"

lemma demo_volume_id [demo_simps]:
  "getSPDKVol (vol_VolumeId demo_volume) = Inr \<lparr>sv_clusterID = ''c1'', sv_lvolID = ''v-1'', sv_poolName = ''p1''\<rparr>"
  by (simp add: demo_volume_def demo_simps volid.dec_enc plain_volume_def)

lemma demo_prepare:
  "\<exists>d. \<forall>rs tr. prepareCreateVolumeReq demo_env demo_create n (demo_state rs tr) = (Ret (Inr d), demo_state rs tr)"
proof -
  have "pvcAnnotations demo_env a b (demo_state rs tr) = (Ret (Inr []), demo_state rs tr)" for a b rs tr
    by (simp add: pvcAnnotations_def service_def demo_env_def demo_state_def bindP_def mapErr_def ret_def)
  then show ?thesis
    by (simp add: prepareCreateVolumeReq_def requestedKeys_def getIntParameter_def getBoolParameter_def
        getHostIDAnnotation_def getLvolIDAnnotation_def getNvmfModelIDAnnotation_def prog_simps Let_def
        demo_create_def)
qed

text \<open>A creation from scratch, one of a volume that exists, and the publishing after it.\<close>

lemma demo_createVolume_new:
  "\<exists>tr'. cs_createVolume demo_env demo_create demo_node (demo_state (missing_reply # id_reply # rs) tr) =
    (Ret (Inr demo_volume), demo_state rs tr')"
proof -
  obtain d where "prepareCreateVolumeReq demo_env demo_create (ToMiB 1073741825) (demo_state rs tr) =
      (Ret (Inr d), demo_state rs tr)" for rs tr
    using demo_prepare by blast
  then show ?thesis
    by (simp add: cs_createVolume_def getExistingVolume_def Let_def prog_simps demo_simps demo_volume_def) blast
qed

lemma demo_publish [demo_simps]:
  "cs_publishVolume demo_env (vol_VolumeId demo_volume) demo_node (demo_state (volume_reply # connect_reply # rs) tr) =
    (Ret (Inr (volumeInfoMap ''v-1'' connect_info [\<lparr>ci_IP = ''10.0.0.1'', ci_Port = 4420\<rparr>])), demo_state rs
      (tr @ [EvHttp (sbcli_request (nd_Client demo_node) ''GET'' ''/lvol/v-1'' None),
             EvHttp (sbcli_request (nd_Client demo_node) ''GET'' ''/lvol/connect/v-1'' None)]))"
  by (simp add: cs_publishVolume_def prog_simps demo_simps)

lemma demo_created:
  "\<exists>vol w'. cs_CreateVolume demo_env demo_create
      (demo_state [missing_reply, id_reply, volume_reply, connect_reply] []) = (Ret (Inr vol), w')"
proof -
  obtain tr' where "cs_createVolume demo_env demo_create demo_node
      (demo_state [missing_reply, id_reply, volume_reply, connect_reply]
        [EvLock ''pvc-1'', EvFile (OpRead demo_secret_path)]) =
      (Ret (Inr demo_volume), demo_state [volume_reply, connect_reply] tr')"
    using demo_createVolume_new by blast
  then show ?thesis
    by (simp add: cs_CreateVolume_def withLock_locked prog_simps demo_simps)
qed


end
