(* ===== verification/Server.thy ===== *)
theory Server
  imports Driver NodeFacts ControllerFacts
begin

text \<open>
  The requests a running driver serves. The gRPC library calls the interceptor \<open>logGRPC\<close> with a method of one of the
  three servers; which method that is follows from Go's rules for embedded structs: the server's own method if it
  has one, otherwise the method of the default server it embeds (\<^verbatim>\<open>controllerserver-default.go\<close>,
  \<^verbatim>\<open>nodeserver-default.go\<close>, \<^verbatim>\<open>identityserver-default.go\<close>), reached through the server's pointer.
\<close>

section \<open>Requests and responses\<close>

datatype controller_request =
    ReqCreateVolume CreateVolumeRequest
  | ReqDeleteVolume string
  | ReqControllerPublishVolume
  | ReqControllerUnpublishVolume
  | ReqValidateVolumeCapabilities "access_mode list"
  | ReqListVolumes
  | ReqGetCapacity
  | ReqControllerGetVolume string
  | ReqControllerGetCapabilities
  | ReqCreateSnapshot string string
  | ReqDeleteSnapshot string
  | ReqListSnapshots
  | ReqControllerExpandVolume string int

datatype controller_response =
    RespVolume Volume
  | RespDone
  | RespConfirmed "access_mode list option"
  | RespGetVolume GetVolumeResponse
  | RespControllerCapabilities "rpc_type list"
  | RespSnapshot Snapshot
  | RespSnapshots "Snapshot list"
  | RespExpand ExpandResponse

datatype node_request =
    ReqNodeStageVolume StageRequest
  | ReqNodeUnstageVolume string string
  | ReqNodePublishVolume PublishRequest
  | ReqNodeUnpublishVolume string string
  | ReqNodeGetInfo
  | ReqNodeGetCapabilities
  | ReqNodeGetVolumeStats
  | ReqNodeExpandVolume string string string

datatype node_response =
    RespNodeDone
  | RespNodeInfo string
  | RespNodeCapabilities "node_rpc_type list"

datatype identity_request = ReqGetPluginInfo | ReqProbe | ReqGetPluginCapabilities

datatype identity_response =
    RespPluginInfo "string \<times> string"
  | RespProbe
  | RespPluginCapabilities "plugin_capability list"

section \<open>The default servers\<close>

text \<open>All their methods; \<open>GetPluginInfo\<close> and its like are defined in \<open>CsiCommon\<close>.\<close>

fun DefaultControllerServer_method ::
  "DefaultControllerServer \<Rightarrow> controller_request \<Rightarrow> ('x, controller_response) ioE" where
  "DefaultControllerServer_method cs (ReqCreateVolume req) = unimplemented"
| "DefaultControllerServer_method cs (ReqDeleteVolume volumeID) = unimplemented"
| "DefaultControllerServer_method cs ReqControllerPublishVolume = unimplemented"
| "DefaultControllerServer_method cs ReqControllerUnpublishVolume = unimplemented"
| "DefaultControllerServer_method cs (ReqValidateVolumeCapabilities caps) = unimplemented"
| "DefaultControllerServer_method cs ReqListVolumes = unimplemented"
| "DefaultControllerServer_method cs ReqGetCapacity = unimplemented"
| "DefaultControllerServer_method cs (ReqControllerGetVolume volumeID) = unimplemented"
| "DefaultControllerServer_method cs ReqControllerGetCapabilities =
     ret (Inr (RespControllerCapabilities (DefaultControllerGetCapabilities (dc_Driver cs))))"
| "DefaultControllerServer_method cs (ReqCreateSnapshot volumeID name) = unimplemented"
| "DefaultControllerServer_method cs (ReqDeleteSnapshot snapshotID) = unimplemented"
| "DefaultControllerServer_method cs ReqListSnapshots = unimplemented"
| "DefaultControllerServer_method cs (ReqControllerExpandVolume volumeID newSize) = unimplemented"

fun DefaultNodeServer_method :: "DefaultNodeServer \<Rightarrow> node_request \<Rightarrow> ('x, node_response) ioE" where
  "DefaultNodeServer_method ns (ReqNodePublishVolume req) = unimplemented"
| "DefaultNodeServer_method ns (ReqNodeUnpublishVolume volumeID targetPath) = unimplemented"
| "DefaultNodeServer_method ns ReqNodeGetInfo = ret (Inr (RespNodeInfo (DefaultNodeGetInfo (dn_Driver ns))))"
| "DefaultNodeServer_method ns ReqNodeGetCapabilities = ret (Inr (RespNodeCapabilities DefaultNodeGetCapabilities))"
| "DefaultNodeServer_method ns ReqNodeGetVolumeStats = unimplemented"
| "DefaultNodeServer_method ns (ReqNodeStageVolume req) = unimplemented"
| "DefaultNodeServer_method ns (ReqNodeUnstageVolume volumeID stagingPath) = unimplemented"
| "DefaultNodeServer_method ns (ReqNodeExpandVolume volumeID volumePath stagingPath) = unimplemented"

fun DefaultIdentityServer_method ::
  "DefaultIdentityServer \<Rightarrow> identity_request \<Rightarrow> ('x, identity_response) ioE" where
  "DefaultIdentityServer_method ids ReqGetPluginInfo =
     ret (map_sum id RespPluginInfo (DefaultGetPluginInfo (di_Driver ids)))"
| "DefaultIdentityServer_method ids ReqProbe = ret (map_sum id (\<lambda>_. RespProbe) DefaultProbe)"
| "DefaultIdentityServer_method ids ReqGetPluginCapabilities =
     ret (Inr (RespPluginCapabilities DefaultGetPluginCapabilities))"

section \<open>The servers of the driver\<close>

text \<open>
  The receiver of a method is a pointer, which may be nil; a method that uses it, for its lock table or for the
  embedded default server, panics then. Methods that do not use it run all the same.
\<close>

definition nil_deref :: "('x, 'a) io" where
  "nil_deref = panic ''invalid memory address or nil pointer dereference''"

definition deref :: "'s option \<Rightarrow> ('s \<Rightarrow> ('x, 'a) io) \<Rightarrow> ('x, 'a) io" where
  "deref p f = (case p of None \<Rightarrow> nil_deref | Some s \<Rightarrow> f s)"

definition answer :: "('a \<Rightarrow> 'b) \<Rightarrow> ('x, 'a) ioE \<Rightarrow> ('x, 'b) ioE" where
  "answer f m = bindE m (\<lambda>a. ret (Inr (f a)))"

text \<open>\<open>DeleteSnapshot\<close> reads the lock table only after the identifier was parsed and a client was made.\<close>

definition DeleteSnapshot_nil :: "'x env \<Rightarrow> string \<Rightarrow> ('x, unit) ioE" where
  "DeleteSnapshot_nil E snapshotID =
     bindE (ret (getSnapshot snapshotID)) (\<lambda>snapshot.
     bindE (mapErr toInternal (NewsimplyBlockClient E (ss_clusterID snapshot))) (\<lambda>sbclient. nil_deref))"

fun controllerServer_method ::
  "'x env \<Rightarrow> controllerServer option \<Rightarrow> controller_request \<Rightarrow> ('x, controller_response) ioE" where
  "controllerServer_method E cs (ReqCreateVolume req) = deref cs (\<lambda>_. answer RespVolume (cs_CreateVolume E req))"
| "controllerServer_method E cs (ReqDeleteVolume volumeID) =
     deref cs (\<lambda>_. answer (\<lambda>_. RespDone) (cs_DeleteVolume E volumeID))"
| "controllerServer_method E cs (ReqValidateVolumeCapabilities caps) =
     (if caps = [] then ret (Inr (RespConfirmed (Some [])))
      else deref cs (\<lambda>s. ret (Inr (RespConfirmed (ValidateVolumeCapabilities (dc_Driver (co_Default s)) caps)))))"
| "controllerServer_method E cs (ReqControllerGetVolume volumeID) =
     deref cs (\<lambda>_. answer RespGetVolume (cs_ControllerGetVolume E volumeID))"
| "controllerServer_method E cs (ReqCreateSnapshot volumeID name) =
     deref cs (\<lambda>_. answer RespSnapshot (cs_CreateSnapshot E volumeID name))"
| "controllerServer_method E cs (ReqDeleteSnapshot snapshotID) =
     answer (\<lambda>_. RespDone)
       (case cs of None \<Rightarrow> DeleteSnapshot_nil E snapshotID | Some _ \<Rightarrow> cs_DeleteSnapshot E snapshotID)"
| "controllerServer_method E cs ReqListSnapshots = answer RespSnapshots (cs_ListSnapshots E)"
| "controllerServer_method E cs (ReqControllerExpandVolume volumeID newSize) =
     answer RespExpand (cs_ControllerExpandVolume E volumeID newSize)"
| "controllerServer_method E cs req = deref cs (\<lambda>s. DefaultControllerServer_method (co_Default s) req)"

fun nodeServer_method :: "'x env \<Rightarrow> nodeServer option \<Rightarrow> node_request \<Rightarrow> ('x, node_response) ioE" where
  "nodeServer_method E ns (ReqNodeStageVolume req) =
     deref ns (\<lambda>_. answer (\<lambda>_. RespNodeDone) (ns_NodeStageVolume E req))"
| "nodeServer_method E ns (ReqNodeUnstageVolume volumeID stagingPath) =
     deref ns (\<lambda>_. answer (\<lambda>_. RespNodeDone) (ns_NodeUnstageVolume E volumeID stagingPath))"
| "nodeServer_method E ns (ReqNodePublishVolume req) =
     deref ns (\<lambda>_. answer (\<lambda>_. RespNodeDone) (ns_NodePublishVolume E req))"
| "nodeServer_method E ns (ReqNodeUnpublishVolume volumeID targetPath) =
     deref ns (\<lambda>_. answer (\<lambda>_. RespNodeDone) (ns_NodeUnpublishVolume E volumeID targetPath))"
| "nodeServer_method E ns ReqNodeGetCapabilities = ret (Inr (RespNodeCapabilities ns_NodeGetCapabilities))"
| "nodeServer_method E ns ReqNodeGetVolumeStats = answer (\<lambda>_. RespNodeDone) ns_NodeGetVolumeStats"
| "nodeServer_method E ns (ReqNodeExpandVolume volumeID volumePath stagingPath) =
     answer (\<lambda>_. RespNodeDone) (ns_NodeExpandVolume E volumeID volumePath stagingPath)"
| "nodeServer_method E ns req = deref ns (\<lambda>s. DefaultNodeServer_method (no_Default s) req)"

fun identityServer_method ::
  "'x env \<Rightarrow> identityServer option \<Rightarrow> identity_request \<Rightarrow> ('x, identity_response) ioE" where
  "identityServer_method E ids ReqGetPluginCapabilities = ret (Inr (RespPluginCapabilities GetPluginCapabilities))"
| "identityServer_method E ids req = deref ids (\<lambda>s. DefaultIdentityServer_method (id_Default s) req)"

text \<open>A request to the running driver, through the interceptor.\<close>

datatype csi_request =
    ToIdentity identity_request
  | ToController controller_request
  | ToNode node_request

datatype csi_response =
    FromIdentity identity_response
  | FromController controller_response
  | FromNode node_response

fun served :: "'x env \<Rightarrow> servers \<Rightarrow> csi_request \<Rightarrow> ('x, csi_response) ioE" where
  "served E svs (ToIdentity req) = logGRPC (\<lambda>req. answer FromIdentity (identityServer_method E (sv_ids svs) req)) req"
| "served E svs (ToController req) = logGRPC (\<lambda>req. answer FromController (controllerServer_method E (sv_cs svs) req)) req"
| "served E svs (ToNode req) = logGRPC (\<lambda>req. answer FromNode (nodeServer_method E (sv_ns svs) req)) req"

section \<open>Lock events of a request\<close>

text \<open>The lock a request takes; the others take none.\<close>

fun request_key :: "csi_request \<Rightarrow> string option" where
  "request_key (ToController (ReqCreateVolume req)) = Some (cvr_Name req)"
| "request_key (ToController (ReqDeleteVolume volumeID)) = Some volumeID"
| "request_key (ToController (ReqControllerGetVolume volumeID)) = Some volumeID"
| "request_key (ToController (ReqCreateSnapshot volumeID name)) = Some volumeID"
| "request_key (ToController (ReqDeleteSnapshot snapshotID)) = Some snapshotID"
| "request_key (ToNode (ReqNodeStageVolume req)) = Some (st_VolumeId req)"
| "request_key (ToNode (ReqNodeUnstageVolume volumeID stagingPath)) = Some volumeID"
| "request_key (ToNode (ReqNodePublishVolume req)) = Some (pb_VolumeId req)"
| "request_key (ToNode (ReqNodeUnpublishVolume volumeID targetPath)) = Some volumeID"
| "request_key _ = None"

text \<open>
  A trace whose lock events are those of a goroutine that takes one lock at a time: the first argument is the lock
  it holds at the start, and it holds none at the end.
\<close>

fun locks_well :: "string option \<Rightarrow> event list \<Rightarrow> bool" where
  "locks_well held [] \<longleftrightarrow> held = None"
| "locks_well held (EvLock k # es) \<longleftrightarrow> held = None \<and> locks_well (Some k) es"
| "locks_well held (EvUnlock k # es) \<longleftrightarrow> held = Some k \<and> locks_well None es"
| "locks_well held (e # es) \<longleftrightarrow> locks_well held es"

lemma locks_well_free: "list_all lock_free es \<Longrightarrow> locks_well held (es @ fs) \<longleftrightarrow> locks_well held fs"
proof (induction es)
  case (Cons e es)
  then show ?case by (cases e) auto
qed simp

text \<open>The traces a request with the given key can leave.\<close>

definition bracketed :: "string option \<Rightarrow> event list \<Rightarrow> bool" where
  "bracketed key t \<longleftrightarrow> list_all lock_free t \<or>
     (\<exists>k pre es. key = Some k \<and> t = pre @ EvLock k # es @ [EvUnlock k] \<and> list_all lock_free pre \<and> list_all lock_free es)"

lemma bracketedI:
  "list_all lock_free pre \<Longrightarrow> list_all lock_free es \<Longrightarrow> bracketed (Some k) (pre @ EvLock k # es @ [EvUnlock k])"
  unfolding bracketed_def by blast

lemma bracketed_well: "bracketed key t \<Longrightarrow> locks_well None t"
  using locks_well_free [of t None "[]"] by (auto simp: bracketed_def locks_well_free)

definition leaves :: "string option \<Rightarrow> ('x, 'a) io \<Rightarrow> bool" where
  "leaves key m \<longleftrightarrow> (\<forall>w. \<exists>t. w_trace (snd (m w)) = w_trace w @ t \<and> bracketed key t)"

lemma leaves_free: "keeps (extends lock_free) m \<Longrightarrow> leaves key m"
  unfolding leaves_def keeps_def extends_def bracketed_def by meson

lemma leaves_locked:
  assumes "runs_locked k P m" and "\<And>e. P e \<Longrightarrow> lock_free e"
  shows "leaves (Some k) m"
  unfolding leaves_def
proof
  fix w
  obtain es where es: "w_trace (snd (m w)) = w_trace w @ EvLock k # es @ [EvUnlock k]" "list_all P es"
    using assms(1) unfolding runs_locked_def by blast
  then have "bracketed (Some k) ([] @ EvLock k # es @ [EvUnlock k])"
    using assms(2) by (intro bracketedI) (simp_all add: list_all_iff)
  then show "\<exists>t. w_trace (snd (m w)) = w_trace w @ t \<and> bracketed (Some k) t"
    using es(1) by (intro exI [of _ "EvLock k # es @ [EvUnlock k]"]) simp
qed

lemma leaves_prefix:
  assumes m: "keeps (extends lock_free) m" and f: "\<And>a. leaves key (f a)"
  shows "leaves key (bindE m f)"
  unfolding leaves_def
proof
  fix w
  obtain r u where run: "m w = (r, u)" by (cases "m w")
  obtain es where es: "w_trace u = w_trace w @ es" "list_all lock_free es"
    using keepsD [OF m run] by (auto simp: extends_def)
  show "\<exists>t. w_trace (snd (bindE m f w)) = w_trace w @ t \<and> bracketed key t"
  proof (cases "\<exists>a. r = Ret (Inr a)")
    case True
    then obtain a where "bindE m f w = f a u" using run by (auto simp: prog_simps)
    moreover obtain t where "w_trace (snd (f a u)) = w_trace u @ t" "bracketed key t"
      using f unfolding leaves_def by blast
    moreover have "bracketed key (es @ t)" if "bracketed key t" for t
      using that es(2) unfolding bracketed_def by (metis append.assoc list_all_append)
    ultimately show ?thesis using es(1) by auto
  next
    case False
    then have "snd (bindE m f w) = u" using run by (cases r) (auto simp: prog_simps split: sum.splits, metis bindE_Inl obj_sumE snd_conv)
    then show ?thesis using es by (auto simp: bracketed_def)
  qed
qed

lemma answer_state [simp]: "snd (answer f m w) = snd (m w)"
  by (auto simp: answer_def bindE_def bindP_def ret_def throw_def split: prod.splits outcome.splits sum.splits)

lemma leaves_answer: "leaves key m \<Longrightarrow> leaves key (answer f m)"
  by (simp add: leaves_def)

lemma leaves_deref: "(\<And>s. leaves key (f s)) \<Longrightarrow> leaves key (deref p f)"
  by (cases p) (auto simp: deref_def nil_deref_def intro: leaves_free tr.keeps_panic)

lemma sends_free: "sends ms e \<Longrightarrow> lock_free e"
  by (induction ms e rule: sends.induct) auto

lemma keeps_sends_free: "keeps (extends (sends ms)) m \<Longrightarrow> keeps (extends lock_free) m"
  by (erule keeps_mono) (erule extends_mono, rule sends_free)

lemma default_methods_free:
  "keeps (extends P) (DefaultControllerServer_method cs creq)" "keeps (extends P) (DefaultNodeServer_method ns nreq)"
  "keeps (extends P) (DefaultIdentityServer_method ids ireq)"
  subgoal by (cases creq) (simp_all add: unimplemented_def tr.keeps_throw tr.keeps_ret)
  subgoal by (cases nreq) (simp_all add: unimplemented_def tr.keeps_throw tr.keeps_ret)
  subgoal by (cases ireq) (simp_all add: tr.keeps_ret)
  done

lemma leaves_DeleteSnapshot: "leaves (Some snapshotID) (cs_DeleteSnapshot E snapshotID)"
  unfolding cs_DeleteSnapshot_def
  by (intro leaves_prefix leaves_locked [where P = lock_free] runs_locked_withLock tr.keeps_rules
      keeps_sends_free [OF keeps_NewsimplyBlockClient] keeps_sends_free [OF keeps_node_delete(2) [OF singletonI]])
    simp_all

lemma leaves_DeleteSnapshot_nil: "leaves key (DeleteSnapshot_nil E snapshotID)"
  unfolding DeleteSnapshot_nil_def nil_deref_def
  by (intro leaves_free tr.keeps_rules keeps_sends_free [OF keeps_NewsimplyBlockClient])

lemma leaves_option: "leaves key m \<Longrightarrow> (\<And>s. leaves key (g s)) \<Longrightarrow> leaves key (case p of None \<Rightarrow> m | Some s \<Rightarrow> g s)"
  by (cases p) simp_all

lemma leaves_unimplemented: "leaves key unimplemented"
  unfolding unimplemented_def by (intro leaves_free tr.keeps_throw)

lemmas leaves_intros = leaves_deref leaves_answer leaves_option leaves_unimplemented leaves_free [OF tr.keeps_ret]

lemmas controller_leaves = leaves_locked [OF controller_runs_locked(1) sends_free]
  leaves_locked [OF controller_runs_locked(2) sends_free] leaves_locked [OF controller_runs_locked(3) sends_free]
  leaves_locked [OF controller_runs_locked(4) sends_free] leaves_DeleteSnapshot leaves_DeleteSnapshot_nil
  leaves_free [OF keeps_sends_free [OF keeps_cs_ListSnapshots [OF singletonI]]]
  leaves_free [OF keeps_sends_free [OF keeps_cs_ControllerExpandVolume [OF singletonI]]]

lemmas node_leaves = leaves_locked [OF node_runs_locked(1)] leaves_locked [OF node_runs_locked(2)]
  leaves_locked [OF node_runs_locked(3)] leaves_locked [OF node_runs_locked(4)] leaves_free [OF node_runs_locked(5)]

lemma leaves_served: "leaves (request_key req) (served E svs req)"
proof (cases req)
  case (ToController creq)
  then show ?thesis by (cases creq; simp; intro leaves_intros controller_leaves conjI impI)
next
  case (ToNode nreq)
  then show ?thesis
    by (cases nreq; simp add: ns_NodeGetVolumeStats_def flip: unimplemented_def; intro leaves_intros node_leaves)
next
  case (ToIdentity ireq)
  then show ?thesis by (cases ireq; simp; intro leaves_intros)
qed

text \<open>
  Most handlers are about one volume and hold its lock for their whole body (creation holds the name, since there is no
  identifier yet). Expanding a volume takes no lock, and deleting a snapshot takes the lock of the snapshot later.
\<close>

fun volume_key :: "csi_request \<Rightarrow> string option" where
  "volume_key (ToController (ReqCreateVolume req)) = Some (cvr_Name req)"
| "volume_key (ToController (ReqDeleteVolume volumeID)) = Some volumeID"
| "volume_key (ToController (ReqControllerGetVolume volumeID)) = Some volumeID"
| "volume_key (ToController (ReqCreateSnapshot volumeID name)) = Some volumeID"
| "volume_key (ToNode (ReqNodeStageVolume req)) = Some (st_VolumeId req)"
| "volume_key (ToNode (ReqNodeUnstageVolume volumeID stagingPath)) = Some volumeID"
| "volume_key (ToNode (ReqNodePublishVolume req)) = Some (pb_VolumeId req)"
| "volume_key (ToNode (ReqNodeUnpublishVolume volumeID targetPath)) = Some volumeID"
| "volume_key _ = None"

text \<open>A run of a request: the events it leaves from some world. A nil server panics before it leaves any.\<close>

definition run_of :: "'x env \<Rightarrow> servers \<Rightarrow> csi_request \<Rightarrow> event list \<Rightarrow> bool" where
  "run_of E svs req t \<longleftrightarrow> (\<exists>w. w_trace (snd (served E svs req w)) = w_trace w @ t)"

definition whole :: "string \<Rightarrow> event list \<Rightarrow> bool" where
  "whole k t \<longleftrightarrow> t = [] \<or> (\<exists>es. t = EvLock k # es @ [EvUnlock k] \<and> list_all lock_free es)"

definition runs_whole :: "string \<Rightarrow> ('x, 'a) io \<Rightarrow> bool" where
  "runs_whole k m \<longleftrightarrow> (\<forall>w. \<exists>t. w_trace (snd (m w)) = w_trace w @ t \<and> whole k t)"

lemma whole_locked:
  assumes "runs_locked k P m" and "\<And>e. P e \<Longrightarrow> lock_free e"
  shows "runs_whole k (deref p (\<lambda>_. answer f m))"
proof (cases p)
  case None
  then show ?thesis by (simp add: runs_whole_def whole_def deref_def nil_deref_def panic_def)
next
  case (Some s)
  have "\<exists>t. w_trace (snd (m w)) = w_trace w @ t \<and> whole k t" for w
  proof -
    obtain es where "w_trace (snd (m w)) = w_trace w @ EvLock k # es @ [EvUnlock k]" "list_all P es"
      using assms(1) unfolding runs_locked_def by blast
    then show ?thesis using assms(2) by (intro exI [of _ "EvLock k # es @ [EvUnlock k]"]) (auto simp: whole_def list_all_iff)
  qed
  then show ?thesis using Some by (simp add: runs_whole_def deref_def)
qed

lemma whole_answer: "runs_whole k m \<Longrightarrow> runs_whole k (answer f m)"
  by (simp add: runs_whole_def)

lemmas whole_intros = whole_answer whole_locked [OF controller_runs_locked(1) sends_free]
  whole_locked [OF controller_runs_locked(2) sends_free] whole_locked [OF controller_runs_locked(3) sends_free]
  whole_locked [OF controller_runs_locked(4) sends_free] whole_locked [OF node_runs_locked(1)]
  whole_locked [OF node_runs_locked(2)] whole_locked [OF node_runs_locked(3)] whole_locked [OF node_runs_locked(4)]

lemma run_whole:
  assumes "volume_key req = Some k" and "run_of E svs req t"
  shows "whole k t"
proof -
  have "runs_whole k (served E svs req)"
  proof (cases req)
    case (ToController creq)
    then show ?thesis using assms(1) by (cases creq) (auto intro: whole_intros)
  next
    case (ToNode nreq)
    then show ?thesis using assms(1) by (cases nreq) (auto intro: whole_intros)
  qed (use assms(1) in simp)
  then show ?thesis using assms(2) unfolding runs_whole_def run_of_def by (metis same_append_eq)
qed

section \<open>A driver that is configured, and one that is not\<close>

text \<open>The servers of \<open>Run\<close>.\<close>

lemma Run_servers:
  assumes "Run E conf w = (Ret (listening, svs), w')"
  shows "\<exists>cd. Run_driver conf = Some cd \<and> sv_ids svs = Some (newIdentityServer cd) \<and>
    (if cf_IsControllerServer conf then \<exists>cs. sv_cs svs = Some cs \<and> co_Default cs = NewDefaultControllerServer cd
     else sv_cs svs = None) \<and>
    (if cf_IsNodeServer conf then \<exists>ns. sv_ns svs = Some ns \<and> no_Default ns = NewDefaultNodeServer cd
     else sv_ns svs = None)"
proof -
  obtain cd w1 w2 where cd: "Run_driver conf = Some cd" and ns: "Run_node E conf cd w = (Ret (sv_ns svs), w1)"
    and cs: "Run_controller conf cd w1 = (Ret (sv_cs svs), w2)" and ids: "sv_ids svs = Some (newIdentityServer cd)"
    using assms by (rule Run_RetE)
  have "if cf_IsControllerServer conf then \<exists>cs. sv_cs svs = Some cs \<and> co_Default cs = NewDefaultControllerServer cd
      else sv_cs svs = None"
    using cs by (auto simp: Run_controller_def newControllerServer_def ret_def eq_commute [where b = "sv_cs svs"]
        split: if_splits)
  moreover have "no_Default n = NewDefaultNodeServer cd" if "newNodeServer E cd w = (Ret (Inr n), u)" for n u
    using that by (auto simp: newNodeServer_def Let_def ret_def elim!: bindP_RetE bindE_InrE split: if_splits sum.splits)
  then have "if cf_IsNodeServer conf then \<exists>ns. sv_ns svs = Some ns \<and> no_Default ns = NewDefaultNodeServer cd
      else sv_ns svs = None"
    using ns by (auto simp: Run_node_def panic_def ret_def eq_commute [where b = "sv_ns svs"] elim!: bindP_RetE
        split: if_splits sum.splits)
  ultimately show ?thesis using cd ids by blast
qed

lemma Run_driver_fields:
  assumes "Run_driver conf = Some cd"
  shows "dr_name cd = cf_DriverName conf" "dr_version cd = cf_DriverVersion conf" "dr_nodeID cd = cf_NodeID conf"
    "cf_DriverName conf \<noteq> []" "cf_DriverVersion conf \<noteq> []" "dr_cap cd = (if cf_IsControllerServer conf then controllerCaps else [])"
  using assms
  by (auto simp: Run_driver_def NewCSIDriver_def AddVolumeCapabilityAccessModes_def Let_def
      AddControllerServiceCapabilities_def NewControllerServiceCapability_def [abs_def] map_ident split: if_splits)

text \<open>
  What a running driver tells about itself is what it was configured with: its name and version, the node it is on
  if it serves the node, the capabilities of \<open>Run\<close> if it is the controller. Telling changes nothing.
\<close>

theorem driver_tells_configuration:
  assumes "Run E conf w = (Ret (listening, svs), w')"
  shows "served E svs (ToIdentity ReqGetPluginInfo) v =
      (Ret (Inr (FromIdentity (RespPluginInfo (cf_DriverName conf, cf_DriverVersion conf)))), v) \<and>
    (cf_IsNodeServer conf \<longrightarrow> served E svs (ToNode ReqNodeGetInfo) v =
      (Ret (Inr (FromNode (RespNodeInfo (cf_NodeID conf)))), v)) \<and>
    (cf_IsControllerServer conf \<longrightarrow> served E svs (ToController ReqControllerGetCapabilities) v =
      (Ret (Inr (FromController (RespControllerCapabilities controllerCaps))), v))"
proof -
  obtain cd where cd: "Run_driver conf = Some cd" and svs: "sv_ids svs = Some (newIdentityServer cd)"
    "cf_IsControllerServer conf \<longrightarrow> (\<exists>cs. sv_cs svs = Some cs \<and> co_Default cs = NewDefaultControllerServer cd)"
    "cf_IsNodeServer conf \<longrightarrow> (\<exists>ns. sv_ns svs = Some ns \<and> no_Default ns = NewDefaultNodeServer cd)"
    using Run_servers [OF assms] by (auto split: if_splits)
  show ?thesis
    using svs by (auto simp: deref_def answer_def prog_simps newIdentityServer_def NewDefaultIdentityServer_def
        NewDefaultControllerServer_def NewDefaultNodeServer_def DefaultGetPluginInfo_def DefaultNodeGetInfo_def
        DefaultControllerGetCapabilities_def Run_driver_fields [OF cd])
qed

theorem driver_tells_configuration_witness:
  "served demo_env node_servers (ToNode ReqNodeGetInfo) (demo_world [] []) =
     (Ret (Inr (FromNode (RespNodeInfo ''n1''))), demo_world [] [])"
proof -
  obtain services w' where "Run demo_env node_conf (demo_world [] []) =
      (Ret ((''unix'', ''/tmp/spdkcsi.sock'', services), node_servers), w')"
    using node_conf_run by blast
  from driver_tells_configuration [OF this] show ?thesis by (simp add: node_conf_def)
qed

text \<open>What a method does with its receiver: use it before anything else, use it after other calls, or never.\<close>

datatype receiver_use = AtOnce | Later | Never

fun controller_receiver :: "controller_request \<Rightarrow> receiver_use" where
  "controller_receiver (ReqValidateVolumeCapabilities caps) = (if caps = [] then Never else AtOnce)"
| "controller_receiver (ReqDeleteSnapshot snapshotID) = Later"
| "controller_receiver ReqListSnapshots = Never"
| "controller_receiver (ReqControllerExpandVolume volumeID newSize) = Never"
| "controller_receiver _ = AtOnce"

fun node_receiver :: "node_request \<Rightarrow> receiver_use" where
  "node_receiver ReqNodeGetCapabilities = Never"
| "node_receiver ReqNodeGetVolumeStats = Never"
| "node_receiver (ReqNodeExpandVolume volumeID volumePath stagingPath) = Never"
| "node_receiver _ = AtOnce"

text \<open>How a service answers a request that found its server nil.\<close>

definition without_server :: "receiver_use \<Rightarrow> ('s option \<Rightarrow> ('x, 'a) ioE) \<Rightarrow> bool" where
  "without_server use m = (case use of
     AtOnce \<Rightarrow> m None = nil_deref
   | Later \<Rightarrow> (\<forall>v. \<not> (\<exists>a v'. m None v = (Ret (Inr a), v')))
   | Never \<Rightarrow> (\<forall>s. m None = m (Some s)))"

lemma answer_nil: "answer f nil_deref = nil_deref"
  by (rule ext) (simp add: answer_def nil_deref_def panic_def prog_simps)

lemma DeleteSnapshot_nil_fails: "DeleteSnapshot_nil E snapshotID v \<noteq> (Ret (Inr a), v')"
  unfolding DeleteSnapshot_nil_def nil_deref_def panic_def by (auto elim!: bindE_InrE)

lemma answer_InrD: "answer f m v = (Ret (Inr b), v') \<Longrightarrow> \<exists>a. m v = (Ret (Inr a), v')"
  unfolding answer_def by (auto simp: ret_def elim!: bindE_InrE)

lemma controller_without:
  "without_server (controller_receiver creq) (\<lambda>s. answer f (controllerServer_method E s creq))"
  by (cases creq) (auto simp: without_server_def deref_def answer_nil DeleteSnapshot_nil_fails dest!: answer_InrD)

lemma node_without: "without_server (node_receiver nreq) (\<lambda>s. answer f (nodeServer_method E s nreq))"
  by (cases nreq) (simp_all add: without_server_def deref_def answer_nil)

text \<open>
  C38. A service the driver was not configured for is registered all the same, with a nil server. A request whose method
  uses the server at once crashes the driver: these are all but listing and expanding, and deleting a snapshot, of the
  controller service (and a validation of no capabilities), and all but expanding, the capabilities and the volume
  statistics of the node service. Deleting a snapshot never succeeds. The remaining requests are answered as if the
  driver had been configured for the service.
\<close>

theorem unconfigured_service_panics:
  assumes "Run E conf w = (Ret (listening, svs), w')"
  shows "(\<not> cf_IsControllerServer conf \<longrightarrow> (case controller_receiver creq of
      AtOnce \<Rightarrow> served E svs (ToController creq) v = (Panicked ''invalid memory address or nil pointer dereference'', v)
    | Later \<Rightarrow> \<not> (\<exists>resp v'. served E svs (ToController creq) v = (Ret (Inr resp), v'))
    | Never \<Rightarrow> served E svs (ToController creq) v = served E (svs\<lparr>sv_cs := Some cs\<rparr>) (ToController creq) v)) \<and>
    (\<not> cf_IsNodeServer conf \<longrightarrow> (case node_receiver nreq of
      AtOnce \<Rightarrow> served E svs (ToNode nreq) v = (Panicked ''invalid memory address or nil pointer dereference'', v)
    | Later \<Rightarrow> False
    | Never \<Rightarrow> served E svs (ToNode nreq) v = served E (svs\<lparr>sv_ns := Some ns\<rparr>) (ToNode nreq) v))"
proof -
  have "sv_cs svs = None" if "\<not> cf_IsControllerServer conf" using Run_servers [OF assms] that by auto
  moreover have "sv_ns svs = None" if "\<not> cf_IsNodeServer conf" using Run_servers [OF assms] that by auto
  moreover have "node_receiver nreq \<noteq> Later" by (cases nreq) simp_all
  ultimately show ?thesis
    using controller_without [of creq FromController E] node_without [of nreq FromNode E]
    by (auto simp: without_server_def nil_deref_def panic_def split: receiver_use.splits)
qed

theorem unconfigured_service_panics_witness:
  "served demo_env node_servers (ToController (ReqDeleteVolume ''c:p:v'')) (demo_world [] []) =
     (Panicked ''invalid memory address or nil pointer dereference'', demo_world [] [])"
proof -
  obtain services w' where "Run demo_env node_conf (demo_world [] []) =
      (Ret ((''unix'', ''/tmp/spdkcsi.sock'', services), node_servers), w')"
    using node_conf_run by blast
  from unconfigured_service_panics [OF this, of "ReqDeleteVolume ''c:p:v''"] show ?thesis
    by (simp add: node_conf_def default_conf_def)
qed

end
