(* ===== verification/LockSpec.thy ===== *)
theory LockSpec
  imports VolumeLocks
begin

text \<open>
  What the locks promise, without mutexes and lookups: a map from identifiers to the goroutine that holds their lock.
  The machine of \<^verbatim>\<open>idlocker.go\<close> implements it step by step.
\<close>

type_synonym holders = "string \<rightharpoonup> nat"

inductive spec_step :: "holders \<Rightarrow> holders \<Rightarrow> bool" where
  take_lock: "h volumeID = None \<Longrightarrow> spec_step h (h(volumeID \<mapsto> i))"
| give_back: "h volumeID = Some i \<Longrightarrow> spec_step h (h(volumeID := None))"
| internal: "spec_step h h"

inductive_simps spec_step_simps: "spec_step h h'"

definition implements :: "lock_sys \<Rightarrow> holders \<Rightarrow> bool" where
  "implements s h \<longleftrightarrow> (\<forall>volumeID i. h volumeID = Some i \<longleftrightarrow> holds_lock s volumeID i)"

lemma implements_init: "implements lock_init Map.empty"
  by (simp add: implements_def holds_lock_def lock_init_def)

lemma holds_update:
  "holds_lock (s\<lparr>ls_table := t, ls_pc := (ls_pc s)(i := g)\<rparr>) k j \<longleftrightarrow>
     (if j = i then \<exists>p. g = Holding k p else holds_lock s k j)"
  "holds_lock (s\<lparr>ls_pc := (ls_pc s)(i := g)\<rparr>) k j \<longleftrightarrow> (if j = i then \<exists>p. g = Holding k p else holds_lock s k j)"
  by (simp_all add: holds_lock_def)

text \<open>A mutex that a goroutine can acquire is held by no one under that identifier.\<close>

lemma free_mutex_unheld:
  assumes "lock_reach s" and "ls_pc s i = Blocked k p" and "\<not> vl_locked (ls_table s) p"
  shows "\<not> holds_lock s k j"
proof
  note D = lock_invD [OF lock_reach_inv [OF assms(1)]]
  assume "holds_lock s k j"
  then obtain q where q: "ls_pc s j = Holding k q" by (auto simp: holds_lock_def)
  then have "q = p" using D(3) [of j k q] D(3) [of i k p] assms(2) by simp
  then show False using D(6) [OF q] assms(3) by simp
qed

lemma implements_take:
  assumes "implements s h" and "\<And>j. \<not> holds_lock s k j" and "ls_pc s i = Blocked k p"
  shows "h k = None \<and> implements (s\<lparr>ls_table := t, ls_pc := (ls_pc s)(i := Holding k p)\<rparr>) (h(k \<mapsto> i))"
proof
  have h: "h l = Some j \<longleftrightarrow> holds_lock s l j" for l j using assms(1) by (simp add: implements_def)
  show "h k = None" using h assms(2) by (cases "h k") auto
  show "implements (s\<lparr>ls_table := t, ls_pc := (ls_pc s)(i := Holding k p)\<rparr>) (h(k \<mapsto> i))"
    using h assms(2,3) by (auto simp: implements_def holds_update) (auto simp: holds_lock_def)
qed

lemma implements_give:
  assumes "implements s h" and "ls_pc s i = Holding k p"
  shows "h k = Some i \<and> implements (s\<lparr>ls_table := t, ls_pc := (ls_pc s)(i := Outside)\<rparr>) (h(k := None))"
proof
  have h: "h l = Some j \<longleftrightarrow> holds_lock s l j" for l j using assms(1) by (simp add: implements_def)
  show i: "h k = Some i" using h assms(2) by (auto simp: holds_lock_def)
  have only: "holds_lock s k j \<Longrightarrow> j = i" for j using h [of k j] i by simp
  have "(h(k := None)) l = Some j \<longleftrightarrow> (if j = i then False else holds_lock s l j)" for l j
  proof (cases "l = k")
    case True
    then show ?thesis using only [of j] by auto
  next
    case False
    then have "\<not> holds_lock s l i" using assms(2) by (simp add: holds_lock_def)
    then show ?thesis using False h [of l j] by auto
  qed
  then show "implements (s\<lparr>ls_table := t, ls_pc := (ls_pc s)(i := Outside)\<rparr>) (h(k := None))"
    by (simp add: implements_def holds_update)
qed

text \<open>
  C3. The lock machine refines this specification: from a reachable state that stands for a map of holders, every step
  of a goroutine (calling, looking up or making the mutex, acquiring, unlocking) is one step of the
  specification: taking a lock nobody holds, giving back a lock one holds, or nothing.
\<close>

theorem locks_refine_spec:
  assumes "lock_reach s" and "implements s h" and "lock_step s t"
  shows "\<exists>h'. spec_step h h' \<and> implements t h'"
proof -
  have h: "h k = Some j \<longleftrightarrow> holds_lock s k j" for k j using assms(2) by (simp add: implements_def)
  from assms(3) show ?thesis
  proof cases
    case (call i volumeID)
    then have "implements t h" using h by (auto simp: implements_def holds_update) (simp add: holds_lock_def)
    then show ?thesis using spec_step.internal by blast
  next
    case (load i volumeID p vl)
    then have "implements t h" using h by (auto simp: implements_def holds_update) (simp add: holds_lock_def)
    then show ?thesis using spec_step.internal by blast
  next
    case (acquire i volumeID p)
    show ?thesis
      using implements_take [OF assms(2) free_mutex_unheld [OF assms(1) acquire(2,3)] acquire(2)] spec_step.take_lock
      unfolding acquire(1) by blast
  next
    case (unlock i volumeID p)
    show ?thesis using implements_give [OF assms(2) unlock(2)] spec_step.give_back unfolding unlock(1) by blast
  qed
qed

theorem locks_refine_spec_witness:
  "\<exists>t h'. lock_step locked_by_0 t \<and> spec_step [''v'' \<mapsto> 0] h' \<and> implements t h'"
proof -
  have "lock_step locked_by_0 (locked_by_0\<lparr>ls_table := (ls_table locked_by_0)\<lparr>vl_locked :=
      (vl_locked (ls_table locked_by_0))(0 := False)\<rparr>, ls_pc := (ls_pc locked_by_0)(0 := Outside)\<rparr>)"
    by (rule lock_step.unlock) (simp add: locked_by_0_def)
  moreover have "implements locked_by_0 [''v'' \<mapsto> 0]"
    by (auto simp: implements_def holds_lock_def locked_by_0_def split: if_splits)
  ultimately show ?thesis using locks_refine_spec [OF locked_by_0_reach] by blast
qed

end
