(* ===== verification/Concurrency.thy ===== *)
theory Concurrency
  imports Server LockSpec
begin

text \<open>
  The driver under load: any number of goroutines, each serving one request of a service after the other, with the
  steps of their handlers interleaved in any order. The controller server and the node server have a lock table each,
  so there is one such system per service; a driver that runs both is the two side by side. What a handler does on its way depends on the outside, which the others change
  under its feet; so a goroutine may leave any trace that its request leaves from some world, one event at a time.
  The lock events of these traces go through the lock table of \<open>VolumeLocks\<close>, step by step.
\<close>

section \<open>Goroutines\<close>

text \<open>
  The state: the lock table with the position of every goroutine in \<open>Lock\<close>, the request every goroutine serves or served
  last, the events it still has before it, and the trace of all of them, each event with its goroutine and the request
  it belongs to.
\<close>

record plugin =
  pl_locks :: lock_sys
  pl_request :: "nat \<Rightarrow> csi_request option"
  pl_rest :: "nat \<Rightarrow> event list"
  pl_trace :: "(nat \<times> csi_request option \<times> event) list"

definition plugin_init :: plugin where
  "plugin_init = \<lparr>pl_locks = lock_init, pl_request = (\<lambda>_. None), pl_rest = (\<lambda>_. []), pl_trace = []\<rparr>"

fun held :: "goroutine \<Rightarrow> string option" where
  "held (Holding k p) = Some k"
| "held _ = None"

abbreviation pc :: "plugin \<Rightarrow> nat \<Rightarrow> goroutine" where
  "pc c i \<equiv> ls_pc (pl_locks c) i"

definition emit :: "nat \<Rightarrow> lock_sys \<Rightarrow> plugin \<Rightarrow> plugin" where
  "emit i locks c =
     c\<lparr>pl_locks := locks, pl_rest := (pl_rest c)(i := tl (pl_rest c i)),
       pl_trace := pl_trace c @ [(i, pl_request c i, hd (pl_rest c i))]\<rparr>"

text \<open>The steps of the goroutines on their requests, and the arrival of a request for the service.\<close>

fun service_of :: "csi_request \<Rightarrow> csi_service" where
  "service_of (ToIdentity req) = IdentityService"
| "service_of (ToController req) = ControllerService"
| "service_of (ToNode req) = NodeService"

inductive work :: "plugin \<Rightarrow> plugin \<Rightarrow> bool" where
  calls: "pl_rest c i = EvLock k # es \<Longrightarrow> pc c i = Outside \<Longrightarrow>
     work c (c\<lparr>pl_locks := (pl_locks c)\<lparr>ls_pc := (ls_pc (pl_locks c))(i := Calling k)\<rparr>\<rparr>)"
| loads: "pc c i = Calling k \<Longrightarrow> LoadOrStore (ls_table (pl_locks c)) k = (p, vl) \<Longrightarrow>
     work c (c\<lparr>pl_locks := (pl_locks c)\<lparr>ls_table := vl, ls_pc := (ls_pc (pl_locks c))(i := Blocked k p)\<rparr>\<rparr>)"
| acquires: "pc c i = Blocked k p \<Longrightarrow> \<not> vl_locked (ls_table (pl_locks c)) p \<Longrightarrow>
     work c (emit i ((pl_locks c)\<lparr>ls_table := (ls_table (pl_locks c))\<lparr>vl_locked :=
         (vl_locked (ls_table (pl_locks c)))(p := True)\<rparr>, ls_pc := (ls_pc (pl_locks c))(i := Holding k p)\<rparr>) c)"
| unlocks: "pl_rest c i = EvUnlock k # es \<Longrightarrow> pc c i = Holding j p \<Longrightarrow>
     work c (emit i ((pl_locks c)\<lparr>ls_table := (ls_table (pl_locks c))\<lparr>vl_locked :=
         (vl_locked (ls_table (pl_locks c)))(p := False)\<rparr>, ls_pc := (ls_pc (pl_locks c))(i := Outside)\<rparr>) c)"
| runs: "pl_rest c i = e # es \<Longrightarrow> lock_free e \<Longrightarrow> work c (emit i (pl_locks c) c)"

inductive arrives :: "'x env \<Rightarrow> servers \<Rightarrow> csi_service \<Rightarrow> plugin \<Rightarrow> plugin \<Rightarrow> bool" for E svs srv where
  "pl_rest c i = [] \<Longrightarrow> service_of req = srv \<Longrightarrow> run_of E svs req t \<Longrightarrow>
     arrives E svs srv c (c\<lparr>pl_request := (pl_request c)(i := Some req), pl_rest := (pl_rest c)(i := t)\<rparr>)"

inductive plugin_reach :: "'x env \<Rightarrow> servers \<Rightarrow> csi_service \<Rightarrow> plugin \<Rightarrow> bool" for E svs srv where
  begins: "plugin_reach E svs srv plugin_init"
| arrival: "plugin_reach E svs srv c \<Longrightarrow> arrives E svs srv c d \<Longrightarrow> plugin_reach E svs srv d"
| working: "plugin_reach E svs srv c \<Longrightarrow> work c d \<Longrightarrow> plugin_reach E svs srv d"

text \<open>The lock table in it is the machine of \<open>VolumeLocks\<close>.\<close>

lemma work_locks: "work c d \<Longrightarrow> pl_locks d = pl_locks c \<or> lock_step (pl_locks c) (pl_locks d)"
proof (induction rule: work.induct)
  case (calls c i k es)
  then show ?case using lock_step.call [of "pl_locks c" i k] by simp
next
  case (loads c i k p vl)
  then show ?case using lock_step.load [of "pl_locks c" i k p vl] by simp
next
  case (acquires c i k p)
  then show ?case using lock_step.acquire [of "pl_locks c" i k p] by (simp add: emit_def)
next
  case (unlocks c i k es j p)
  then show ?case using lock_step.unlock [of "pl_locks c" i j p] by (simp add: emit_def)
qed (simp add: emit_def)

lemma arrives_locks: "arrives E svs srv c d \<Longrightarrow> pl_locks d = pl_locks c"
  by (auto elim: arrives.cases)

lemma reach_locks: "plugin_reach E svs srv c \<Longrightarrow> lock_reach (pl_locks c)"
proof (induction rule: plugin_reach.induct)
  case begins
  then show ?case using lock_reach.intros(1) by (simp add: plugin_init_def)
next
  case (arrival c d)
  then show ?case by (simp add: arrives_locks)
next
  case (working c d)
  then show ?case using work_locks lock_reach.intros(2) by metis
qed

section \<open>Every goroutine follows its handler\<close>

text \<open>
  What a goroutine has before it fits where it is: with a lock held the rest gives it back before it takes another; a
  goroutine inside \<open>Lock\<close> has that lock event next.
\<close>

definition follows :: "goroutine \<Rightarrow> event list \<Rightarrow> bool" where
  "follows g rest \<longleftrightarrow> locks_well (held g) rest \<and>
     (case g of Calling k \<Rightarrow> \<exists>es. rest = EvLock k # es | Blocked k p \<Rightarrow> \<exists>es. rest = EvLock k # es | _ \<Rightarrow> True)"

lemma locks_well_runs: "lock_free e \<Longrightarrow> locks_well h (e # es) \<longleftrightarrow> locks_well h es"
  by (cases e) simp_all

lemma lock_free_hd: "lock_free e \<Longrightarrow> e \<noteq> EvLock k \<and> e \<noteq> EvUnlock k"
  by auto

lemma follows_simps [simp]:
  "follows Outside rest \<longleftrightarrow> locks_well None rest"
  "follows (Calling k) rest \<longleftrightarrow> (\<exists>es. rest = EvLock k # es \<and> locks_well (Some k) es)"
  "follows (Blocked k p) rest \<longleftrightarrow> (\<exists>es. rest = EvLock k # es \<and> locks_well (Some k) es)"
  "follows (Holding k p) rest \<longleftrightarrow> locks_well (Some k) rest"
  by (auto simp: follows_def)

lemma follows_runs: "lock_free e \<Longrightarrow> follows g (e # es) \<Longrightarrow> follows g es"
  by (cases g) (auto simp: locks_well_runs)

lemma follows_work:
  assumes "work c d" and follows: "\<And>i. follows (pc c i) (pl_rest c i)"
  shows "follows (pc d j) (pl_rest d j)"
  using assms(1)
proof cases
  case (calls i k es)
  then show ?thesis using follows [of i] follows [of j] by (cases "j = i") simp_all
next
  case (loads i k p vl)
  then show ?thesis using follows [of i] follows [of j] by (cases "j = i") simp_all
next
  case (acquires i k p)
  then show ?thesis using follows [of i] follows [of j] by (cases "j = i") (auto simp: emit_def)
next
  case (unlocks i k es l p)
  then show ?thesis using follows [of i] follows [of j] by (cases "j = i") (simp_all add: emit_def)
next
  case (runs i e es)
  then show ?thesis using follows [of i] follows [of j] follows_runs [OF runs(3)]
    by (cases "j = i") (simp_all add: emit_def)
qed

lemma follows_reach: "plugin_reach E svs srv c \<Longrightarrow> follows (pc c i) (pl_rest c i)"
proof (induction arbitrary: i rule: plugin_reach.induct)
  case begins
  then show ?case by (simp add: plugin_init_def lock_init_def follows_def)
next
  case (arrival c d)
  from arrival.hyps(2) show ?case
  proof cases
    case (1 j req t)
    obtain w where w: "w_trace (snd (served E svs req w)) = w_trace w @ t" using 1(4) unfolding run_of_def by blast
    obtain t' where "w_trace (snd (served E svs req w)) = w_trace w @ t'" "bracketed (request_key req) t'"
      using leaves_served [of req E svs] unfolding leaves_def by blast
    then have "locks_well None t" using w bracketed_well by simp
    moreover have "follows (pc c j) []" using arrival.IH [of j] 1(2) by simp
    then have "pc c j = Outside" by (cases "pc c j") simp_all
    ultimately show ?thesis using arrival.IH [of i] 1(1) by (cases "i = j") simp_all
  qed
next
  case (working c d)
  show ?case using working.hyps(2) working.IH by (rule follows_work)
qed

section \<open>No deadlock\<close>

lemma holder_works:
  assumes "plugin_reach E svs srv c" and "pc c i = Holding k p"
  shows "\<exists>d. work c d"
proof -
  have "locks_well (Some k) (pl_rest c i)" using follows_reach [OF assms(1), of i] assms(2) by simp
  then obtain e es where rest: "pl_rest c i = e # es" "locks_well (Some k) (e # es)" by (cases "pl_rest c i") auto
  show ?thesis
  proof (cases e)
    case (EvUnlock j)
    then show ?thesis using rest(1) assms(2) by (blast intro: work.unlocks)
  next
    case (EvLock j)
    then show ?thesis using rest(2) by simp
  qed (use rest(1) work.runs in fastforce)+
qed

text \<open>
  C2. Whatever requests for a service arrive and however their handlers interleave, the driver does not deadlock: as long as some
  goroutine has something left to do, some goroutine can take a step. Every handler takes at most one lock, so the
  goroutine that holds the lock another one waits for never waits itself.
\<close>

theorem driver_deadlock_free:
  assumes "plugin_reach E svs srv c" and "pl_rest c i \<noteq> []"
  shows "\<exists>d. work c d"
proof -
  note D = lock_invD [OF lock_reach_inv [OF reach_locks [OF assms(1)]]]
  have follows: "follows (pc c i) (pl_rest c i)" using assms(1) by (rule follows_reach)
  show ?thesis
  proof (cases "pc c i")
    case Outside
    obtain e es where rest: "pl_rest c i = e # es" using assms(2) by (cases "pl_rest c i") simp_all
    then have "locks_well None (e # es)" using follows Outside by simp
    then have "lock_free e \<or> (\<exists>k. e = EvLock k)" by (cases e) simp_all
    then show ?thesis using rest Outside by (blast intro: work.runs work.calls)
  next
    case (Calling k)
    obtain p vl where "LoadOrStore (ls_table (pl_locks c)) k = (p, vl)" by (cases "LoadOrStore (ls_table (pl_locks c)) k")
    then show ?thesis using Calling by (blast intro: work.loads)
  next
    case (Blocked k p)
    show ?thesis
    proof (cases "vl_locked (ls_table (pl_locks c)) p")
      case True
      then obtain j l where "pc c j = Holding l p" using D(5) by blast
      then show ?thesis by (rule holder_works [OF assms(1)])
    next
      case False
      then show ?thesis using Blocked by (blast intro: work.acquires)
    qed
  next
    case (Holding k p)
    then show ?thesis by (rule holder_works [OF assms(1)])
  qed
qed

section \<open>Handlers of one volume run one after the other\<close>

text \<open>The events of the requests about one volume, with or without its lock.\<close>

definition events_of :: "string \<Rightarrow> (nat \<times> csi_request option \<times> event) list \<Rightarrow> (nat \<times> csi_request option \<times> event) list" where
  "events_of k tr = filter (\<lambda>(i, req, e). Option.bind req volume_key = Some k) tr"

definition run_events :: "nat \<times> csi_request \<times> event list \<Rightarrow> (nat \<times> csi_request option \<times> event) list" where
  "run_events = (\<lambda>(i, req, t). map (\<lambda>e. (i, Some req, e)) t)"

text \<open>
  A serial trace of requests about the volume \<open>k\<close>: what a server that takes them one at a time leaves. It is made of whole
  runs of such requests, one after the other, and the beginning of at most one more.
\<close>

definition serial_runs ::
  "'x env \<Rightarrow> servers \<Rightarrow> string \<Rightarrow> (nat \<times> csi_request \<times> event list) list \<Rightarrow> (nat \<times> csi_request \<times> event list) option \<Rightarrow>
   (nat \<times> csi_request option \<times> event) list \<Rightarrow> bool" where
  "serial_runs E svs k runs cur tr \<longleftrightarrow>
     tr = concat (map run_events runs) @ (case cur of None \<Rightarrow> [] | Some run \<Rightarrow> run_events run) \<and>
     (\<forall>(i, req, t) \<in> set runs. volume_key req = Some k \<and> run_of E svs req t) \<and>
     (case cur of None \<Rightarrow> True
      | Some (i, req, t) \<Rightarrow> volume_key req = Some k \<and> (\<exists>todo. run_of E svs req (t @ todo)))"

definition serial :: "'x env \<Rightarrow> servers \<Rightarrow> string \<Rightarrow> (nat \<times> csi_request option \<times> event) list \<Rightarrow> bool" where
  "serial E svs k tr \<longleftrightarrow> (\<exists>runs cur. serial_runs E svs k runs cur tr)"

lemma events_of_append:
  "events_of k (tr @ [(i, req, e)]) = events_of k tr @ (if Option.bind req volume_key = Some k then [(i, req, e)] else [])"
  by (simp add: events_of_def)

text \<open>
  The invariant. The goroutine of the unfinished run, if there is one, holds the lock and has the rest of the run before
  it. Every other goroutine with a request about the volume has not begun, or is done, and does not hold the lock.
\<close>

definition about :: "plugin \<Rightarrow> string \<Rightarrow> nat \<Rightarrow> bool" where
  "about c k i \<longleftrightarrow> Option.bind (pl_request c i) volume_key = Some k"

definition waiting :: "'x env \<Rightarrow> servers \<Rightarrow> plugin \<Rightarrow> nat \<Rightarrow> bool" where
  "waiting E svs c i \<longleftrightarrow> pl_rest c i = [] \<or> run_of E svs (the (pl_request c i)) (pl_rest c i)"

definition inside :: "'x env \<Rightarrow> servers \<Rightarrow> plugin \<Rightarrow> string \<Rightarrow> nat \<times> csi_request \<times> event list \<Rightarrow> bool" where
  "inside E svs c k = (\<lambda>(i, req, past). pl_request c i = Some req \<and> volume_key req = Some k \<and> past \<noteq> [] \<and>
     run_of E svs req (past @ pl_rest c i) \<and> holds_lock (pl_locks c) k i)"

definition serialized :: "'x env \<Rightarrow> servers \<Rightarrow> string \<Rightarrow> plugin \<Rightarrow> bool" where
  "serialized E svs k c \<longleftrightarrow> (\<exists>runs cur. serial_runs E svs k runs cur (events_of k (pl_trace c)) \<and>
     (\<forall>run. cur = Some run \<longrightarrow> inside E svs c k run) \<and>
     (\<forall>j. about c k j \<longrightarrow> map_option fst cur \<noteq> Some j \<longrightarrow> waiting E svs c j \<and> \<not> holds_lock (pl_locks c) k j))"

lemma serializedI:
  assumes "serial_runs E svs k runs cur (events_of k (pl_trace c))"
    and "\<And>run. cur = Some run \<Longrightarrow> inside E svs c k run"
    and "\<And>j. about c k j \<Longrightarrow> map_option fst cur \<noteq> Some j \<Longrightarrow> waiting E svs c j \<and> \<not> holds_lock (pl_locks c) k j"
  shows "serialized E svs k c"
  using assms unfolding serialized_def by blast

lemma serializedE:
  assumes "serialized E svs k c"
  obtains runs cur where "serial_runs E svs k runs cur (events_of k (pl_trace c))"
    and "\<And>run. cur = Some run \<Longrightarrow> inside E svs c k run"
    and "\<And>j. about c k j \<Longrightarrow> map_option fst cur \<noteq> Some j \<Longrightarrow> waiting E svs c j \<and> \<not> holds_lock (pl_locks c) k j"
  using assms unfolding serialized_def by (elim exE conjE) (rule that, blast+)

lemma holds_pc: "holds_lock s k i \<longleftrightarrow> (\<exists>p. ls_pc s i = Holding k p)"
  by (simp add: holds_lock_def)

text \<open>Steps that leave the trace, the requests and the holders alone.\<close>

lemma serialized_quiet:
  assumes "serialized E svs k c"
    and "pl_trace d = pl_trace c" "pl_request d = pl_request c" "pl_rest d = pl_rest c"
    and "\<And>j. holds_lock (pl_locks d) k j \<longleftrightarrow> holds_lock (pl_locks c) k j"
  shows "serialized E svs k d"
  using assms by (simp add: serialized_def inside_def about_def waiting_def split_def)

text \<open>An event of a request that is not about the volume.\<close>

lemma serialized_other:
  assumes "serialized E svs k c" and "\<not> about c k i"
    and "\<And>j. j \<noteq> i \<Longrightarrow> holds_lock locks k j \<longleftrightarrow> holds_lock (pl_locks c) k j"
  shows "serialized E svs k (emit i locks c)"
proof -
  obtain runs cur where inv: "serial_runs E svs k runs cur (events_of k (pl_trace c))"
    "\<And>run. cur = Some run \<Longrightarrow> inside E svs c k run"
    "\<And>j. about c k j \<Longrightarrow> map_option fst cur \<noteq> Some j \<Longrightarrow> waiting E svs c j \<and> \<not> holds_lock (pl_locks c) k j"
    using assms(1) by (rule serializedE) blast
  show ?thesis
  proof (rule serializedI)
    show "serial_runs E svs k runs cur (events_of k (pl_trace (emit i locks c)))"
      using inv(1) assms(2) by (simp add: emit_def events_of_append about_def)
    show "inside E svs (emit i locks c) k run" if "cur = Some run" for run
    proof -
      have "fst run \<noteq> i" using inv(2) [OF that] assms(2) by (auto simp: inside_def about_def)
      then show ?thesis using inv(2) [OF that] assms(3) by (auto simp: inside_def emit_def)
    qed
    show "waiting E svs (emit i locks c) j \<and> \<not> holds_lock (pl_locks (emit i locks c)) k j"
      if "about (emit i locks c) k j" "map_option fst cur \<noteq> Some j" for j
    proof -
      have "about c k j" using that(1) by (simp add: about_def emit_def)
      moreover then have "j \<noteq> i" using assms(2) by blast
      ultimately show ?thesis using inv(3) that(2) assms(3) by (simp add: waiting_def emit_def)
    qed
  qed
qed

text \<open>A goroutine with a request about the volume, outside and inside the lock.\<close>

lemma waiting_first:
  assumes "waiting E svs c i" and "about c k i" and "pl_rest c i = e # es"
  shows "e = EvLock k" and "\<exists>body. es = body @ [EvUnlock k] \<and> list_all lock_free body"
proof -
  obtain req where req: "pl_request c i = Some req" "volume_key req = Some k"
    using assms(2) unfolding about_def by (cases "pl_request c i") auto
  have "whole k (e # es)" using assms(1,3) run_whole [OF req(2)] by (simp add: waiting_def req(1))
  then show "e = EvLock k" "\<exists>body. es = body @ [EvUnlock k] \<and> list_all lock_free body" by (auto simp: whole_def)
qed

lemma inside_rest:
  assumes "inside E svs c k (i, req, past)"
  shows "\<exists>body. list_all lock_free body \<and> (pl_rest c i = body @ [EvUnlock k] \<or> pl_rest c i = [])"
proof -
  have run: "whole k (past @ pl_rest c i)" "past \<noteq> []"
    using assms run_whole unfolding inside_def by blast+
  then obtain es where es: "past @ pl_rest c i = EvLock k # es @ [EvUnlock k]" "list_all lock_free es"
    by (auto simp: whole_def)
  then obtain d where "past = EvLock k # d" "d @ pl_rest c i = es @ [EvUnlock k]" using run(2) by (cases "past") auto
  then consider body where "es = d @ body" "pl_rest c i = body @ [EvUnlock k]" | "pl_rest c i = []"
    by (auto simp: append_eq_append_conv2 append_eq_Cons_conv)
  then show ?thesis using es(2) by cases auto
qed

text \<open>The goroutine inside, if one with a request about the volume can make a step that is no taking of the lock.\<close>

lemma inside_step:
  assumes "map_option fst cur \<noteq> Some i \<Longrightarrow> waiting E svs c i" and "\<And>run. cur = Some run \<Longrightarrow> inside E svs c k run"
    and "about c k i" and "pl_rest c i = e # es" and "\<And>l. e \<noteq> EvLock l"
  obtains req past where "cur = Some (i, req, past)" "inside E svs c k (i, req, past)"
proof -
  have "map_option fst cur = Some i" using waiting_first(1) [OF _ assms(3,4)] assms(1,5) by blast
  then obtain req past where "cur = Some (i, req, past)" by (cases cur) auto
  then show thesis using that assms(2) by blast
qed

lemma serial_runs_more:
  assumes "serial_runs E svs k runs (Some (i, req, past)) tr" and "run_of E svs req ((past @ [e]) @ todo)"
  shows "serial_runs E svs k runs (Some (i, req, past @ [e])) (tr @ [(i, Some req, e)])"
  using assms unfolding serial_runs_def by (auto simp: run_events_def)

lemma serial_runs_done:
  assumes "serial_runs E svs k runs (Some (i, req, past)) tr" and "run_of E svs req past"
  shows "serial_runs E svs k (runs @ [(i, req, past)]) None tr"
  using assms unfolding serial_runs_def by (auto simp: run_events_def)

lemma serial_runs_begin:
  assumes "serial_runs E svs k runs None tr" and "volume_key req = Some k" and "run_of E svs req (e # todo)"
  shows "serial_runs E svs k runs (Some (i, req, [e])) (tr @ [(i, Some req, e)])"
  using assms unfolding serial_runs_def by (auto simp: run_events_def)

lemma serialized_acquire:
  assumes "serialized E svs k c" and "about c k i" and "pl_rest c i = EvLock l # es" and "pc c i = Blocked l p"
    and free: "\<And>j. \<not> holds_lock (pl_locks c) l j"
    and holds: "\<And>j. holds_lock locks k j \<longleftrightarrow> (if j = i then k = l else holds_lock (pl_locks c) k j)"
  shows "serialized E svs k (emit i locks c)"
proof -
  obtain runs cur where inv: "serial_runs E svs k runs cur (events_of k (pl_trace c))"
    "\<And>run. cur = Some run \<Longrightarrow> inside E svs c k run"
    "\<And>j. about c k j \<Longrightarrow> map_option fst cur \<noteq> Some j \<Longrightarrow> waiting E svs c j \<and> \<not> holds_lock (pl_locks c) k j"
    using assms(1) by (rule serializedE) blast
  have "\<not> holds_lock (pl_locks c) k i" using assms(4) by (simp add: holds_pc)
  then have out: "map_option fst cur \<noteq> Some i" using inv(2) by (cases cur) (auto simp: inside_def)
  have wait: "waiting E svs c i" using inv(3) [OF assms(2) out] by blast
  have l: "l = k" using waiting_first(1) [OF wait assms(2,3)] by simp
  obtain req where req: "pl_request c i = Some req" "volume_key req = Some k"
    using assms(2) unfolding about_def by (cases "pl_request c i") auto
  have run: "run_of E svs req (EvLock k # es)" using wait assms(3) by (simp add: waiting_def req(1) l)
  have "cur = None" using inv(2) free by (cases cur) (auto simp: inside_def l)
  then have "serial_runs E svs k runs (Some (i, req, [EvLock k])) (events_of k (pl_trace (emit i locks c)))"
    using serial_runs_begin [OF _ req(2) run] inv(1) req assms(3) by (simp add: emit_def events_of_append l)
  then show ?thesis
  proof (rule serializedI)
    show "inside E svs (emit i locks c) k x" if "Some (i, req, [EvLock k]) = Some x" for x
      using that req run assms(3) holds [of i] by (auto simp: inside_def emit_def l)
    show "waiting E svs (emit i locks c) j \<and> \<not> holds_lock (pl_locks (emit i locks c)) k j"
      if "about (emit i locks c) k j" "map_option fst (Some (i, req, [EvLock k])) \<noteq> Some j" for j
      using that inv(3) [of j] \<open>cur = None\<close> holds [of j] by (auto simp: about_def waiting_def emit_def)
  qed
qed

lemma serialized_runs:
  assumes "serialized E svs k c" and "about c k i" and "pl_rest c i = e # es" and "lock_free e"
  shows "serialized E svs k (emit i (pl_locks c) c)"
proof -
  obtain runs cur where inv: "serial_runs E svs k runs cur (events_of k (pl_trace c))"
    "\<And>run. cur = Some run \<Longrightarrow> inside E svs c k run"
    "\<And>j. about c k j \<Longrightarrow> map_option fst cur \<noteq> Some j \<Longrightarrow> waiting E svs c j \<and> \<not> holds_lock (pl_locks c) k j"
    using assms(1) by (rule serializedE) blast
  obtain req past where cur: "cur = Some (i, req, past)" and ins: "inside E svs c k (i, req, past)"
    using inside_step [OF _ inv(2) assms(2,3)] inv(3) [OF assms(2)] lock_free_hd [OF assms(4)] by metis
  have req: "pl_request c i = Some req" "volume_key req = Some k" and run: "run_of E svs req ((past @ [e]) @ es)"
    using ins assms(3) by (simp_all add: inside_def)
  have "serial_runs E svs k runs (Some (i, req, past @ [e])) (events_of k (pl_trace (emit i (pl_locks c) c)))"
    using serial_runs_more [OF inv(1) [unfolded cur] run] req assms(3) by (simp add: emit_def events_of_append)
  then show ?thesis
  proof (rule serializedI)
    show "inside E svs (emit i (pl_locks c) c) k x" if "Some (i, req, past @ [e]) = Some x" for x
      using that ins assms(3) by (auto simp: inside_def emit_def)
    show "waiting E svs (emit i (pl_locks c) c) j \<and> \<not> holds_lock (pl_locks (emit i (pl_locks c) c)) k j"
      if "about (emit i (pl_locks c) c) k j" "map_option fst (Some (i, req, past @ [e])) \<noteq> Some j" for j
      using that inv(3) [of j] cur by (auto simp: about_def waiting_def emit_def)
  qed
qed

lemma serialized_unlock:
  assumes "serialized E svs k c" and "about c k i" and "pl_rest c i = EvUnlock k' # es"
    and holds: "\<And>j. holds_lock locks k j \<longleftrightarrow> j \<noteq> i \<and> holds_lock (pl_locks c) k j"
  shows "serialized E svs k (emit i locks c)"
proof -
  obtain runs cur where inv: "serial_runs E svs k runs cur (events_of k (pl_trace c))"
    "\<And>run. cur = Some run \<Longrightarrow> inside E svs c k run"
    "\<And>j. about c k j \<Longrightarrow> map_option fst cur \<noteq> Some j \<Longrightarrow> waiting E svs c j \<and> \<not> holds_lock (pl_locks c) k j"
    using assms(1) by (rule serializedE) blast
  obtain req past where cur: "cur = Some (i, req, past)" and ins: "inside E svs c k (i, req, past)"
    using inside_step [OF _ inv(2) assms(2,3)] inv(3) [OF assms(2)] by blast
  obtain body where "list_all lock_free body" "pl_rest c i = body @ [EvUnlock k]"
    using inside_rest [OF ins] assms(3) by auto
  then have rest: "pl_rest c i = [EvUnlock k]" using assms(3) by (cases body) auto
  have req: "pl_request c i = Some req" "volume_key req = Some k" and run: "run_of E svs req ((past @ [EvUnlock k]) @ [])"
    using ins rest by (simp_all add: inside_def)
  have "serial_runs E svs k (runs @ [(i, req, past @ [EvUnlock k])]) None (events_of k (pl_trace (emit i locks c)))"
    using serial_runs_done [OF serial_runs_more [OF inv(1) [unfolded cur] run]] run req rest
    by (simp add: emit_def events_of_append)
  then show ?thesis
  proof (rule serializedI)
    show "waiting E svs (emit i locks c) j \<and> \<not> holds_lock (pl_locks (emit i locks c)) k j"
      if "about (emit i locks c) k j" "map_option fst None \<noteq> Some j" for j
      using that inv(3) [of j] cur rest holds [of j] by (cases "j = i") (auto simp: about_def waiting_def emit_def)
  qed simp
qed

lemma serialized_work:
  assumes "work c d" and reach: "plugin_reach E svs srv c" and "serialized E svs k c"
  shows "serialized E svs k d"
  using assms(1)
proof cases
  case (calls i l es)
  then show ?thesis by (intro serialized_quiet [OF assms(3)]) (auto simp: holds_pc)
next
  case (loads i l p vl)
  then show ?thesis by (intro serialized_quiet [OF assms(3)]) (auto simp: holds_pc)
next
  case (acquires i l p)
  let ?locks = "(pl_locks c)\<lparr>ls_table := (ls_table (pl_locks c))\<lparr>vl_locked := (vl_locked (ls_table (pl_locks c)))(p := True)\<rparr>,
    ls_pc := (ls_pc (pl_locks c))(i := Holding l p)\<rparr>"
  have holds: "holds_lock ?locks k j \<longleftrightarrow> (if j = i then k = l else holds_lock (pl_locks c) k j)" for j
    by (auto simp: holds_pc)
  obtain es where "pl_rest c i = EvLock l # es" using follows_reach [OF reach, of i] acquires(2) by auto
  then show ?thesis unfolding acquires(1)
    using serialized_acquire [OF assms(3) _ _ acquires(2) free_mutex_unheld [OF reach_locks [OF reach] acquires(2,3)] holds]
      serialized_other [OF assms(3), of i ?locks] holds by (cases "about c k i") simp_all
next
  case (unlocks i k' es l p)
  let ?locks = "(pl_locks c)\<lparr>ls_table := (ls_table (pl_locks c))\<lparr>vl_locked := (vl_locked (ls_table (pl_locks c)))(p := False)\<rparr>,
    ls_pc := (ls_pc (pl_locks c))(i := Outside)\<rparr>"
  have holds: "holds_lock ?locks k j \<longleftrightarrow> j \<noteq> i \<and> holds_lock (pl_locks c) k j" for j by (simp add: holds_pc)
  show ?thesis unfolding unlocks(1)
    using serialized_unlock [OF assms(3) _ unlocks(2) holds] serialized_other [OF assms(3), of i ?locks] holds
    by (cases "about c k i") simp_all
next
  case (runs i e es)
  then show ?thesis
    using serialized_runs [OF assms(3) _ runs(2,3)] serialized_other [OF assms(3), of i "pl_locks c"]
    by (cases "about c k i") simp_all
qed

lemma serialized_arrives:
  assumes "arrives E svs srv c d" and reach: "plugin_reach E svs srv c" and "serialized E svs k c"
  shows "serialized E svs k d"
  using assms(1)
proof cases
  case (1 i req t)
  have "pc c i = Outside" using follows_reach [OF reach, of i] 1(2) by (cases "pc c i") simp_all
  then have out: "\<not> holds_lock (pl_locks c) k i" by (simp add: holds_pc)
  obtain runs cur where inv: "serial_runs E svs k runs cur (events_of k (pl_trace c))"
    "\<And>run. cur = Some run \<Longrightarrow> inside E svs c k run"
    "\<And>j. about c k j \<Longrightarrow> map_option fst cur \<noteq> Some j \<Longrightarrow> waiting E svs c j \<and> \<not> holds_lock (pl_locks c) k j"
    using assms(3) by (rule serializedE) blast
  have "serial_runs E svs k runs cur (events_of k (pl_trace d))" using inv(1) 1(1) by simp
  then show ?thesis
  proof (rule serializedI)
    show "inside E svs d k x" if "cur = Some x" for x
      using inv(2) [OF that] out 1(1) by (cases "fst x = i") (auto simp: inside_def)
    show "waiting E svs d j \<and> \<not> holds_lock (pl_locks d) k j" if "about d k j" "map_option fst cur \<noteq> Some j" for j
      using that inv(3) [of j] out 1 by (cases "j = i") (auto simp: about_def waiting_def)
  qed
qed

lemma serialized_reach: "plugin_reach E svs srv c \<Longrightarrow> serialized E svs k c"
proof (induction rule: plugin_reach.induct)
  case begins
  show ?case
    by (rule serializedI [of _ _ _ "[]" None])
      (simp_all add: serial_runs_def plugin_init_def events_of_def about_def)
next
  case (arrival c d)
  then show ?case by (blast intro: serialized_arrives)
next
  case (working c d)
  then show ?case by (blast intro: serialized_work)
qed

text \<open>
  C1. The handlers of one volume are serialized. Take the requests of a service that name one identifier: its creation (by
  name), deletion, lookup and snapshot, or its staging, unstaging, publishing and unpublishing. Whatever requests arrive
  and however their goroutines interleave, the events of these requests are those of a server that takes them one at a
  time: whole runs of their handlers, each from its first to its last event, one after the other, with at most one
  unfinished at the end. Expanding a volume takes no lock and is not among them; nor does the creation of a volume,
  which knows only the name, exclude the requests about the identifier it makes.
\<close>

theorem handlers_serialized:
  assumes "plugin_reach E svs srv c"
  shows "serial E svs k (events_of k (pl_trace c))"
  unfolding serial_def by (rule serializedE [OF serialized_reach [OF assms]]) (intro exI)

text \<open>A node that was asked to unpublish a volume whose target is a directory.\<close>

definition unpublish_events :: "event list" where
  "unpublish_events = [EvLock ''v'', EvFile (OpRemoveAll ''/t''), EvUnlock ''v'']"

definition unpublish_request :: csi_request where
  "unpublish_request = ToNode (ReqNodeUnpublishVolume ''v'' ''/t'')"

definition one_request :: plugin where
  "one_request = plugin_init\<lparr>pl_request := (\<lambda>_. None)(0 := Some unpublish_request), pl_rest := (\<lambda>_. [])(0 := unpublish_events)\<rparr>"

lemma unpublish_request_run: "run_of demo_env node_servers unpublish_request unpublish_events"
proof -
  have "snd (served demo_env node_servers (ToNode (ReqNodeUnpublishVolume ''v'' ''/t'')) (demo_world [([''t''], FDir)] []))
      = \<lparr>w_ext = [], w_fs = [], w_trace = unpublish_events\<rparr>"
    by code_simp
  then show ?thesis unfolding run_of_def unpublish_request_def
    by (intro exI [of _ "demo_world [([''t''], FDir)] []"]) (simp add: demo_world_def)
qed

lemma one_request_reach: "plugin_reach demo_env node_servers NodeService one_request"
proof -
  have "arrives demo_env node_servers NodeService plugin_init (plugin_init\<lparr>pl_request := (pl_request plugin_init)(0 := Some unpublish_request),
      pl_rest := (pl_rest plugin_init)(0 := unpublish_events)\<rparr>)"
    by (intro arrives.intros unpublish_request_run) (simp_all add: plugin_init_def unpublish_request_def)
  then show ?thesis using plugin_reach.intros(1,2) by (simp add: one_request_def plugin_init_def) blast
qed

theorem driver_deadlock_free_witness: "\<exists>d. work one_request d"
  by (rule driver_deadlock_free [OF one_request_reach, of 0]) (simp add: one_request_def unpublish_events_def)

lemma one_request_locks:
  "\<exists>c. plugin_reach demo_env node_servers NodeService c \<and> pl_trace c = [(0, Some unpublish_request, EvLock ''v'')]"
proof -
  note step = plugin_reach.working
  let ?a = one_request
  let ?b = "?a\<lparr>pl_locks := (pl_locks ?a)\<lparr>ls_pc := (ls_pc (pl_locks ?a))(0 := Calling ''v'')\<rparr>\<rparr>"
  have "work ?a ?b"
    by (rule work.calls [of ?a 0 "''v''" "tl unpublish_events"])
      (simp_all add: one_request_def unpublish_events_def plugin_init_def lock_init_def)
  then have b: "plugin_reach demo_env node_servers NodeService ?b" by (rule step [OF one_request_reach])
  obtain p vl where vl: "LoadOrStore NewVolumeLocks ''v'' = (p, vl)" "\<not> vl_locked vl p"
    by (simp add: LoadOrStore_def NewVolumeLocks_def)
  let ?c = "?b\<lparr>pl_locks := (pl_locks ?b)\<lparr>ls_table := vl, ls_pc := (ls_pc (pl_locks ?b))(0 := Blocked ''v'' p)\<rparr>\<rparr>"
  have "work ?b ?c"
    by (rule work.loads) (simp_all add: one_request_def plugin_init_def lock_init_def vl(1))
  then have c: "plugin_reach demo_env node_servers NodeService ?c" by (rule step [OF b])
  obtain d where "work ?c d" and d: "d = emit 0 ((pl_locks ?c)\<lparr>ls_table := (ls_table (pl_locks ?c))\<lparr>vl_locked :=
         (vl_locked (ls_table (pl_locks ?c)))(p := True)\<rparr>, ls_pc := (ls_pc (pl_locks ?c))(0 := Holding ''v'' p)\<rparr>) ?c"
    using work.acquires [of ?c 0 "''v''" p] vl(2) by simp
  then have "plugin_reach demo_env node_servers NodeService d" by (metis step [OF c])
  moreover have "pl_trace d = [(0, Some unpublish_request, EvLock ''v'')]"
    unfolding d by (simp add: emit_def one_request_def plugin_init_def unpublish_events_def)
  ultimately show ?thesis by blast
qed

theorem handlers_serialized_witness:
  "\<exists>c. plugin_reach demo_env node_servers NodeService c \<and> pl_trace c = [(0, Some unpublish_request, EvLock ''v'')] \<and>
     events_of ''v'' (pl_trace c) \<noteq> [] \<and> serial demo_env node_servers ''v'' (events_of ''v'' (pl_trace c))"
proof -
  obtain c where c: "plugin_reach demo_env node_servers NodeService c" "pl_trace c = [(0, Some unpublish_request, EvLock ''v'')]"
    using one_request_locks by blast
  then have "events_of ''v'' (pl_trace c) \<noteq> []" by (simp add: events_of_def unpublish_request_def)
  then show ?thesis using c handlers_serialized [OF c(1)] by blast
qed

end
