(* ===== verification/Lifecycle.thy ===== *)
theory Lifecycle
  imports Driver
begin

text \<open>
  The life of the process: \<open>nonBlockingGRPCServer\<close> of \<^verbatim>\<open>pkg/csi-common/server.go\<close> with its wait group, the goroutine that
  serves, and the end of \<open>Run\<close> and \<open>main\<close>. The gRPC server is known only by whether it was stopped.
\<close>

section \<open>The server object\<close>

record nonBlockingGRPCServer =
  ng_wg :: int
  ng_server :: "csi_service list option"

definition NewNonBlockingGRPCServer :: nonBlockingGRPCServer where
  "NewNonBlockingGRPCServer = \<lparr>ng_wg = 0, ng_server = None\<rparr>"

text \<open>
  \<open>Start\<close> adds one to the wait group (and starts \<open>serve\<close>, below); \<open>Wait\<close> returns when the group is zero; \<open>Stop\<close> and
  \<open>ForceStop\<close> call a method of the gRPC server.
\<close>

definition Start :: "nonBlockingGRPCServer \<Rightarrow> nonBlockingGRPCServer" where
  "Start s = s\<lparr>ng_wg := ng_wg s + 1\<rparr>"

definition Wait_returns :: "nonBlockingGRPCServer \<Rightarrow> bool" where
  "Wait_returns s \<longleftrightarrow> ng_wg s = 0"

definition Stop_calls :: "nonBlockingGRPCServer \<Rightarrow> bool" where
  "Stop_calls s \<longleftrightarrow> ng_server s \<noteq> None"

text \<open>The step of \<open>serve\<close> that makes the gRPC server and registers the services.\<close>

definition register :: "csi_service list \<Rightarrow> nonBlockingGRPCServer \<Rightarrow> nonBlockingGRPCServer" where
  "register services s = s\<lparr>ng_server := Some services\<rparr>"

section \<open>The process\<close>

text \<open>
  The main goroutine runs \<open>Start\<close>, \<open>Wait\<close> and, if that returns, the rest of \<open>Run\<close> and \<open>os.Exit(0)\<close>. The other
  goroutine runs \<open>serve\<close>: it fails (\<open>klog.Fatal\<close>) or listens; then \<open>Serve\<close> returns without an error once the gRPC
  server was stopped, or with one.
\<close>

datatype main_goroutine = BeforeStart | InWait | AfterRun | Fatal

datatype serve_goroutine = NotStarted | Listening | Serving | ServeReturned

record process =
  ps_main :: main_goroutine
  ps_serve :: serve_goroutine
  ps_server :: nonBlockingGRPCServer
  ps_stopped :: bool

definition process_init :: process where
  "process_init = \<lparr>ps_main = BeforeStart, ps_serve = NotStarted, ps_server = NewNonBlockingGRPCServer, ps_stopped = False\<rparr>"

inductive process_step :: "process \<Rightarrow> process \<Rightarrow> bool" where
  starts: "ps_main p = BeforeStart \<Longrightarrow>
     process_step p (p\<lparr>ps_main := InWait, ps_serve := Listening, ps_server := Start (ps_server p)\<rparr>)"
| listens: "ps_main p = InWait \<Longrightarrow> ps_serve p = Listening \<Longrightarrow>
     process_step p (p\<lparr>ps_serve := Serving, ps_server := register services (ps_server p)\<rparr>)"
| fails: "ps_main p = InWait \<Longrightarrow> ps_serve p = Listening \<or> ps_serve p = Serving \<Longrightarrow> process_step p (p\<lparr>ps_main := Fatal\<rparr>)"
| stops: "ps_main p = InWait \<Longrightarrow> Stop_calls (ps_server p) \<Longrightarrow> process_step p (p\<lparr>ps_stopped := True\<rparr>)"
| returns: "ps_main p = InWait \<Longrightarrow> ps_serve p = Serving \<Longrightarrow> ps_stopped p \<Longrightarrow> process_step p (p\<lparr>ps_serve := ServeReturned\<rparr>)"
| exits: "ps_main p = InWait \<Longrightarrow> Wait_returns (ps_server p) \<Longrightarrow> process_step p (p\<lparr>ps_main := AfterRun\<rparr>)"

inductive process_reach :: "process \<Rightarrow> bool" where
  process_starts: "process_reach process_init"
| process_steps: "process_reach p \<Longrightarrow> process_step p q \<Longrightarrow> process_reach q"

inductive_cases process_stepE: "process_step p q"

definition process_inv :: "process \<Rightarrow> bool" where
  "process_inv p \<longleftrightarrow> ps_main p \<noteq> AfterRun \<and>
     (if ps_main p = BeforeStart then ps_serve p = NotStarted \<and> ng_wg (ps_server p) = 0
      else ps_serve p \<noteq> NotStarted \<and> ng_wg (ps_server p) = 1) \<and>
     (ps_serve p = ServeReturned \<longrightarrow> ps_stopped p)"

lemma process_reach_inv: "process_reach p \<Longrightarrow> process_inv p"
proof (induction rule: process_reach.induct)
  case process_starts
  then show ?case by (simp add: process_inv_def process_init_def NewNonBlockingGRPCServer_def)
next
  case (process_steps p q)
  from process_steps.hyps(2) process_steps.IH show ?case
    by (elim process_stepE) (auto simp: process_inv_def Start_def Wait_returns_def register_def)
qed

text \<open>
  C39. \<open>Run\<close> never returns, so \<open>main\<close> never gets to its orderly exit: the wait group is incremented by \<open>Start\<close> and
  nothing ever decrements it, not even the return of \<open>serve\<close> after a stop. Once \<open>serve\<close> has returned, the process
  stays in \<open>Wait\<close> and can do nothing but be stopped again.
\<close>

theorem wait_never_returns:
  assumes "process_reach p"
  shows "ps_main p \<noteq> AfterRun \<and> (ps_serve p = ServeReturned \<and> ps_main p = InWait \<longrightarrow> (\<forall>q. process_step p q \<longrightarrow> q = p))"
proof -
  have inv: "process_inv p" using assms by (rule process_reach_inv)
  have "q = p" if "ps_serve p = ServeReturned" "ps_main p = InWait" "process_step p q" for q
    using that(3,1,2) inv by (elim process_stepE) (simp_all add: process_inv_def Wait_returns_def)
  then show ?thesis using inv by (simp add: process_inv_def)
qed

text \<open>A process that was started, listened, was stopped and returned from \<open>serve\<close>.\<close>

definition stopped_process :: process where
  "stopped_process = \<lparr>ps_main = InWait, ps_serve = ServeReturned,
     ps_server = \<lparr>ng_wg = 1, ng_server = Some [IdentityService]\<rparr>, ps_stopped = True\<rparr>"

lemma stopped_process_reach: "process_reach stopped_process"
proof -
  note step = process_reach.process_steps
  let ?a = "process_init\<lparr>ps_main := InWait, ps_serve := Listening, ps_server := Start (ps_server process_init)\<rparr>"
  let ?b = "?a\<lparr>ps_serve := Serving, ps_server := register [IdentityService] (ps_server ?a)\<rparr>"
  let ?c = "?b\<lparr>ps_stopped := True\<rparr>"
  let ?d = "?c\<lparr>ps_serve := ServeReturned\<rparr>"
  have "process_reach ?a"
    by (rule step [OF process_reach.process_starts process_step.starts]) (simp add: process_init_def)
  then have "process_reach ?b" by (rule step [OF _ process_step.listens]) simp_all
  then have "process_reach ?c" by (rule step [OF _ process_step.stops]) (simp_all add: Stop_calls_def register_def)
  then have "process_reach ?d" by (rule step [OF _ process_step.returns]) simp_all
  then show ?thesis
    by (simp add: stopped_process_def process_init_def NewNonBlockingGRPCServer_def Start_def register_def)
qed

theorem wait_never_returns_witness:
  "process_reach stopped_process \<and> ps_serve stopped_process = ServeReturned \<and>
     \<not> process_step stopped_process (stopped_process\<lparr>ps_main := AfterRun\<rparr>)"
proof -
  have "stopped_process\<lparr>ps_main := AfterRun\<rparr> \<noteq> stopped_process" by (simp add: stopped_process_def)
  then show ?thesis
    using wait_never_returns [OF stopped_process_reach] stopped_process_reach by (auto simp: stopped_process_def)
qed

end
