(* ===== verification/Staging.thy ===== *)
theory Staging
  imports NodeFacts Demo
begin

text \<open>
  Staging and what follows from it: the errors a handler may return, staging again, failing half-way, and the
  stash that connects staging with publishing, expanding and unstaging.
\<close>

section \<open>The type of errors\<close>

text \<open>Every error that \<open>m\<close> returns satisfies \<open>P\<close>.\<close>

definition fails_with :: "(goerr \<Rightarrow> bool) \<Rightarrow> ('x, 'a) ioE \<Rightarrow> bool" where
  "fails_with P m \<longleftrightarrow> (\<forall>w e w'. m w = (Ret (Inl e), w') \<longrightarrow> P e)"

named_theorems fails_rules "errors of programs"

lemma fails_ret [fails_rules]: "fails_with P (ret (Inr a))"
  by (simp add: fails_with_def ret_def)

lemma fails_throw [fails_rules]: "P e \<Longrightarrow> fails_with P (throw e)"
  by (simp add: fails_with_def throw_def ret_def)

lemma fails_panic [fails_rules]: "fails_with P (panic p)"
  by (simp add: fails_with_def panic_def)

lemma fails_mapErr [fails_rules]: "(\<And>e. P (g e)) \<Longrightarrow> fails_with P (mapErr g m)"
  by (auto simp: fails_with_def mapErr_def bindP_def ret_def split: prod.splits outcome.splits sum.splits)

lemma fails_bindE [fails_rules]: "fails_with P m \<Longrightarrow> (\<And>a. fails_with P (f a)) \<Longrightarrow> fails_with P (bindE m f)"
  unfolding fails_with_def by (blast elim: bindE_InlE)

lemma fails_map_sum [fails_rules]: "(\<And>e. P (g e)) \<Longrightarrow> fails_with P (ret (map_sum g id r))"
  by (cases r) (simp_all add: fails_with_def ret_def)

lemma fails_if [fails_rules]: "fails_with P m \<Longrightarrow> fails_with P n \<Longrightarrow> fails_with P (if b then m else n)"
  by simp

lemma fails_option [fails_rules]:
  "fails_with P m \<Longrightarrow> (\<And>a. fails_with P (g a)) \<Longrightarrow> fails_with P (case r of None \<Rightarrow> m | Some a \<Rightarrow> g a)"
  by (cases r) auto

lemma fails_withLock [fails_rules]: "fails_with P m \<Longrightarrow> fails_with P (withLock k m)"
  unfolding fails_with_def by (blast elim: withLock_RetE)

lemma fails_disconnectOnError [fails_rules]:
  "fails_with P m \<Longrightarrow> fails_with P (disconnectOnError d m)"
  unfolding disconnectOnError_def
  by (auto simp: fails_with_def bindP_def throw_def ret_def split: prod.splits outcome.splits sum.splits)

lemma fails_stashedDevice [fails_rules]:
  "(\<And>t. P (Status Internal t)) \<Longrightarrow> fails_with P (ret (stashedDevice v vc))"
  by (auto simp: fails_with_def ret_def stashedDevice_def split: option.splits if_splits)

definition status_error :: "grpc_code \<Rightarrow> goerr \<Rightarrow> bool" where
  "status_error code e \<longleftrightarrow> (\<exists>t. e = Status code t)"

lemma node_handlers_internal:
  "fails_with (status_error Internal) (ns_NodeStageVolume E sreq)"
  "fails_with (status_error Internal) (ns_NodeUnstageVolume E volumeID path)"
  "fails_with (status_error Internal) (ns_NodePublishVolume E preq)"
  "fails_with (status_error Internal) (ns_NodeUnpublishVolume E volumeID path)"
  "fails_with (status_error Internal) (ns_NodeExpandVolume E volumeID mountPath path)"
  unfolding ns_NodeStageVolume_def ns_NodeUnstageVolume_def ns_NodePublishVolume_def ns_NodeUnpublishVolume_def
    ns_NodeExpandVolume_def contextDevice_def Let_def
  by (intro fails_rules; simp add: status_error_def toInternal_def)+

section \<open>Staging again, and failing\<close>

text \<open>Symbolic execution with a result that is false.\<close>

lemma bindE_False [prog_simps]: "m s = (Ret (Inr False), t) \<Longrightarrow> bindE m f s = f False t"
  by (rule bindE_Inr)

lemma mapErr_False [prog_simps]: "m s = (Ret (Inr False), t) \<Longrightarrow> mapErr g m s = (Ret (Inr False), t)"
  by (rule mapErr_Inr)

abbreviation "target req \<equiv> getStagingTargetPath (st_StagingTargetPath req) (st_VolumeId req)"

text \<open>The context \<open>NodeStageVolume\<close> works with.\<close>

definition staged_context :: "StageRequest \<Rightarrow> gomap \<Rightarrow> gomap" where
  "staged_context req context = AList.update ''stagingParentPath'' (st_StagingTargetPath req) context"

lemma isStaged_run:
  "isStaged E p w = (let ((m, err), x) = mnt_is_mount E p (w_fs w) (w_ext w) in
    (Ret (case err of None \<Rightarrow> Inr m
      | Some e \<Rightarrow> if is_not_exist e then Inr False else if mnt_corrupted E e then Inr True else Inl e), w\<lparr>w_ext := x\<rparr>))"
  by (auto simp: isStaged_def IsMountPoint_def service_def bindP_def ret_def Let_def split: prod.splits option.splits)

text \<open>
  C32. Staging is idempotent: if the staging path is a mount point, or a mount that has become corrupted, staging
  succeeds at once, without touching a file, the mounts or the device.
\<close>

theorem stage_idempotent:
  assumes "mnt_is_mount E (target req) (w_fs w) (w_ext w) = ((m, err), x)"
    and "m \<and> err = None \<or> (\<exists>e. err = Some e \<and> \<not> is_not_exist e \<and> mnt_corrupted E e)"
  shows "\<exists>w'. ns_NodeStageVolume E req w = (Ret (Inr ()), w') \<and> w_fs w' = w_fs w \<and>
    w_trace w' = w_trace w @ [EvLock (st_VolumeId req), EvUnlock (st_VolumeId req)]"
proof -
  let ?w1 = "(locked (st_VolumeId req) w)\<lparr>w_ext := x\<rparr>"
  have "isStaged E (target req) (locked (st_VolumeId req) w) = (Ret (Inr True), ?w1)"
    using assms by (auto simp: isStaged_run locked_def)
  then have "ns_NodeStageVolume E req w = (Ret (Inr ()), unlocked (st_VolumeId req) ?w1)"
    unfolding ns_NodeStageVolume_def Let_def by (intro withLock_locked) (simp add: prog_simps)
  then show ?thesis by (simp add: locked_def unlocked_def)
qed

definition demo_stage :: StageRequest where
  "demo_stage = \<lparr>st_VolumeId = ''c1:p1:v-1'', st_StagingTargetPath = ''/stage'', st_VolumeContext = None,
     st_AccessType = MountAccess ''xfs'' [], st_AccessMode = SINGLE_NODE_WRITER\<rparr>"

theorem stage_idempotent_witness:
  "\<exists>w'. ns_NodeStageVolume (demo_env\<lparr>mnt_is_mount := \<lambda>_ _ x. ((True, None), x)\<rparr>) demo_stage (demo_world [] []) =
      (Ret (Inr ()), w') \<and> w_trace w' = [EvLock ''c1:p1:v-1'', EvUnlock ''c1:p1:v-1'']"
  using stage_idempotent [of "demo_env\<lparr>mnt_is_mount := \<lambda>_ _ x. ((True, None), x)\<rparr>" demo_stage "demo_world [] []" True None "[]"]
  by (auto simp: demo_world_def demo_stage_def)

lemma stage_not_staged:
  assumes "isStaged E (target req) (locked (st_VolumeId req) w) = (Ret (Inr False), w0)"
    and "st_VolumeContext req = Some context" and "NewSpdkCsiInitiator (staged_context req context) = Inr i"
    and "Connect E i w0 = (Ret (Inr dev), w1)"
    and "disconnectOnError (Disconnect E i)
      (bindE (mapErr toInternal (stageVolume E dev (target req) req (staged_context req context))) (\<lambda>_.
         mapErr toInternal (StashVolumeContext E (Some (AList.update ''devicePath'' dev (staged_context req context)))
           (st_StagingTargetPath req)))) w1 = (r, w2)"
  shows "ns_NodeStageVolume E req w = (r, unlocked (st_VolumeId req) w2)"
  unfolding ns_NodeStageVolume_def Let_def using assms
  by (intro withLock_locked) (simp add: prog_simps staged_context_def)

text \<open>
  C23. If the device was connected but mounting it or stashing the context fails, the device is disconnected again
  before the handler returns the error, whether or not disconnecting succeeds.
\<close>

theorem stage_failure_disconnects:
  assumes "isStaged E (target req) (locked (st_VolumeId req) w) = (Ret (Inr False), w0)"
    and "st_VolumeContext req = Some context" and "NewSpdkCsiInitiator (staged_context req context) = Inr i"
    and "Connect E i w0 = (Ret (Inr dev), w1)"
    and "stageVolume E dev (target req) req (staged_context req context) w1 = (Ret (Inl e), w2) \<or>
      stageVolume E dev (target req) req (staged_context req context) w1 = (Ret (Inr ()), wm) \<and>
      StashVolumeContext E (Some (AList.update ''devicePath'' dev (staged_context req context)))
        (st_StagingTargetPath req) wm = (Ret (Inl e), w2)"
    and "Disconnect E i w2 = (Ret r, w3)"
  shows "ns_NodeStageVolume E req w = (Ret (Inl (toInternal e)), unlocked (st_VolumeId req) w3)"
proof (rule stage_not_staged [OF assms(1-4)])
  let ?use = "bindE (mapErr toInternal (stageVolume E dev (target req) req (staged_context req context))) (\<lambda>_.
         mapErr toInternal (StashVolumeContext E (Some (AList.update ''devicePath'' dev (staged_context req context)))
           (st_StagingTargetPath req)))"
  have "?use w1 = (Ret (Inl (toInternal e)), w2)" using assms(5) by (auto simp: prog_simps)
  then show "disconnectOnError (Disconnect E i) ?use w1 = (Ret (Inl (toInternal e)), w3)"
    using assms(6) by (simp add: disconnectOnError_def prog_simps)
qed

lemma run_eq: "fst p = r \<Longrightarrow> p = (r, snd p)"
  by (cases p) simp

definition failing_env :: "(goerr + http_response) list env" where
  "failing_env = demo_env\<lparr>run_cmd := \<lambda>_ _ x. (CmdDone None ''NQN=q'', x),
     mnt_format_mount := \<lambda>_ _ _ _ _ x. (Some (ErrorString ''mount failed''), x)\<rparr>"

definition ready_context :: gomap where
  "ready_context = [(''targetType'', ''tcp''), (''connections'', ''[]''), (''nqn'', ''q''), (''model'', ''v-1''), (''nsId'', ''1'')]"

definition ready_request :: StageRequest where
  "ready_request = \<lparr>st_VolumeId = ''v'', st_StagingTargetPath = ''/stage'', st_VolumeContext = Some ready_context,
     st_AccessType = MountAccess ''ext4'' [], st_AccessMode = SINGLE_NODE_WRITER\<rparr>"

definition ready_initiator :: initiator where
  "ready_initiator = InitiatorNVMf \<lparr>nv_targetType = ''tcp'', nv_connections = [], nv_nqn = ''q'', nv_reconnectDelay = [],
     nv_nrIoQueues = [], nv_ctrlLossTmo = [], nv_model = ''v-1'', nv_nsId = ''1''\<rparr>"

theorem stage_failure_disconnects_witness:
  "\<exists>e w3. ns_NodeStageVolume failing_env ready_request (demo_world [] []) =
    (Ret (Inl (toInternal e)), unlocked ''v'' w3)"
proof -
  let ?a = "isStaged failing_env (target ready_request) (locked (st_VolumeId ready_request) (demo_world [] []))"
  let ?b = "Connect failing_env ready_initiator (snd ?a)"
  let ?d = "''/dev/disk/by-id/*v-1*_1*''"
  let ?c = "stageVolume failing_env ?d (target ready_request) ready_request (staged_context ready_request ready_context) (snd ?b)"
  let ?e = "Disconnect failing_env ready_initiator (snd ?c)"
  have a: "fst ?a = Ret (Inr False)" by code_simp
  have i: "NewSpdkCsiInitiator (staged_context ready_request ready_context) = Inr ready_initiator" by code_simp
  have b: "fst ?b = Ret (Inr ?d)" by code_simp
  have c: "fst ?c = Ret (Inl (ErrorString ''mount failed''))" by code_simp
  have "(case fst ?e of Ret (Inl e) \<Rightarrow> True | _ \<Rightarrow> False)" by code_simp
  then obtain r where e: "fst ?e = Ret r" by (cases "fst ?e") auto
  have "st_VolumeContext ready_request = Some ready_context" by (simp add: ready_request_def)
  from stage_failure_disconnects [OF run_eq [OF a] this i run_eq [OF b] disjI1 [OF run_eq [OF c]]
      run_eq [OF e]]
  show ?thesis by (auto simp: ready_request_def)
qed

text \<open>
  A request without a volume context makes staging panic (the code writes to the nil map), before anything is
  connected; the lock of the volume is given back all the same.
\<close>

theorem stage_nil_context_panics:
  assumes "isStaged E (target req) (locked (st_VolumeId req) w) = (Ret (Inr False), w0)"
    and "st_VolumeContext req = None"
  shows "ns_NodeStageVolume E req w = (Panicked ''assignment to entry in nil map'', unlocked (st_VolumeId req) w0)"
  unfolding ns_NodeStageVolume_def Let_def using assms by (intro withLock_locked) (simp add: prog_simps)

theorem stage_nil_context_panics_witness:
  "\<exists>w0. ns_NodeStageVolume demo_env demo_stage (demo_world [] []) =
    (Panicked ''assignment to entry in nil map'', unlocked ''c1:p1:v-1'' w0)"
proof -
  have "fst (isStaged demo_env (target demo_stage) (locked (st_VolumeId demo_stage) (demo_world [] []))) = Ret (Inr False)"
    by code_simp
  then obtain w0 where "isStaged demo_env (target demo_stage) (locked (st_VolumeId demo_stage) (demo_world [] [])) =
      (Ret (Inr False), w0)" by (metis prod.collapse)
  then show ?thesis using stage_nil_context_panics [of demo_env demo_stage "demo_world [] []" w0]
    by (auto simp: demo_stage_def)
qed

section \<open>Through the stash\<close>

lemma disconnectOnError_InrE: "disconnectOnError d m w = (Ret (Inr a), w') \<Longrightarrow> m w = (Ret (Inr a), w')"
  unfolding disconnectOnError_def
  by (auto simp: throw_def ret_def elim!: bindP_RetE split: sum.splits)

lemma utf8_map_update:
  assumes "utf8_map m" and "valid_utf8 k" and "valid_utf8 v"
  shows "utf8_map (AList.update k v m)"
proof -
  have "set (AList.update k v m) \<subseteq> insert (k, v) (set m)" by (induction m) auto
  then show ?thesis using assms by (auto simp: utf8_map_def distinct_update)
qed

lemma ctx_slot_unlocked [simp]: "ctx_slot f (unlocked k w) p = ctx_slot f w p"
  by (simp add: ctx_slot_def unlocked_def)

lemma stage_success:
  assumes "ns_NodeStageVolume E req w = (Ret (Inr ()), w1)"
    and "isStaged E (target req) (locked (st_VolumeId req) w) = (Ret (Inr False), w0)"
    and "st_VolumeContext req = Some context"
  obtains i dev wc wm ws where "NewSpdkCsiInitiator (staged_context req context) = Inr i"
    and "Connect E i w0 = (Ret (Inr dev), wc)"
    and "StashVolumeContext E (Some (AList.update ''devicePath'' dev (staged_context req context)))
      (st_StagingTargetPath req) wm = (Ret (Inr ()), ws)"
    and "w1 = unlocked (st_VolumeId req) ws"
proof -
  let ?vc = "staged_context req context"
  let ?rest = "\<lambda>initiator. bindE (mapErr toInternal (Connect E initiator)) (\<lambda>devicePath.
     disconnectOnError (Disconnect E initiator)
       (bindE (mapErr toInternal (stageVolume E devicePath (target req) req ?vc)) (\<lambda>_.
          mapErr toInternal (StashVolumeContext E (Some (AList.update ''devicePath'' devicePath ?vc))
            (st_StagingTargetPath req)))))"
  obtain ws where body: "bindE (ret (map_sum toInternal id (NewSpdkCsiInitiator ?vc))) ?rest w0 = (Ret (Inr ()), ws)"
    and w1: "w1 = unlocked (st_VolumeId req) ws"
    using assms(1) unfolding ns_NodeStageVolume_def Let_def
    by (rule withLock_RetE) (use assms(2,3) in \<open>simp add: prog_simps staged_context_def\<close>)
  obtain i where i: "NewSpdkCsiInitiator ?vc = Inr i" and rest: "?rest i w0 = (Ret (Inr ()), ws)"
    using body by (rule bindE_InrE) (cases "NewSpdkCsiInitiator ?vc"; simp add: ret_def)
  obtain dev wc where c: "mapErr toInternal (Connect E i) w0 = (Ret (Inr dev), wc)"
    and d: "disconnectOnError (Disconnect E i) (bindE (mapErr toInternal (stageVolume E dev (target req) req ?vc)) (\<lambda>_.
          mapErr toInternal (StashVolumeContext E (Some (AList.update ''devicePath'' dev ?vc))
            (st_StagingTargetPath req)))) wc = (Ret (Inr ()), ws)"
    using rest by (rule bindE_InrE)
  obtain wm where "mapErr toInternal (StashVolumeContext E (Some (AList.update ''devicePath'' dev ?vc))
      (st_StagingTargetPath req)) wm = (Ret (Inr ()), ws)"
    using disconnectOnError_InrE [OF d] by (rule bindE_InrE)
  then show thesis using that i mapErr_InrE [OF c] w1 by (blast dest: mapErr_InrE)
qed

lemma staged_found:
  assumes "ns_NodeStageVolume E req w = (Ret (Inr ()), w1)"
    and "isStaged E (target req) (locked (st_VolumeId req) w) = (Ret (Inr False), w0)"
    and "st_VolumeContext req = Some context" and "utf8_map context" and "valid_utf8 (st_StagingTargetPath req)"
    and "\<forall>i dev w'. NewSpdkCsiInitiator (staged_context req context) = Inr i \<longrightarrow>
      Connect E i w0 = (Ret (Inr dev), w') \<longrightarrow> valid_utf8 dev \<and> dev \<noteq> []"
    and "ctx_slot volumeContextFileName w2 (st_StagingTargetPath req) = ctx_slot volumeContextFileName w1 (st_StagingTargetPath req)"
    and "ctx_readable E volumeContextFileName w2 (st_StagingTargetPath req)"
  shows "\<exists>i dev vc' wc w3. NewSpdkCsiInitiator (staged_context req context) = Inr i \<and>
    Connect E i w0 = (Ret (Inr dev), wc) \<and>
    LookupVolumeContext E (st_StagingTargetPath req) w2 = (Ret (Inr vc'), w3) \<and> NewSpdkCsiInitiator vc' = Inr i \<and>
    contextDevice E volumeID (st_StagingTargetPath req) w2 = (Ret (Inr dev), w3)"
proof -
  let ?p = "st_StagingTargetPath req" and ?vc = "staged_context req context"
  obtain i dev wc wm ws where i: "NewSpdkCsiInitiator ?vc = Inr i" and c: "Connect E i w0 = (Ret (Inr dev), wc)"
    and stash: "StashVolumeContext E (Some (AList.update ''devicePath'' dev ?vc)) ?p wm = (Ret (Inr ()), ws)"
    and w1: "w1 = unlocked (st_VolumeId req) ws"
    using assms(1-3) by (rule stage_success)
  have dev: "valid_utf8 dev" "dev \<noteq> []" using assms(6) i c by blast+
  have "valid_utf8 ''stagingParentPath''" "valid_utf8 ''devicePath''" by code_simp+
  then have "utf8_map (AList.update ''devicePath'' dev ?vc)"
    unfolding staged_context_def using assms(4,5) dev(1) by (intro utf8_map_update)
  then obtain vc' w3 where l: "LookupVolumeContext E ?p w2 = (Ret (Inr vc'), w3)"
    and m: "map_of vc' = map_of (AList.update ''devicePath'' dev ?vc)"
    using vol_ctx.lookup_stash [OF _ stash _ assms(8)] assms(7) w1 by fastforce
  have "NewSpdkCsiInitiator vc' = NewSpdkCsiInitiator ?vc"
    by (rule NewSpdkCsiInitiator_cong) (auto simp: m initiator_keys_def)
  moreover have "contextDevice E volumeID ?p w2 = (Ret (Inr dev), w3)"
    using l m dev(2) by (simp add: contextDevice_def stashedDevice_def prog_simps)
  ultimately show ?thesis using i c l by metis
qed

text \<open>
  C19. What staging stashes is what the later calls find: as long as the stash file is left alone, a lookup gives a
  context from which unstaging makes the very initiator that staging connected, and publishing a block device and
  expanding get the device file that this connection returned.
\<close>

theorem staged_context_found:
  assumes "ns_NodeStageVolume E req w = (Ret (Inr ()), w1)"
    and "isStaged E (target req) (locked (st_VolumeId req) w) = (Ret (Inr False), w0)"
    and "st_VolumeContext req = Some context" and "utf8_map context" and "valid_utf8 (st_StagingTargetPath req)"
    and "\<forall>i dev w'. NewSpdkCsiInitiator (staged_context req context) = Inr i \<longrightarrow>
      Connect E i w0 = (Ret (Inr dev), w') \<longrightarrow> valid_utf8 dev \<and> dev \<noteq> []"
    and "ctx_slot volumeContextFileName w2 (st_StagingTargetPath req) = ctx_slot volumeContextFileName w1 (st_StagingTargetPath req)"
    and "ctx_readable E volumeContextFileName w2 (st_StagingTargetPath req)"
  shows "\<exists>i dev vc' wc w3. NewSpdkCsiInitiator (staged_context req context) = Inr i \<and>
    Connect E i w0 = (Ret (Inr dev), wc) \<and>
    LookupVolumeContext E (st_StagingTargetPath req) w2 = (Ret (Inr vc'), w3) \<and> NewSpdkCsiInitiator vc' = Inr i \<and>
    contextDevice E volumeID (st_StagingTargetPath req) w2 = (Ret (Inr dev), w3)"
  using assms by (rule staged_found)

definition ready_env :: "(goerr + http_response) list env" where
  "ready_env = demo_env\<lparr>run_cmd := \<lambda>_ _ x. (CmdDone None ''NQN=q'', x)\<rparr>"

theorem staged_context_found_witness:
  "\<exists>w1 dev vc' w3. ns_NodeStageVolume ready_env ready_request (demo_world [] []) = (Ret (Inr ()), w1) \<and>
    LookupVolumeContext ready_env ''/stage'' w1 = (Ret (Inr vc'), w3) \<and> NewSpdkCsiInitiator vc' = Inr ready_initiator \<and>
    contextDevice ready_env ''v'' ''/stage'' w1 = (Ret (Inr dev), w3)"
proof -
  let ?s = "ns_NodeStageVolume ready_env ready_request (demo_world [] [])"
  let ?a = "isStaged ready_env (target ready_request) (locked (st_VolumeId ready_request) (demo_world [] []))"
  have run: "fst ?s = Ret (Inr ())" by code_simp
  have a: "fst ?a = Ret (Inr False)" by code_simp
  have i: "NewSpdkCsiInitiator (staged_context ready_request ready_context) = Inr ready_initiator" by code_simp
  have c: "fst (Connect ready_env ready_initiator (snd ?a)) = Ret (Inr ''/dev/disk/by-id/*v-1*_1*'')" by code_simp
  have utf: "utf8_map ready_context" "valid_utf8 ''/stage''" "valid_utf8 ''/dev/disk/by-id/*v-1*_1*''" by code_simp+
  have ctx: "st_VolumeContext ready_request = Some ready_context" "st_StagingTargetPath ready_request = ''/stage''"
    by (simp_all add: ready_request_def)
  have readable: "ctx_readable ready_env volumeContextFileName (snd ?s) (st_StagingTargetPath ready_request)"
    by (simp add: ctx_readable_def ready_env_def demo_env_def)
  have devices: "\<forall>i dev w'. NewSpdkCsiInitiator (staged_context ready_request ready_context) = Inr i \<longrightarrow>
      Connect ready_env i (snd ?a) = (Ret (Inr dev), w') \<longrightarrow> valid_utf8 dev \<and> dev \<noteq> []"
    using i c utf(3) by auto
  obtain i' dev vc' w3 where "NewSpdkCsiInitiator (staged_context ready_request ready_context) = Inr i'"
    and "LookupVolumeContext ready_env (st_StagingTargetPath ready_request) (snd ?s) = (Ret (Inr vc'), w3)"
    and "NewSpdkCsiInitiator vc' = Inr i'"
    and "contextDevice ready_env ''v'' (st_StagingTargetPath ready_request) (snd ?s) = (Ret (Inr dev), w3)"
    using staged_context_found [where volumeID = "''v''", OF run_eq [OF run] run_eq [OF a] ctx(1) utf(1)
        utf(2) [folded ctx(2)] devices refl readable] by blast
  then show ?thesis using run_eq [OF run] i ctx(2) by auto
qed

section \<open>Unstaging\<close>

text \<open>Files are only removed.\<close>

definition no_new :: "'x world \<Rightarrow> 'x world \<Rightarrow> bool" where
  "no_new w w' \<longleftrightarrow> (\<forall>c. node_at (w_fs w) c = None \<longrightarrow> node_at (w_fs w') c = None)"

interpretation removing: effect_rel no_new
  by unfold_locales (auto simp: no_new_def)

lemma same_fs_no_new: "keeps same_fs m \<Longrightarrow> keeps no_new m"
  by (erule keeps_mono) (simp add: same_fs_def no_new_def)

lemma keeps_RemoveAll_no_new: "keeps no_new (RemoveAll E p)"
  by (rule keepsI) (metis RemoveAll_node no_new_def)

lemma keeps_deleteMountPoint_no_new: "keeps no_new (deleteMountPoint E p)"
proof -
  have "keeps no_new (Unmount E p)"
    unfolding Unmount_def orErr_def by (intro removing.keeps_rules same_fs_no_new keeps_service_fs)
  then show ?thesis unfolding deleteMountPoint_def Let_def
    by (intro removing.keeps_rules keeps_RemoveAll_no_new same_fs_no_new [OF keeps_IsMountPoint(2)])
qed

text \<open>
  C33. Unstaging is not idempotent: once it has succeeded, unstaging the volume again fails, because the context it
  looks up is gone, as long as nothing stages the volume in between.
\<close>

theorem unstage_once:
  assumes "ns_NodeUnstageVolume E volumeID path w = (Ret (Inr ()), w1)"
    and "ctx_slot volumeContextFileName w2 path = ctx_slot volumeContextFileName w1 path"
  shows "ns_NodeUnstageVolume E volumeID path w2 \<noteq> (Ret (Inr ()), w3)"
proof
  assume again: "ns_NodeUnstageVolume E volumeID path w2 = (Ret (Inr ()), w3)"
  obtain wx wy where "CleanUpVolumeContext E path wx = (Ret (Inr ()), wy)" and "w1 = unlocked volumeID wy"
    using assms(1) unfolding ns_NodeUnstageVolume_def Let_def
    by (auto elim!: withLock_RetE bindE_InrE dest!: mapErr_InrE)
  then have gone: "ctx_slot volumeContextFileName (locked volumeID w2) path = None"
    using cleanUpContext_slot(2) assms(2) by (simp add: CleanUpVolumeContext_def ctx_slot_def locked_def unlocked_def)
  obtain wa vc wb where del: "deleteMountPoint E (getStagingTargetPath path volumeID) (locked volumeID w2) = (Ret (Inr ()), wa)"
    and look: "LookupVolumeContext E path wa = (Ret (Inr vc), wb)"
    using again unfolding ns_NodeUnstageVolume_def Let_def
    by (auto elim!: withLock_RetE bindE_InrE dest!: mapErr_InrE)
  have "ctx_slot volumeContextFileName wa path = None"
    using keepsD [OF keeps_deleteMountPoint_no_new del] gone by (simp add: no_new_def ctx_slot_def)
  from lookup_absent [OF this, of E] show False using look by (auto simp: LookupVolumeContext_def)
qed

definition gone_env :: "(goerr + http_response) list env" where
  "gone_env = demo_env\<lparr>dev_glob := \<lambda>_ x. (Inr [], x)\<rparr>"

theorem unstage_once_witness:
  "\<exists>w1. ns_NodeUnstageVolume gone_env ''v'' ''/s'' (demo_world [([''s''], FDir), ([''s'', ''volume-context.json''],
       FFile ''{\"targetType\":\"tcp\",\"connections\":\"[]\",\"model\":\"m\"}'')] []) = (Ret (Inr ()), w1) \<and>
    ns_NodeUnstageVolume gone_env ''v'' ''/s'' w1 \<noteq> (Ret (Inr ()), w1)"
proof -
  let ?u = "ns_NodeUnstageVolume gone_env ''v'' ''/s'' (demo_world [([''s''], FDir), ([''s'', ''volume-context.json''],
       FFile ''{\"targetType\":\"tcp\",\"connections\":\"[]\",\"model\":\"m\"}'')] [])"
  have run: "fst ?u = Ret (Inr ())" by code_simp
  show ?thesis using unstage_once [OF run_eq [OF run] refl] run_eq [OF run] by blast
qed

section \<open>Mounting\<close>

lemma createMountPoint_fresh:
  assumes "mnt_is_mount E p (w_fs w) (w_ext w) = ((False, None), x)"
  shows "createMountPoint E p w = (Ret (Inr False), w\<lparr>w_ext := x\<rparr>)"
  using assms by (simp add: createMountPoint_def IsMountPoint_def service_def bindP_def ret_def)

text \<open>
  An xfs volume is formatted with a stripe unit and width of eight times its number of data chunks, in \<open>int\<close>
  arithmetic that wraps around, and mounted with the requested flags, \<open>nouuid\<close>, and \<open>ro\<close> exactly for the reader
  modes; nothing else is called.
\<close>

theorem xfs_mount_options:
  assumes "st_AccessType req = MountAccess ''xfs'' flags"
    and "get0 vc ''distr_ndcs'' = Itoa n" and "int64_range n"
    and "mnt_is_mount E p (w_fs w) (w_ext w) = ((False, None), x)"
    and "opts = [''-d'', ''sunit='' @ Itoa (wrap64 (8 * n)) @ '',swidth='' @ Itoa (wrap64 (8 * n)), ''-l'',
      ''sunit='' @ Itoa (wrap64 (8 * n))]"
    and "flags' = flags @ ''nouuid'' # (if st_AccessMode req \<in> {SINGLE_NODE_READER_ONLY, MULTI_NODE_READER_ONLY}
      then [''ro''] else [])"
  shows "\<exists>w'. stageVolume E dev p req vc w =
      (Ret (case fst (mnt_format_mount E dev p ''xfs'' flags' opts x) of None \<Rightarrow> Inr () | Some err \<Rightarrow> Inl err), w') \<and>
    w_trace w' = w_trace w @ [EvFormatMount dev p ''xfs'' flags' opts]"
proof -
  let ?w1 = "w\<lparr>w_ext := x\<rparr>"
  obtain r y where m: "mnt_format_mount E dev p ''xfs'' flags' opts x = (r, y)" by (cases "mnt_format_mount E dev p ''xfs'' flags' opts x")
  have ndcs: "Atoi (get0 vc ''distr_ndcs'') = Inr n" using assms(2,3) atoi64.dec_enc by simp
  let ?w2 = "w\<lparr>w_ext := y, w_trace := w_trace w @ [EvFormatMount dev p ''xfs'' flags' opts]\<rparr>"
  have fm: "FormatAndMount E dev p ''xfs'' flags' opts ?w1 = (Ret (case r of None \<Rightarrow> Inr () | Some err \<Rightarrow> Inl err), ?w2)"
    using m by (simp add: FormatAndMount_def orErr_def service_def bindP_def ret_def)
  have opts: "xfsOptions n = opts" by (simp add: xfsOptions_def assms(5) Let_def)
  have flags: "(if st_AccessMode req = SINGLE_NODE_READER_ONLY \<or> st_AccessMode req = MULTI_NODE_READER_ONLY
      then (flags @ [''nouuid'']) @ [''ro''] else flags @ [''nouuid'']) = flags'"
    by (simp add: assms(6))
  have "stageVolume E dev p req vc w =
      bindE (FormatAndMount E dev p ''xfs'' flags' opts) (\<lambda>_. ret (Inr ())) ?w1"
    using createMountPoint_fresh [OF assms(4)] ndcs opts flags
    by (simp add: stageVolume_def assms(1) Let_def prog_simps)
  then show ?thesis using fm m by (cases r) (simp_all add: prog_simps)
qed

definition xfs_request :: StageRequest where
  "xfs_request = ready_request\<lparr>st_AccessType := MountAccess ''xfs'' [''noatime''], st_AccessMode := MULTI_NODE_READER_ONLY\<rparr>"

definition mounting_env :: "(goerr + http_response) list env" where
  "mounting_env = demo_env\<lparr>mnt_is_mount := \<lambda>_ _ x. ((False, None), x)\<rparr>"

theorem xfs_mount_options_witness:
  "\<exists>w'. stageVolume mounting_env ''/dev/d'' ''/m'' xfs_request [(''distr_ndcs'', Itoa 2)] (demo_world [] []) = (Ret (Inr ()), w') \<and>
    w_trace w' = [EvFormatMount ''/dev/d'' ''/m'' ''xfs'' [''noatime'', ''nouuid'', ''ro'']
      [''-d'', ''sunit=16,swidth=16'', ''-l'', ''sunit=16'']]"
proof -
  have w: "Itoa (wrap64 (8 * 2)) = ''16''" and r: "int64_range 2" by code_simp+
  have access: "st_AccessType xfs_request = MountAccess ''xfs'' [''noatime'']"
    "st_AccessMode xfs_request = MULTI_NODE_READER_ONLY" by (simp_all add: xfs_request_def)
  have fresh: "mnt_is_mount mounting_env ''/m'' (w_fs (demo_world [] [])) (w_ext (demo_world [] [])) = ((False, None), [])"
    by (simp add: mounting_env_def demo_world_def)
  have vc: "get0 [(''distr_ndcs'', Itoa 2)] ''distr_ndcs'' = Itoa 2" by (simp add: get0_def)
  show ?thesis
    using xfs_mount_options [OF access(1) vc r fresh refl refl, of "''/dev/d''"] access(2) unfolding w
    by (simp add: mounting_env_def demo_env_def demo_world_def)
qed

end
