(* ===== verification/JsonTyping.thy ===== *)
theory JsonTyping
  imports JsonData
begin

text \<open>
  What decoding guarantees of its result: a text that Go's decoder has accepted gives strings of valid UTF-8 and
  integers of 64 bits, in every struct that is made of them.
\<close>

definition decodes_to :: "('a \<Rightarrow> bool) \<Rightarrow> 'a decoder \<Rightarrow> bool" where
  "decodes_to I f \<longleftrightarrow> (\<forall>d v s s'. jwf d v \<longrightarrow> I s \<longrightarrow> f v s = Inr s' \<longrightarrow> I s')"

named_theorems typing_rules "what decoders decode to"

lemma decodes_toI: "(\<And>d v s s'. jwf d v \<Longrightarrow> I s \<Longrightarrow> f v s = Inr s' \<Longrightarrow> I s') \<Longrightarrow> decodes_to I f"
  unfolding decodes_to_def by blast

lemma decodes_toD: "decodes_to I f \<Longrightarrow> jwf d v \<Longrightarrow> I s \<Longrightarrow> f v s = Inr s' \<Longrightarrow> I s'"
  unfolding decodes_to_def by blast

lemma string_typing [typing_rules]: "decodes_to valid_utf8 dec_string"
proof (rule decodes_toI)
  fix d v s s'
  assume "jwf d v" "valid_utf8 s" "dec_string v s = Inr s'"
  then show "valid_utf8 s'" by (cases v) auto
qed

lemma int_typing [typing_rules]: "decodes_to int64_range dec_int"
proof (rule decodes_toI)
  fix d v s s'
  assume "jwf d v" "int64_range s" "dec_int v s = Inr s'"
  then show "int64_range s'" by (cases v) (auto simp: ParseInt_def split: sum.splits dest: parse_int_range)
qed

lemma field_typing:
  assumes "decodes_to J f" and "\<And>s. I s \<Longrightarrow> J (get s)" and "\<And>b s. I s \<Longrightarrow> J b \<Longrightarrow> I (upd b s)"
  shows "decodes_to I (field f get upd)"
proof (rule decodes_toI)
  fix d v s s'
  assume v: "jwf d v" and s: "I s" and "field f get upd v s = Inr s'"
  then obtain b where "f v (get s) = Inr b" and s': "s' = upd b s" by (auto simp: field_def split: sum.splits)
  then have "J b" using decodes_toD [OF assms(1) v] assms(2) [OF s] by blast
  then show "I s'" using assms(3) s by (simp add: s')
qed

lemma field_of_typing:
  assumes "\<forall>(n, f) \<in> set fs. decodes_to I f" and "field_of fs k = Some f"
  shows "decodes_to I f"
  using assms by (auto simp: field_of_def find_Some_iff dest!: map_of_SomeD nth_mem split: option.splits)

lemma members_typing:
  assumes "\<forall>(n, f) \<in> set fs. decodes_to I f"
  shows "\<forall>(k, v) \<in> set ms. jwf d v \<Longrightarrow> I s \<Longrightarrow> dec_members fs ms s = Inr s' \<Longrightarrow> I s'"
proof (induction ms arbitrary: s)
  case (Cons m ms)
  obtain k v where m: "m = (k, v)" by (cases m)
  show ?case
  proof (cases "field_of fs k")
    case None
    then show ?thesis using Cons by (simp add: m)
  next
    case (Some f)
    then obtain t where t: "f v s = Inr t" "dec_members fs ms t = Inr s'"
      using Cons.prems(3) by (auto simp: m split: sum.splits)
    moreover have "jwf d v" using Cons.prems(1) by (simp add: m)
    ultimately have "I t" using decodes_toD [OF field_of_typing [OF assms Some] _ Cons.prems(2)] by blast
    then show ?thesis using Cons.IH [OF _ _ t(2)] Cons.prems(1) by simp
  qed
qed simp

lemma struct_typing: "(\<forall>(n, f) \<in> set fs. decodes_to I f) \<Longrightarrow> decodes_to I (dec_struct fs)"
proof (rule decodes_toI)
  fix d v s s'
  assume fs: "\<forall>(n, f) \<in> set fs. decodes_to I f" and v: "jwf d v" and s: "I s" and run: "dec_struct fs v s = Inr s'"
  show "I s'"
  proof (cases v)
    case (JObj ms)
    then have "\<forall>(k, v) \<in> set ms. jwf (d - 1) v" using v by auto
    then show ?thesis using members_typing [OF fs] s run JObj by simp
  qed (use s run in simp_all)
qed

lemma ptr_typing:
  assumes "decodes_to I f" and "I z"
  shows "decodes_to (\<lambda>p. \<forall>a. p = Some a \<longrightarrow> I a) (dec_ptr f z)"
proof (rule decodes_toI)
  fix d v p p'
  assume v: "jwf d v" and p: "\<forall>a. p = Some a \<longrightarrow> I a" and run: "dec_ptr f z v p = Inr p'"
  have start: "I (case p of None \<Rightarrow> z | Some a \<Rightarrow> a)" using assms(2) p by (simp split: option.split)
  show "\<forall>a. p' = Some a \<longrightarrow> I a"
  proof (cases "p' = None")
    case False
    then obtain a where "p' = Some a" "f v (case p of None \<Rightarrow> z | Some a \<Rightarrow> a) = Inr a"
      using run by (cases v) (auto split: sum.splits)
    then show ?thesis using decodes_toD [OF assms(1) v start] by simp
  qed simp
qed

lemma elems_all: "dec_elems f vs = Inr xs \<Longrightarrow> x \<in> set xs \<Longrightarrow> \<exists>v \<in> set vs. f v = Inr x"
  by (induction vs arbitrary: xs) (auto split: sum.splits)

lemma slice_typing:
  assumes "decodes_to I f" and "I z"
  shows "decodes_to (\<lambda>xs. \<forall>x \<in> set xs. I x) (dec_slice f z)"
proof (rule decodes_toI)
  fix d v and xs ys :: "'a list"
  assume v: "jwf d v" and xs: "\<forall>x \<in> set xs. I x" and run: "dec_slice f z v xs = Inr ys"
  show "\<forall>x \<in> set ys. I x"
  proof (cases v)
    case (JArr vs)
    have "I y" if y: "y \<in> set ys" for y
    proof -
      obtain u where "u \<in> set vs" "f u z = Inr y" using elems_all [OF _ y] run JArr by auto
      moreover have "jwf (d - 1) u" using v JArr calculation(1) by simp
      ultimately show ?thesis using decodes_toD [OF assms(1) _ assms(2)] by blast
    qed
    then show ?thesis by blast
  qed (use run in simp_all)
qed

text \<open>A text is read as a document that the rules above apply to.\<close>

lemma unmarshal_typing:
  assumes "decodes_to I f" and "I z" and "json_unmarshal f z s = Inr a"
  shows "I a"
proof -
  obtain v where "json_parse s = Some v" "f v z = Inr a"
    using assms(3) by (auto simp: json_unmarshal_def json_read_def split: option.splits sum.splits)
  then show ?thesis using decodes_toD [OF assms(1) json_parse_jwf _ ] assms(2) by blast
qed

end
