(* ===== verification/EndToEnd.thy ===== *)
theory EndToEnd
  imports Staging ControllerFacts JsonTyping
begin

text \<open>
  The way of a volume through the driver: the controller puts the connections that the cluster gave it into the volume
  context it answers with, Kubernetes hands that context to the node, and the node makes its initiator from it.
\<close>

section \<open>What the cluster's answer decodes to\<close>

definition resp_ok :: "LvolConnectResp \<Rightarrow> bool" where
  "resp_ok r \<longleftrightarrow> valid_utf8 (lc_Nqn r) \<and> valid_utf8 (lc_IP r) \<and> valid_utf8 (lc_Connect r) \<and>
     int64_range (lc_ReconnectDelay r) \<and> int64_range (lc_NrIoQueues r) \<and> int64_range (lc_CtrlLossTmo r) \<and>
     int64_range (lc_Port r) \<and> int64_range (lc_NSID r)"

lemma resp_typing: "decodes_to resp_ok dec_LvolConnectResp"
  unfolding dec_LvolConnectResp_def
  by (rule struct_typing)
    (auto intro!: field_typing [OF string_typing] field_typing [OF int_typing] simp: resp_ok_def)

lemma zero_resp_ok: "resp_ok zero_LvolConnectResp"
  by (simp add: resp_ok_def zero_LvolConnectResp_def int64_range_def)

text \<open>A context the cluster's answer was turned into: its first response and all connections.\<close>

lemma info_of_result:
  assumes "(if None \<in> set result then panic p
    else case result of Some r # _ \<Rightarrow> ret (Inr (volumeInfoMap lvolID r cs)) | _ \<Rightarrow> panic q) w = (Ret (Inr m), w')"
  obtains r rs where "result = Some r # rs" "None \<notin> set result" "m = volumeInfoMap lvolID r cs"
proof -
  have "None \<notin> set result" using assms by (cases "None \<in> set result") (simp_all add: panic_def)
  moreover obtain r rs where "result = Some r # rs"
  proof (cases result)
    case (Cons p ps)
    then show ?thesis using that calculation by (cases p) auto
  qed (use assms in \<open>simp add: panic_def\<close>)
  ultimately show ?thesis using assms that by (simp add: ret_def)
qed

lemma getVolumeInfo_Inr:
  assumes "getVolumeInfo E client lvolID w = (Ret (Inr m), w')"
  shows "\<exists>r connections. m = volumeInfoMap lvolID r connections \<and> connections \<noteq> [] \<and> conns_ok connections \<and> resp_ok r"
  using assms unfolding getVolumeInfo_def Let_def
proof (elim bindE_ret_InrE bindE_InrE, goal_cases)
  case (1 out w1 result)
  from 1(3) obtain r rs where result: "result = Some r # rs" "None \<notin> set result"
    and m: "m = volumeInfoMap lvolID r (map (\<lambda>r. \<lparr>ci_IP = lc_IP (the r), ci_Port = lc_Port (the r)\<rparr>) result)"
    by (rule info_of_result)
  have ok: "\<forall>p \<in> set result. \<forall>r. p = Some r \<longrightarrow> resp_ok r"
    by (rule unmarshal_typing [OF slice_typing [OF ptr_typing [OF resp_typing zero_resp_ok]] _ 1(2) [unfolded redecode_def]])
      simp_all
  let ?cs = "map (\<lambda>r. \<lparr>ci_IP = lc_IP (the r), ci_Port = lc_Port (the r)\<rparr>) result"
  have "resp_ok (the p)" if "p \<in> set result" for p using ok result(2) that by (cases p) auto
  then have "conns_ok ?cs" by (simp add: conns_ok_def resp_ok_def list_all_iff)
  moreover have "resp_ok r" using ok by (simp add: result(1))
  ultimately show ?case using m by (intro exI [of _ r] exI [of _ ?cs]) (simp add: result(1))
qed

section \<open>From the controller to the node\<close>

lemma volumeInfoMap_keys:
  "distinct (map fst (volumeInfoMap lvolID r cs))" "map_of (volumeInfoMap lvolID r cs) ''type'' = None"
  by (simp_all add: volumeInfoMap_def)

text \<open>The type of target that the parameters of a storage class ask for.\<close>

definition class_type :: "gomap \<Rightarrow> string" where
  "class_type params = (case map_of params ''type'' of None \<Rightarrow> ''tcp'' | Some volType \<Rightarrow> volType)"

lemma volumeContext_info:
  assumes "k \<in> set initiator_keys"
  shows "map_of (volumeContext params (volumeInfoMap lvolID r cs)) k =
    (if k = ''targetType'' then Some (class_type params) else map_of (volumeInfoMap lvolID r cs) k)"
proof -
  let ?info = "volumeInfoMap lvolID r cs"
  have in_info: "\<exists>v. map_of ?info k = Some v" and target: "map_of ?info ''targetType'' = Some ''tcp''"
    using assms by (auto simp: initiator_keys_def volumeInfoMap_def)
  have merged: "map_of (merge_into ?info params) = map_of params ++ map_of ?info"
    by (rule map_of_merge_into [OF volumeInfoMap_keys(1)])
  show ?thesis
  proof (cases "map_of params ''type''")
    case None
    then have "map_of (merge_into ?info params) ''type'' = None"
      using merged volumeInfoMap_keys(2) by (simp add: map_add_def)
    then have "volumeContext params ?info = (if params = [] then ?info else merge_into ?info params)"
      by (simp add: volumeContext_def)
    then show ?thesis using in_info target merged None by (auto simp: class_type_def simp del: map_of_eq_None_iff)
  next
    case (Some volType)
    then have "params \<noteq> []" and "map_of (merge_into ?info params) ''type'' = Some volType"
      using merged volumeInfoMap_keys(2) by (auto simp: map_add_def)
    then have "volumeContext params ?info = AList.update ''targetType'' volType (merge_into ?info params)"
      by (simp add: volumeContext_def)
    then show ?thesis using in_info merged Some by (auto simp: class_type_def update_conv' simp del: map_of_eq_None_iff)
  qed
qed

text \<open>The initiator of a volume with the connections \<open>cs\<close> for a storage class with that type of target.\<close>

definition class_initiator :: "string \<Rightarrow> string \<Rightarrow> LvolConnectResp \<Rightarrow> connectionInfo list \<Rightarrow> goerr + initiator" where
  "class_initiator volType lvolID r cs =
     (if ToLower volType = ''tcp'' then Inr (InitiatorNVMf ((initiator_of r cs)\<lparr>nv_targetType := volType\<rparr>))
      else if ToLower volType = ''cache'' then Inr (InitiatorCache
        \<lparr>ca_lvol = lvolID, ca_model = snd (getLvolIDFromNQN (lc_Nqn r)),
         ca_client = \<lparr>rc_ClusterID = [], rc_ClusterIP = [], rc_ClusterSecret = [], rc_HTTPClient = False\<rparr>\<rparr>)
      else Inl (ErrorString (''unknown initiator: '' @ ToLower volType)))"

lemma context_initiator:
  assumes "conns_ok cs"
    and "\<And>k. k \<in> set initiator_keys \<Longrightarrow>
      map_of vc k = (if k = ''targetType'' then Some volType else map_of (volumeInfoMap lvolID r cs) k)"
  shows "NewSpdkCsiInitiator vc = class_initiator volType lvolID r cs"
proof -
  have "get0 vc k = (if k = ''targetType'' then volType else get0 (volumeInfoMap lvolID r cs) k)"
    if "k \<in> set initiator_keys" for k
    using assms(2) [OF that] by (simp add: get0_def)
  then have vals: "get0 vc ''targetType'' = volType"
    "get0 vc ''connections'' = jprint (JArr (map enc_connectionInfo cs))"
    "get0 vc ''nqn'' = lc_Nqn r" "get0 vc ''reconnectDelay'' = Itoa (lc_ReconnectDelay r)"
    "get0 vc ''nrIoQueues'' = Itoa (lc_NrIoQueues r)" "get0 vc ''ctrlLossTmo'' = Itoa (lc_CtrlLossTmo r)"
    "get0 vc ''model'' = snd (getLvolIDFromNQN (lc_Nqn r))" "get0 vc ''nsId'' = Itoa (lc_NSID r)" "get0 vc ''uuid'' = lvolID"
    by (simp_all add: initiator_keys_def volumeInfoMap_def get0_def del: jprint.simps)
  show ?thesis using conns.dec_enc [OF assms(1)]
    by (simp add: NewSpdkCsiInitiator_def Let_def vals class_initiator_def initiator_of_def del: jprint.simps ToLower.simps)
qed

lemma cs_publishVolume_InrE:
  assumes "cs_publishVolume E volumeID sb w = (Ret (Inr m), w')"
  obtains v w1 where "getSPDKVol volumeID = Inr v" "node_VolumeInfo E sb (sv_lvolID v) w1 = (Ret (Inr m), w')"
  using assms unfolding cs_publishVolume_def
  by (auto simp: ret_def throw_def elim!: bindE_InrE bindP_RetE split: sum.splits)

lemma created_context:
  assumes "cs_CreateVolume E req w = (Ret (Inr vol), w')"
  shows "\<exists>v sb r connections w1 w2. getSPDKVol (vol_VolumeId vol) = Inr v \<and>
    node_VolumeInfo E sb (sv_lvolID v) w1 = (Ret (Inr (volumeInfoMap (sv_lvolID v) r connections)), w2) \<and>
    connections \<noteq> [] \<and> NewSpdkCsiInitiator (staged_context sreq (vol_VolumeContext vol)) =
      class_initiator (class_type (cvr_Parameters req)) (sv_lvolID v) r connections"
proof -
  obtain cid sb created info w1 w2 w3 where created: "cs_createVolume E req sb w1 = (Ret (Inr created), w2)"
    and publish: "cs_publishVolume E (vol_VolumeId created) sb w2 = (Ret (Inr info), w3)"
    and vol: "vol = created\<lparr>vol_VolumeContext := volumeContext (vol_VolumeContext created) info\<rparr>"
    using assms by (rule cs_CreateVolume_InrE)
  obtain v w4 where v: "getSPDKVol (vol_VolumeId created) = Inr v"
    and VolumeInfo: "node_VolumeInfo E sb (sv_lvolID v) w4 = (Ret (Inr info), w3)"
    using publish by (rule cs_publishVolume_InrE)
  obtain r cs where info: "info = volumeInfoMap (sv_lvolID v) r cs" "cs \<noteq> []" "conns_ok cs"
    using getVolumeInfo_Inr VolumeInfo unfolding node_VolumeInfo_def by blast
  have "vol_VolumeContext created = cvr_Parameters req"
    using cs_createVolume_Inr [OF created] by (auto simp: newVolume_def)
  then have "map_of (staged_context sreq (vol_VolumeContext vol)) k =
      (if k = ''targetType'' then Some (class_type (cvr_Parameters req)) else map_of (volumeInfoMap (sv_lvolID v) r cs) k)"
    if "k \<in> set initiator_keys" for k
    using volumeContext_info [OF that] that by (auto simp: vol info staged_context_def initiator_keys_def)
  then have "NewSpdkCsiInitiator (staged_context sreq (vol_VolumeContext vol)) =
      class_initiator (class_type (cvr_Parameters req)) (sv_lvolID v) r cs"
    by (rule context_initiator [OF info(3)])
  moreover have "getSPDKVol (vol_VolumeId vol) = Inr v" using v by (simp add: vol)
  ultimately show ?thesis using VolumeInfo info(1,2) by blast
qed

lemma created_initiator:
  assumes "cs_CreateVolume E req w = (Ret (Inr vol), w')" and "map_of (cvr_Parameters req) ''type'' = None"
  shows "\<exists>v sb r connections w1 w2. getSPDKVol (vol_VolumeId vol) = Inr v \<and>
    node_VolumeInfo E sb (sv_lvolID v) w1 = (Ret (Inr (volumeInfoMap (sv_lvolID v) r connections)), w2) \<and>
    connections \<noteq> [] \<and>
    NewSpdkCsiInitiator (staged_context sreq (vol_VolumeContext vol)) = Inr (InitiatorNVMf (initiator_of r connections))"
proof -
  have tcp: "ToLower ''tcp'' = ''tcp''" by code_simp
  have "class_initiator (class_type (cvr_Parameters req)) lvolID r cs = Inr (InitiatorNVMf (initiator_of r cs))" for lvolID r cs
    using assms(2) tcp by (simp add: class_initiator_def class_type_def initiator_of_def del: ToLower.simps)
  then show ?thesis using created_context [OF assms(1), of sreq] by simp
qed

text \<open>
  C17. From the context that the controller answered with, a node makes its initiator of the connections and parameters
  that the cluster gave for that very volume: the NVMe initiator with all of them if the storage class names no type
  or \<open>tcp\<close>, the cache initiator for the volume if it names \<open>cache\<close>, and none for any other type. The volumes of a class
  of type \<open>cache\<close> can be created, but never connected.
\<close>

theorem created_volume_initiator:
  assumes "cs_CreateVolume E req w = (Ret (Inr vol), w')"
  shows "(\<exists>v sb r connections w1 w2. getSPDKVol (vol_VolumeId vol) = Inr v \<and>
      node_VolumeInfo E sb (sv_lvolID v) w1 = (Ret (Inr (volumeInfoMap (sv_lvolID v) r connections)), w2) \<and>
      connections \<noteq> [] \<and> NewSpdkCsiInitiator (staged_context sreq (vol_VolumeContext vol)) =
        class_initiator (class_type (cvr_Parameters req)) (sv_lvolID v) r connections) \<and>
    (ToLower (class_type (cvr_Parameters req)) = ''cache'' \<longrightarrow>
      (\<forall>i. NewSpdkCsiInitiator (staged_context sreq (vol_VolumeContext vol)) = Inr i \<longrightarrow>
        \<not> (\<exists>devicePath u'. Connect N i u = (Ret (Inr devicePath), u'))))"
proof (intro conjI impI allI)
  show "\<exists>v sb r connections w1 w2. getSPDKVol (vol_VolumeId vol) = Inr v \<and>
      node_VolumeInfo E sb (sv_lvolID v) w1 = (Ret (Inr (volumeInfoMap (sv_lvolID v) r connections)), w2) \<and>
      connections \<noteq> [] \<and> NewSpdkCsiInitiator (staged_context sreq (vol_VolumeContext vol)) =
        class_initiator (class_type (cvr_Parameters req)) (sv_lvolID v) r connections"
    using assms by (rule created_context)
  fix i
  assume cache: "ToLower (class_type (cvr_Parameters req)) = ''cache''"
    and i: "NewSpdkCsiInitiator (staged_context sreq (vol_VolumeContext vol)) = Inr i"
  then obtain c where "i = InitiatorCache c" "\<not> rc_HTTPClient (ca_client c)"
    using created_context [OF assms, of sreq] by (auto simp: class_initiator_def)
  then show "\<not> (\<exists>devicePath u'. Connect N i u = (Ret (Inr devicePath), u'))"
    using no_client_cache(1) by blast
qed

definition cache_create :: CreateVolumeRequest where
  "cache_create = demo_create\<lparr>cvr_Parameters := [(''cluster_id'', ''c1''), (''pool_name'', ''p1''), (''type'', ''cache'')]\<rparr>"

lemma cache_created:
  "case cs_CreateVolume demo_env cache_create (demo_state [volume_reply, volume_reply, connect_reply] []) of
      (Ret (Inr vol), w') \<Rightarrow> True | _ \<Rightarrow> False"
  by code_simp

theorem created_volume_initiator_witness:
  "\<exists>vol w' i. cs_CreateVolume demo_env cache_create
      (demo_state [volume_reply, volume_reply, connect_reply] []) = (Ret (Inr vol), w') \<and>
    NewSpdkCsiInitiator (AList.update ''stagingParentPath'' ''/s'' (vol_VolumeContext vol)) = Inr (InitiatorCache i) \<and>
    \<not> (\<exists>devicePath u'. Connect demo_env (InitiatorCache i) (demo_world [] []) = (Ret (Inr devicePath), u'))"
proof -
  define sreq where "sreq = \<lparr>st_VolumeId = [], st_StagingTargetPath = ''/s'', st_VolumeContext = None, st_AccessType = NoAccess,
    st_AccessMode = UNKNOWN\<rparr>"
  obtain vol w' where run: "cs_CreateVolume demo_env cache_create
      (demo_state [volume_reply, volume_reply, connect_reply] []) = (Ret (Inr vol), w')"
    using cache_created by (auto split: prod.splits outcome.splits sum.splits)
  have cache: "ToLower (class_type (cvr_Parameters cache_create)) = ''cache''" by code_simp
  note made = created_volume_initiator [OF run, of sreq demo_env "demo_world [] []"]
  obtain v :: spdkVolume and r cs where ctx: "NewSpdkCsiInitiator (staged_context sreq (vol_VolumeContext vol)) =
      class_initiator (class_type (cvr_Parameters cache_create)) (sv_lvolID v) r cs"
    using made [THEN conjunct1] by blast
  have fails: "\<forall>i. NewSpdkCsiInitiator (staged_context sreq (vol_VolumeContext vol)) = Inr i \<longrightarrow>
      \<not> (\<exists>devicePath u'. Connect demo_env i (demo_world [] []) = (Ret (Inr devicePath), u'))"
    using made [THEN conjunct2] cache by (rule mp)
  obtain i where "NewSpdkCsiInitiator (staged_context sreq (vol_VolumeContext vol)) = Inr (InitiatorCache i)"
    using ctx cache by (simp add: class_initiator_def del: ToLower.simps)
  moreover have "staged_context sreq (vol_VolumeContext vol) = AList.update ''stagingParentPath'' ''/s'' (vol_VolumeContext vol)"
    by (simp add: staged_context_def sreq_def)
  ultimately show ?thesis using run fails by metis
qed

end
