(* ===== verification/Unstaging.thy ===== *)
theory Unstaging
  imports EndToEnd
begin

text \<open>
  The end of a volume on a node: what unstaging does to the stash, and the whole way of a volume from its creation to
  the disconnection of the device that staging connected.
\<close>

section \<open>The stash is given up last\<close>

definition slot_kept :: "string \<Rightarrow> 'x world \<Rightarrow> 'x world \<Rightarrow> bool" where
  "slot_kept path w w' \<longleftrightarrow> ctx_slot volumeContextFileName w' path = ctx_slot volumeContextFileName w path"

interpretation slot: effect_rel "slot_kept path" for path
  by unfold_locales (simp_all add: slot_kept_def)

lemma same_fs_slot: "keeps same_fs m \<Longrightarrow> keeps (slot_kept path) m"
  by (erule keeps_mono) (simp add: same_fs_def slot_kept_def ctx_slot_def)

lemma keeps_RemoveAll_slot:
  assumes "\<not> prefix (path_comps p) (ctx_file volumeContextFileName path)"
  shows "keeps (slot_kept path) (RemoveAll E p)"
  by (rule keepsI) (use assms RemoveAll_node in \<open>fastforce simp: slot_kept_def ctx_slot_def\<close>)

lemma keeps_deleteMountPoint_slot:
  assumes "\<not> prefix (path_comps p) (ctx_file volumeContextFileName path)"
  shows "keeps (slot_kept path) (deleteMountPoint E p)"
proof -
  have "keeps (slot_kept path) (Unmount E p)"
    unfolding Unmount_def orErr_def by (intro slot.keeps_rules same_fs_slot keeps_service_fs)
  then show ?thesis unfolding deleteMountPoint_def Let_def
    by (intro slot.keeps_rules keeps_RemoveAll_slot [OF assms] same_fs_slot [OF keeps_IsMountPoint(2)])
qed

lemma CleanUp_slot:
  assumes "CleanUpVolumeContext E path w = (r, w')"
  shows "if r = Ret (Inr ()) then ctx_slot volumeContextFileName w' path = None else slot_kept path w w'"
proof (cases "r = Ret (Inr ())")
  case True
  then show ?thesis using assms cleanUpContext_slot(2) unfolding CleanUpVolumeContext_def by simp
next
  case False
  then have "w_fs w' = w_fs w"
    using assms unfolding CleanUpVolumeContext_def cleanUpContext_def Let_def Remove_def
    by (auto simp: mapErr_def pathErr_def bindP_def ret_def file_op_def Let_def split: prod.splits option.splits sum.splits)
  then show ?thesis using False by (simp add: slot_kept_def ctx_slot_def)
qed

lemma withLock_any:
  assumes "withLock k m w = (r, u)"
  obtains w' where "m (locked k w) = (r, w')" and "u = unlocked k w'"
proof -
  obtain q w' where run: "m (locked k w) = (q, w')" by (cases "m (locked k w)")
  then have "withLock k m w = (q, unlocked k w')" by (rule withLock_locked)
  then show thesis using run assms that by simp
qed

text \<open>The handler as what happens before the stash is given up, and the clean-up.\<close>

definition unstage_front :: "'x env \<Rightarrow> string \<Rightarrow> string \<Rightarrow> ('x, unit) ioE" where
  "unstage_front E volumeID path =
     bindE (mapErr (\<lambda>err. Status Internal (''unstage volume '' @ volumeID @ '' failed: '' @ err_msg err))
         (deleteMountPoint E (getStagingTargetPath path volumeID))) (\<lambda>_.
     bindE (mapErr toInternal (LookupVolumeContext E path)) (\<lambda>volumeContext.
     bindE (ret (map_sum toInternal id (NewSpdkCsiInitiator volumeContext))) (\<lambda>initiator.
       mapErr toInternal (Disconnect E initiator))))"

lemma bindE_assoc: "bindE (bindE m f) g = bindE m (\<lambda>a. bindE (f a) g)"
  by (rule ext) (auto simp: bindE_def bindP_def throw_def ret_def split: prod.splits outcome.splits sum.splits)

lemma unstage_parts:
  "ns_NodeUnstageVolume E volumeID path =
     withLock volumeID (bindE (unstage_front E volumeID path) (\<lambda>_. mapErr toInternal (CleanUpVolumeContext E path)))"
  unfolding ns_NodeUnstageVolume_def unstage_front_def Let_def bindE_assoc ..

lemma keeps_unstage_front:
  assumes "\<not> prefix (path_comps (getStagingTargetPath path volumeID)) (ctx_file volumeContextFileName path)"
  shows "keeps (slot_kept path) (unstage_front E volumeID path)"
  unfolding unstage_front_def
  by (intro slot.keeps_rules keeps_deleteMountPoint_slot [OF assms] same_fs_slot dev.disconnect_fs keeps_LookupVolumeContext_fs)

text \<open>
  C20. A failed unstaging can be repeated: unless it succeeds, unstaging leaves the stash of the volume as it was, whatever
  went wrong and also if it panicked, so the next attempt still knows which device to disconnect; when it succeeds the
  stash is gone.
\<close>

theorem unstage_keeps_stash:
  assumes "ns_NodeUnstageVolume E volumeID path w = (r, w')"
    and "\<not> prefix (path_comps (getStagingTargetPath path volumeID)) (ctx_file volumeContextFileName path)"
  shows "ctx_slot volumeContextFileName w' path =
    (if r = Ret (Inr ()) then None else ctx_slot volumeContextFileName w path)"
proof -
  obtain u where run: "bindE (unstage_front E volumeID path) (\<lambda>_. mapErr toInternal (CleanUpVolumeContext E path))
      (locked volumeID w) = (r, u)" and w': "w' = unlocked volumeID u"
    using assms(1) unfolding unstage_parts by (rule withLock_any)
  obtain q v where front: "unstage_front E volumeID path (locked volumeID w) = (q, v)"
    by (cases "unstage_front E volumeID path (locked volumeID w)")
  have kept: "slot_kept path (locked volumeID w) v" using keeps_unstage_front [OF assms(2)] front by (rule keepsD)
  have same: "ctx_slot volumeContextFileName (locked volumeID w) path = ctx_slot volumeContextFileName w path"
    by (simp add: ctx_slot_def locked_def)
  show ?thesis
  proof (cases "q = Ret (Inr ())")
    case True
    obtain c x where clean: "CleanUpVolumeContext E path v = (c, x)" by (cases "CleanUpVolumeContext E path v")
    then have "u = x" and "r = Ret (Inr ()) \<longleftrightarrow> c = Ret (Inr ())"
      using run front True by (auto simp: prog_simps mapErr_def bindP_def ret_def split: outcome.splits sum.splits)
    then show ?thesis using CleanUp_slot [OF clean] kept same w' by (auto simp: slot_kept_def split: if_splits)
  next
    case False
    then have "u = v" and "r \<noteq> Ret (Inr ())"
      using run front by (auto simp: bindE_def bindP_def throw_def ret_def split: outcome.splits sum.splits)
    then show ?thesis using kept same w' by (simp add: slot_kept_def)
  qed
qed

text \<open>The volume of the example cannot be disconnected: the device is still there.\<close>

definition stashed_world :: "(goerr + http_response) list world" where
  "stashed_world = demo_world [([''s''], FDir), ([''s'', ''volume-context.json''],
     FFile ''{\"targetType\":\"tcp\",\"connections\":\"[]\",\"model\":\"m\"}'')] []"

theorem unstage_keeps_stash_witness:
  "\<exists>e w'. ns_NodeUnstageVolume demo_env ''v'' ''/s'' stashed_world = (Ret (Inl e), w') \<and>
    ctx_slot volumeContextFileName w' ''/s'' \<noteq> None"
proof -
  let ?u = "ns_NodeUnstageVolume demo_env ''v'' ''/s'' stashed_world"
  have "(case fst ?u of Ret (Inl e) \<Rightarrow> True | _ \<Rightarrow> False)" by code_simp
  then obtain e where run: "fst ?u = Ret (Inl e)" by (auto split: outcome.splits sum.splits)
  have "\<not> prefix (path_comps (getStagingTargetPath ''/s'' ''v'')) (ctx_file volumeContextFileName ''/s'')" by code_simp
  note kept = unstage_keeps_stash [OF run_eq [OF run] this]
  moreover have "\<not> Option.is_none (ctx_slot volumeContextFileName stashed_world ''/s'')" by code_simp
  ultimately have "ctx_slot volumeContextFileName (snd ?u) ''/s'' \<noteq> None" by (simp add: Option.is_none_def)
  with run_eq [OF run] show ?thesis by (intro exI conjI)
qed

section \<open>The whole way of a volume\<close>

text \<open>
  Unstaging after staging, as long as the stash is left alone: once the mount point is deleted, unstaging is the
  disconnection of the initiator that staging connected, followed by the removal of the stash.
\<close>

lemma unstage_after_stage:
  assumes staged: "ns_NodeStageVolume E req w = (Ret (Inr ()), w1)"
    and fresh: "isStaged E (target req) (locked (st_VolumeId req) w) = (Ret (Inr False), w0)"
    and given: "st_VolumeContext req = Some context" "utf8_map context" "valid_utf8 (st_StagingTargetPath req)"
    and devices: "\<forall>i dev w'. NewSpdkCsiInitiator (staged_context req context) = Inr i \<longrightarrow>
      Connect E i w0 = (Ret (Inr dev), w') \<longrightarrow> valid_utf8 dev"
    and alone: "ctx_slot volumeContextFileName w2 (st_StagingTargetPath req) = ctx_slot volumeContextFileName w1 (st_StagingTargetPath req)"
    and deleted: "deleteMountPoint E (target req) (locked (st_VolumeId req) w2) = (Ret (Inr ()), w3)"
    and readable: "ctx_readable E volumeContextFileName w3 (st_StagingTargetPath req)"
    and apart: "\<not> prefix (path_comps (target req)) (ctx_file volumeContextFileName (st_StagingTargetPath req))"
  obtains i dev wc w4 where "NewSpdkCsiInitiator (staged_context req context) = Inr i" "Connect E i w0 = (Ret (Inr dev), wc)"
    "ns_NodeUnstageVolume E (st_VolumeId req) (st_StagingTargetPath req) w2 =
      apsnd (unlocked (st_VolumeId req)) (bindE (mapErr toInternal (Disconnect E i))
        (\<lambda>_. mapErr toInternal (CleanUpVolumeContext E (st_StagingTargetPath req))) w4)"
    "w_fs w4 = w_fs w3"
proof -
  let ?p = "st_StagingTargetPath req" and ?vc = "staged_context req context" and ?k = "st_VolumeId req"
  obtain i dev wc wm ws where i: "NewSpdkCsiInitiator ?vc = Inr i" and c: "Connect E i w0 = (Ret (Inr dev), wc)"
    and stash: "StashVolumeContext E (Some (AList.update ''devicePath'' dev ?vc)) ?p wm = (Ret (Inr ()), ws)"
    and w1: "w1 = unlocked ?k ws"
    using staged fresh given(1) by (rule stage_success)
  have dev: "valid_utf8 dev" using devices i c by blast
  have "valid_utf8 ''stagingParentPath''" "valid_utf8 ''devicePath''" by code_simp+
  then have utf: "utf8_map (AList.update ''devicePath'' dev ?vc)"
    unfolding staged_context_def using given(2,3) dev by (intro utf8_map_update)
  have "slot_kept ?p (locked ?k w2) w3" by (rule keepsD [OF keeps_deleteMountPoint_slot [OF apart] deleted])
  then have "ctx_slot volumeContextFileName w3 ?p = ctx_slot volumeContextFileName ws ?p"
    using alone w1 by (simp add: slot_kept_def) (simp add: ctx_slot_def locked_def)
  then obtain vc' w4 where l: "LookupVolumeContext E ?p w3 = (Ret (Inr vc'), w4)"
    and m: "map_of vc' = map_of (AList.update ''devicePath'' dev ?vc)"
    using vol_ctx.lookup_stash [OF utf stash _ readable] by blast
  have i': "NewSpdkCsiInitiator vc' = Inr i"
    unfolding i [symmetric] by (rule NewSpdkCsiInitiator_cong) (auto simp: m initiator_keys_def)
  have fs: "w_fs w4 = w_fs w3" using keepsD [OF keeps_LookupVolumeContext_fs l] by (simp add: same_fs_def)
  obtain r u where run: "bindE (mapErr toInternal (Disconnect E i)) (\<lambda>_. mapErr toInternal (CleanUpVolumeContext E ?p)) w4 = (r, u)"
    by (cases "bindE (mapErr toInternal (Disconnect E i)) (\<lambda>_. mapErr toInternal (CleanUpVolumeContext E ?p)) w4")
  have "ns_NodeUnstageVolume E ?k ?p w2 = (r, unlocked ?k u)"
    unfolding ns_NodeUnstageVolume_def Let_def
    by (intro withLock_locked) (simp add: prog_simps deleted l i' run)
  then show thesis using that [OF i c _ fs] run by simp
qed

text \<open>
  C18. The whole way of a volume: the controller created it, a node staged it with the context of the controller's answer
  and unstages it later. If the stash is left alone and the mount point can be deleted, unstaging disconnects the very
  initiator that staging connected, with the connections that the cluster gave for that volume when it was created, and
  then removes the stash. (That a context is a map of UTF-8 texts is a rule of gRPC.)
\<close>

theorem volume_disconnected:
  assumes "cs_CreateVolume E req w = (Ret (Inr vol), w')" and "map_of (cvr_Parameters req) ''type'' = None"
    and "st_VolumeContext sreq = Some (vol_VolumeContext vol)" and "utf8_map (vol_VolumeContext vol)"
    and "valid_utf8 (st_StagingTargetPath sreq)"
    and "ns_NodeStageVolume N sreq u = (Ret (Inr ()), u1)"
    and "isStaged N (target sreq) (locked (st_VolumeId sreq) u) = (Ret (Inr False), u0)"
    and "\<forall>i dev v. NewSpdkCsiInitiator (staged_context sreq (vol_VolumeContext vol)) = Inr i \<longrightarrow>
      Connect N i u0 = (Ret (Inr dev), v) \<longrightarrow> valid_utf8 dev"
    and "ctx_slot volumeContextFileName u2 (st_StagingTargetPath sreq) = ctx_slot volumeContextFileName u1 (st_StagingTargetPath sreq)"
    and "deleteMountPoint N (target sreq) (locked (st_VolumeId sreq) u2) = (Ret (Inr ()), u3)"
    and "ctx_readable N volumeContextFileName u3 (st_StagingTargetPath sreq)"
    and "\<not> prefix (path_comps (target sreq)) (ctx_file volumeContextFileName (st_StagingTargetPath sreq))"
  shows "\<exists>v r connections i dev ua ub. getSPDKVol (vol_VolumeId vol) = Inr v \<and>
    (\<exists>sb w1 w2. node_VolumeInfo E sb (sv_lvolID v) w1 = (Ret (Inr (volumeInfoMap (sv_lvolID v) r connections)), w2)) \<and>
    i = InitiatorNVMf (initiator_of r connections) \<and> Connect N i u0 = (Ret (Inr dev), ua) \<and>
    ns_NodeUnstageVolume N (st_VolumeId sreq) (st_StagingTargetPath sreq) u2 =
      apsnd (unlocked (st_VolumeId sreq)) (bindE (mapErr toInternal (Disconnect N i))
        (\<lambda>_. mapErr toInternal (CleanUpVolumeContext N (st_StagingTargetPath sreq))) ub)"
proof -
  obtain v sb r connections w1 w2 where v: "getSPDKVol (vol_VolumeId vol) = Inr v"
    and info: "node_VolumeInfo E sb (sv_lvolID v) w1 = (Ret (Inr (volumeInfoMap (sv_lvolID v) r connections)), w2)"
    and i: "NewSpdkCsiInitiator (staged_context sreq (vol_VolumeContext vol)) = Inr (InitiatorNVMf (initiator_of r connections))"
    using created_initiator [OF assms(1,2), of sreq] by blast
  obtain i' dev ua ub where i': "NewSpdkCsiInitiator (staged_context sreq (vol_VolumeContext vol)) = Inr i'"
    and run: "Connect N i' u0 = (Ret (Inr dev), ua)" "ns_NodeUnstageVolume N (st_VolumeId sreq) (st_StagingTargetPath sreq) u2 =
      apsnd (unlocked (st_VolumeId sreq)) (bindE (mapErr toInternal (Disconnect N i'))
        (\<lambda>_. mapErr toInternal (CleanUpVolumeContext N (st_StagingTargetPath sreq))) ub)"
    by (rule unstage_after_stage [OF assms(6,7,3,4,5,8-12)])
  have "i' = InitiatorNVMf (initiator_of r connections)" using i i' by (metis sum.inject(2))
  with run v info show ?thesis by blast
qed

definition demo_context :: gomap where
  "demo_context = volumeContext (cvr_Parameters demo_create)
     (volumeInfoMap ''v-1'' connect_info [\<lparr>ci_IP = ''10.0.0.1'', ci_Port = 4420\<rparr>])"

text \<open>
  The node of the example finds the subsystem of the volume connected already; its device appears, and is gone after the
  disconnection.
\<close>

definition life_env :: "(goerr + http_response) list env" where
  "life_env = demo_env\<lparr>run_cmd := \<lambda>_ _ x. (CmdDone None ''NQN=nqn.2023:c1:lvol:v-1'', x),
     dev_glob := \<lambda>p x. (if x = [] then (Inr [p], [Inl ErrNotExist]) else (Inr [], x))\<rparr>"

definition life_request :: StageRequest where
  "life_request = \<lparr>st_VolumeId = ''c1:p1:v-1'', st_StagingTargetPath = ''/s'', st_VolumeContext = Some demo_context,
     st_AccessType = MountAccess [] [], st_AccessMode = SINGLE_NODE_WRITER\<rparr>"

lemma demo_created_context:
  "\<exists>w'. cs_CreateVolume demo_env demo_create (demo_state [missing_reply, id_reply, volume_reply, connect_reply] []) =
    (Ret (Inr (demo_volume\<lparr>vol_VolumeContext := demo_context\<rparr>)), w')"
proof -
  obtain tr' where "cs_createVolume demo_env demo_create demo_node
      (demo_state [missing_reply, id_reply, volume_reply, connect_reply]
        [EvLock ''pvc-1'', EvFile (OpRead demo_secret_path)]) =
      (Ret (Inr demo_volume), demo_state [volume_reply, connect_reply] tr')"
    using demo_createVolume_new by blast
  moreover have "volumeContext (vol_VolumeContext demo_volume)
      (volumeInfoMap ''v-1'' connect_info [\<lparr>ci_IP = ''10.0.0.1'', ci_Port = 4420\<rparr>]) = demo_context"
    by (simp add: demo_context_def demo_volume_def newVolume_def)
  ultimately show ?thesis
    by (simp add: cs_CreateVolume_def withLock_locked prog_simps demo_simps)
qed

theorem volume_disconnected_witness:
  "\<exists>vol w' u1 i ub. cs_CreateVolume demo_env demo_create
      (demo_state [missing_reply, id_reply, volume_reply, connect_reply] []) = (Ret (Inr vol), w') \<and>
    vol_VolumeContext vol = demo_context \<and> ns_NodeStageVolume life_env life_request (demo_world [] []) = (Ret (Inr ()), u1) \<and>
    ns_NodeUnstageVolume life_env ''c1:p1:v-1'' ''/s'' u1 =
      apsnd (unlocked ''c1:p1:v-1'') (bindE (mapErr toInternal (Disconnect life_env i))
        (\<lambda>_. mapErr toInternal (CleanUpVolumeContext life_env ''/s'')) ub)"
proof -
  let ?vol = "demo_volume\<lparr>vol_VolumeContext := demo_context\<rparr>"
  let ?s = "ns_NodeStageVolume life_env life_request (demo_world [] [])"
  let ?a = "isStaged life_env (target life_request) (locked (st_VolumeId life_request) (demo_world [] []))"
  let ?d = "deleteMountPoint life_env (target life_request) (locked (st_VolumeId life_request) (snd ?s))"
  obtain w' where created: "cs_CreateVolume demo_env demo_create
      (demo_state [missing_reply, id_reply, volume_reply, connect_reply] []) = (Ret (Inr ?vol), w')"
    using demo_created_context by blast
  have type: "map_of (cvr_Parameters demo_create) ''type'' = None" by (simp add: demo_create_def)
  have request: "st_VolumeContext life_request = Some (vol_VolumeContext ?vol)" "st_VolumeId life_request = ''c1:p1:v-1''"
    "st_StagingTargetPath life_request = ''/s''" by (simp_all add: life_request_def)
  have utf: "utf8_map demo_context" "valid_utf8 (st_StagingTargetPath life_request)" by code_simp+
  have runs: "fst ?s = Ret (Inr ())" "fst ?a = Ret (Inr False)" "fst ?d = Ret (Inr ())" by code_simp+
  have apart: "\<not> prefix (path_comps (target life_request)) (ctx_file volumeContextFileName (st_StagingTargetPath life_request))"
    by code_simp
  have readable: "ctx_readable life_env volumeContextFileName (snd ?d) (st_StagingTargetPath life_request)"
    by (simp add: ctx_readable_def life_env_def demo_env_def)
  let ?i = "InitiatorNVMf (initiator_of connect_info [\<lparr>ci_IP = ''10.0.0.1'', ci_Port = 4420\<rparr>])"
  have "NewSpdkCsiInitiator (staged_context life_request demo_context) = Inr ?i" by code_simp
  moreover have "fst (Connect life_env ?i (snd ?a)) = Ret (Inr ''/dev/disk/by-id/*v-1*_0*'')" by code_simp
  moreover have "valid_utf8 ''/dev/disk/by-id/*v-1*_0*''" by code_simp
  ultimately have devices: "\<forall>i dev v. NewSpdkCsiInitiator (staged_context life_request (vol_VolumeContext ?vol)) = Inr i \<longrightarrow>
      Connect life_env i (snd ?a) = (Ret (Inr dev), v) \<longrightarrow> valid_utf8 dev"
    by auto
  have "utf8_map (vol_VolumeContext ?vol)" using utf(1) by simp
  from volume_disconnected [OF created type request(1) this utf(2) run_eq [OF runs(1)] run_eq [OF runs(2)] devices refl
      run_eq [OF runs(3)] readable apart, unfolded request(2,3)]
  obtain i ub where "ns_NodeUnstageVolume life_env ''c1:p1:v-1'' ''/s'' (snd ?s) =
      apsnd (unlocked ''c1:p1:v-1'') (bindE (mapErr toInternal (Disconnect life_env i))
        (\<lambda>_. mapErr toInternal (CleanUpVolumeContext life_env ''/s'')) ub)"
    by blast
  moreover have "vol_VolumeContext ?vol = demo_context" by simp
  ultimately show ?thesis using created run_eq [OF runs(1)] by blast
qed

end
