(* ===== verification/Publishing.thy ===== *)
theory Publishing
  imports Staging
begin

text \<open>
  Publishing a staged volume to a container and taking it back: a block volume is published as the device that staging
  connected, and unpublishing leaves nothing at the target.
\<close>

section \<open>Publishing a block device\<close>

lemma contextDevice_run:
  assumes "contextDevice E v p w = (Ret (Inr dev), w3)" and "pb_AccessType preq = BlockAccess"
    and "pb_VolumeId preq = v" and "pb_StagingTargetPath preq = p"
  shows "ns_publishVolume E s preq w =
    bindE (makeTargetFile E (pb_TargetPath preq)) (\<lambda>_. Mount E dev (pb_TargetPath preq) [] [''bind'']) w3"
  using assms by (simp add: ns_publishVolume_def Let_def prog_simps)

text \<open>
  C21. After a volume was staged, publishing it as a block device makes the target file and binds to it the very device
  file that the connection of staging returned, with no other mount, as long as the stash is left alone.
\<close>

theorem publish_staged_block:
  assumes "ns_NodeStageVolume E req w = (Ret (Inr ()), w1)"
    and "isStaged E (target req) (locked (st_VolumeId req) w) = (Ret (Inr False), w0)"
    and "st_VolumeContext req = Some context" and "utf8_map context" and "valid_utf8 (st_StagingTargetPath req)"
    and "\<forall>i dev w'. NewSpdkCsiInitiator (staged_context req context) = Inr i \<longrightarrow>
      Connect E i w0 = (Ret (Inr dev), w') \<longrightarrow> valid_utf8 dev \<and> dev \<noteq> []"
    and "pb_AccessType preq = BlockAccess" and "pb_StagingTargetPath preq = st_StagingTargetPath req"
    and "ctx_slot volumeContextFileName w2 (st_StagingTargetPath req) = ctx_slot volumeContextFileName w1 (st_StagingTargetPath req)"
    and "ctx_readable E volumeContextFileName w2 (st_StagingTargetPath req)"
  shows "\<exists>i dev wc w3. NewSpdkCsiInitiator (staged_context req context) = Inr i \<and> Connect E i w0 = (Ret (Inr dev), wc) \<and>
    w_fs w3 = w_fs w2 \<and>
    ns_NodePublishVolume E preq w2 = apsnd (unlocked (pb_VolumeId preq)) (mapErr toInternal
      (bindE (makeTargetFile E (pb_TargetPath preq)) (\<lambda>_. Mount E dev (pb_TargetPath preq) [] [''bind''])) w3)"
proof -
  let ?p = "st_StagingTargetPath req" and ?k = "pb_VolumeId preq"
  have "ctx_slot volumeContextFileName (locked ?k w2) ?p = ctx_slot volumeContextFileName w1 ?p"
    "ctx_readable E volumeContextFileName (locked ?k w2) ?p"
    using assms(9,10) by (simp_all add: ctx_slot_def ctx_readable_def locked_def)
  from staged_found [OF assms(1-6) this, of ?k]
  obtain i dev wc vc' w3 where i: "NewSpdkCsiInitiator (staged_context req context) = Inr i"
    and c: "Connect E i w0 = (Ret (Inr dev), wc)" and l: "LookupVolumeContext E ?p (locked ?k w2) = (Ret (Inr vc'), w3)"
    and d: "contextDevice E ?k ?p (locked ?k w2) = (Ret (Inr dev), w3)"
    by blast
  let ?rest = "bindE (makeTargetFile E (pb_TargetPath preq)) (\<lambda>_. Mount E dev (pb_TargetPath preq) [] [''bind''])"
  obtain r u where run: "mapErr toInternal ?rest w3 = (r, u)" by (cases "mapErr toInternal ?rest w3")
  have "ns_NodePublishVolume E preq w2 = (r, unlocked ?k u)"
    unfolding ns_NodePublishVolume_def
    by (intro withLock_locked)
      (use run contextDevice_run [OF d assms(7) refl assms(8)] in \<open>simp add: mapErr_def bindP_def\<close>)
  moreover have "w_fs w3 = w_fs w2"
    using keepsD [OF keeps_LookupVolumeContext_fs l] by (simp add: same_fs_def locked_def)
  ultimately show ?thesis using i c run by auto
qed

definition block_request :: StageRequest where
  "block_request = ready_request\<lparr>st_AccessType := BlockAccess\<rparr>"

definition block_publish :: PublishRequest where
  "block_publish = \<lparr>pb_VolumeId = ''v'', pb_StagingTargetPath = ''/stage'', pb_TargetPath = ''/t'', pb_AccessType = BlockAccess\<rparr>"

definition stage_dir :: "(goerr + http_response) list world" where
  "stage_dir = demo_world [([''stage''], FDir)] []"

theorem publish_staged_block_witness:
  "\<exists>w1 w3. ns_NodeStageVolume ready_env block_request stage_dir = (Ret (Inr ()), w1) \<and>
    ns_NodePublishVolume ready_env block_publish w1 = apsnd (unlocked ''v'') (mapErr toInternal
      (bindE (makeTargetFile ready_env ''/t'')
        (\<lambda>_. Mount ready_env ''/dev/disk/by-id/*v-1*_1*'' ''/t'' [] [''bind''])) w3)"
proof -
  let ?s = "ns_NodeStageVolume ready_env block_request stage_dir"
  let ?a = "isStaged ready_env (target block_request) (locked (st_VolumeId block_request) stage_dir)"
  have runs: "fst ?s = Ret (Inr ())" "fst ?a = Ret (Inr False)" by code_simp+
  have i: "NewSpdkCsiInitiator (staged_context block_request ready_context) = Inr ready_initiator" by code_simp
  have c: "fst (Connect ready_env ready_initiator (snd ?a)) = Ret (Inr ''/dev/disk/by-id/*v-1*_1*'')" by code_simp
  have utf: "utf8_map ready_context" "valid_utf8 (st_StagingTargetPath block_request)"
    "valid_utf8 ''/dev/disk/by-id/*v-1*_1*''" by code_simp+
  have ctx: "st_VolumeContext block_request = Some ready_context" "st_StagingTargetPath block_request = ''/stage''"
    by (simp_all add: block_request_def ready_request_def)
  have pb: "pb_AccessType block_publish = BlockAccess" "pb_StagingTargetPath block_publish = st_StagingTargetPath block_request"
    "pb_VolumeId block_publish = ''v''" "pb_TargetPath block_publish = ''/t''"
    by (simp_all add: block_publish_def ctx)
  have readable: "ctx_readable ready_env volumeContextFileName (snd ?s) (st_StagingTargetPath block_request)"
    by (simp add: ctx_readable_def ready_env_def demo_env_def)
  have devices: "\<forall>i dev w'. NewSpdkCsiInitiator (staged_context block_request ready_context) = Inr i \<longrightarrow>
      Connect ready_env i (snd ?a) = (Ret (Inr dev), w') \<longrightarrow> valid_utf8 dev \<and> dev \<noteq> []"
    using i c utf(3) by auto
  from publish_staged_block [OF run_eq [OF runs(1)] run_eq [OF runs(2)] ctx(1) utf(1,2) devices pb(1,2) refl readable, unfolded pb]
  obtain i' dev wc w3 where "NewSpdkCsiInitiator (staged_context block_request ready_context) = Inr i'"
    "Connect ready_env i' (snd ?a) = (Ret (Inr dev), wc)"
    and p: "ns_NodePublishVolume ready_env block_publish (snd ?s) = apsnd (unlocked ''v'') (mapErr toInternal
      (bindE (makeTargetFile ready_env ''/t'') (\<lambda>_. Mount ready_env dev ''/t'' [] [''bind''])) w3)"
    by blast
  then have "dev = ''/dev/disk/by-id/*v-1*_1*''" using i c by auto
  with p run_eq [OF runs(1)] show ?thesis by blast
qed

section \<open>Unpublishing\<close>

lemma RemoveAll_run:
  assumes "RemoveAll E p w = (Ret (Inr u), w')" and "path_comps p \<noteq> []"
  shows "node_at (w_fs w') (path_comps p) = None" and "w_trace w' = w_trace w @ [EvFile (OpRemoveAll p)]"
proof -
  have "path_comps [] = []" by code_simp
  then have p: "p \<noteq> []" using assms(2) by auto
  then have "remove_tree E p w = (Ret (Inr u), w')"
    using assms(1) by (auto simp: RemoveAll_def throw_def ret_def dest: pathErr_InrE split: if_splits)
  then have run: "file_op E (OpRemoveAll p) (fs_remove_all (path_comps p)) w = (Ret (Inr u), w')"
    by (auto simp: remove_tree_def split: prod.splits option.splits)
  then obtain fs where "fs_remove_all (path_comps p) (w_fs w) = Inr (u, fs)" "w_fs w' = fs" by (rule file_op_InrE)
  then show "node_at (w_fs w') (path_comps p) = None" using assms(2) by (simp add: node_at_remove_all)
  show "w_trace w' = w_trace w @ [EvFile (OpRemoveAll p)]"
    using run by (auto simp: file_op_def Let_def split: prod.splits option.splits sum.splits)
qed

lemma Unmount_trace: "Unmount E p w = (Ret r, w') \<Longrightarrow> w_trace w' = w_trace w @ [EvUnmount p]"
  by (auto simp: Unmount_def orErr_def service_def bindP_def ret_def split: prod.splits)

text \<open>The calls that delete a target: unmounting it if it is mounted, and removing it.\<close>

definition removal :: "'x env \<Rightarrow> string \<Rightarrow> bool \<Rightarrow> ('x, unit) ioE" where
  "removal E p mounted = bindE (if mounted then Unmount E p else ret (Inr ())) (\<lambda>_. RemoveAll E p)"

lemma removal_Inr:
  assumes "removal E p mounted w = (Ret (Inr ()), w')" and "path_comps p \<noteq> []"
  shows "node_at (w_fs w') (path_comps p) = None"
    and "w_trace w' = w_trace w @ (if mounted then [EvUnmount p] else []) @ [EvFile (OpRemoveAll p)]"
proof -
  obtain a t where front: "(if mounted then Unmount E p else ret (Inr ())) w = (Ret (Inr a), t)"
    and removed: "RemoveAll E p t = (Ret (Inr ()), w')"
    using assms(1) unfolding removal_def by (rule bindE_InrE)
  have "w_trace t = w_trace w @ (if mounted then [EvUnmount p] else [])"
    using front by (auto simp: ret_def dest: Unmount_trace split: if_splits)
  then show "node_at (w_fs w') (path_comps p) = None"
    "w_trace w' = w_trace w @ (if mounted then [EvUnmount p] else []) @ [EvFile (OpRemoveAll p)]"
    using RemoveAll_run [OF removed assms(2)] by simp_all
qed

lemma unpublish_run:
  fixes volumeID :: string
  assumes "mnt_is_mount E p (w_fs w) (w_ext w) = ((isMount, err), x)"
  defines "w1 \<equiv> (locked volumeID w)\<lparr>w_ext := x\<rparr>"
  shows "ns_NodeUnpublishVolume E volumeID p w = apsnd (unlocked volumeID) (case err of
      None \<Rightarrow> mapErr toInternal (removal E p isMount) w1
    | Some e \<Rightarrow> if is_not_exist e then (Ret (Inr ()), w1)
        else if mnt_corrupted E e then mapErr toInternal (removal E p True) w1 else (Ret (Inl (toInternal e)), w1))"
proof -
  have "IsMountPoint E p (locked volumeID w) = (Ret (isMount, err), w1)"
    using assms(1) by (simp add: IsMountPoint_def service_def locked_def w1_def)
  then have "mapErr toInternal (deleteMountPoint E p) (locked volumeID w) = (case err of
      None \<Rightarrow> mapErr toInternal (removal E p isMount) w1
    | Some e \<Rightarrow> if is_not_exist e then (Ret (Inr ()), w1)
        else if mnt_corrupted E e then mapErr toInternal (removal E p True) w1 else (Ret (Inl (toInternal e)), w1))"
    by (auto simp: deleteMountPoint_def mapErr_def bindP_def Let_def ret_def throw_def removal_def split: option.splits)
  moreover have "withLock k m w = apsnd (unlocked k) (m (locked k w))" for k and m :: "('a, unit) ioE"
    by (cases "m (locked k w)") (simp add: withLock_locked)
  ultimately show ?thesis unfolding ns_NodeUnpublishVolume_def by simp
qed

text \<open>
  C22. Unpublishing is idempotent and thorough. If the target does not exist it succeeds without another call. If it is
  there, unpublishing unmounts it exactly if it is a mount (or a corrupted one), removes it, and succeeds or fails as
  these two calls do; when they succeed nothing is left at the target path. If it cannot be told whether the target is a
  mount, unpublishing fails without touching it.
\<close>

theorem unpublish_removes_target:
  assumes "path_comps targetPath \<noteq> []" and "mnt_is_mount E targetPath (w_fs w) (w_ext w) = ((isMount, err), x)"
    and "ns_NodeUnpublishVolume E volumeID targetPath w = (r, w')"
  shows "if (case err of Some e \<Rightarrow> is_not_exist e | None \<Rightarrow> False)
    then r = Ret (Inr ()) \<and> w_fs w' = w_fs w \<and> w_trace w' = w_trace w @ [EvLock volumeID, EvUnlock volumeID]
    else if (case err of Some e \<Rightarrow> \<not> mnt_corrupted E e | None \<Rightarrow> False)
    then r = Ret (Inl (toInternal (the err))) \<and> w_fs w' = w_fs w \<and> w_trace w' = w_trace w @ [EvLock volumeID, EvUnlock volumeID]
    else (r, w') = apsnd (unlocked volumeID) (mapErr toInternal (removal E targetPath (err \<noteq> None \<or> isMount))
        ((locked volumeID w)\<lparr>w_ext := x\<rparr>)) \<and>
      (r = Ret (Inr ()) \<longrightarrow> node_at (w_fs w') (path_comps targetPath) = None \<and>
        w_trace w' = w_trace w @ EvLock volumeID # (if err \<noteq> None \<or> isMount then [EvUnmount targetPath] else []) @
          [EvFile (OpRemoveAll targetPath), EvUnlock volumeID])"
proof -
  let ?w1 = "(locked volumeID w)\<lparr>w_ext := x\<rparr>"
  note run = unpublish_run [OF assms(2), of volumeID, unfolded assms(3)]
  have gone: "node_at (w_fs w') (path_comps targetPath) = None \<and>
      w_trace w' = w_trace w @ EvLock volumeID # (if mounted then [EvUnmount targetPath] else []) @
        [EvFile (OpRemoveAll targetPath), EvUnlock volumeID]"
    if r: "(r, w') = apsnd (unlocked volumeID) (mapErr toInternal (removal E targetPath mounted) ?w1)" "r = Ret (Inr ())" for mounted
  proof -
    obtain u where "mapErr toInternal (removal E targetPath mounted) ?w1 = (Ret (Inr ()), u)" and w': "w' = unlocked volumeID u"
      using r by (cases "mapErr toInternal (removal E targetPath mounted) ?w1") auto
    then have "removal E targetPath mounted ?w1 = (Ret (Inr ()), u)" by (blast dest: mapErr_InrE)
    from removal_Inr [OF this assms(1)] show ?thesis by (simp add: w' locked_def unlocked_def)
  qed
  show ?thesis
  proof (cases err)
    case None
    then have "(r, w') = apsnd (unlocked volumeID) (mapErr toInternal (removal E targetPath isMount) ?w1)" using run by simp
    then show ?thesis using gone [of isMount] None by (cases isMount) auto
  next
    case (Some e)
    then show ?thesis using run gone [of True] by (cases "mnt_corrupted E e") (auto simp: locked_def unlocked_def)
  qed
qed

theorem unpublish_removes_target_witness:
  "\<exists>w'. ns_NodeUnpublishVolume demo_env ''v'' ''/t'' (demo_world [([''t''], FFile [])] []) = (Ret (Inr ()), w') \<and>
    node_at (w_fs w') [''t''] = None \<and> w_trace w' = [EvLock ''v'', EvFile (OpRemoveAll ''/t''), EvUnlock ''v'']"
proof -
  define w where "w = demo_world [([''t''], FFile [])] []"
  have "fst (ns_NodeUnpublishVolume demo_env ''v'' ''/t'' w) = Ret (Inr ())" unfolding w_def by code_simp
  from run_eq [OF this] obtain w' where run: "ns_NodeUnpublishVolume demo_env ''v'' ''/t'' w = (Ret (Inr ()), w')" by blast
  have comps: "path_comps ''/t'' = [''t'']" by code_simp
  then have mount: "mnt_is_mount demo_env ''/t'' (w_fs w) (w_ext w) = ((False, None), [])" and "w_trace w = []"
    by (simp_all add: w_def demo_env_def demo_world_def node_at_def)
  moreover have "path_comps ''/t'' \<noteq> []" by (simp add: comps)
  ultimately have "node_at (w_fs w') (path_comps ''/t'') = None \<and>
      w_trace w' = [EvLock ''v'', EvFile (OpRemoveAll ''/t''), EvUnlock ''v'']"
    using unpublish_removes_target [OF _ mount run] by simp
  with run show ?thesis unfolding comps w_def by blast
qed

end
