(* ===== verification/Creation.thy ===== *)
theory Creation
  imports ControllerFacts
begin

text \<open>
  What the controller asks the cluster for when it creates a volume: the one request of a creation from scratch, and the
  data in it.
\<close>

lemma CallSBCLI_InrE:
  assumes "CallSBCLI E client verb path args w = (Ret (Inr out), w')"
  obtains "w_trace w' = w_trace w @ [EvHttp (sbcli_request client verb path args)]"
  using assms unfolding CallSBCLI_def Let_def
  by (auto simp: ret_def throw_def panic_def http_send_def service_def elim!: bindE_InrE dest!: mapErr_InrE
      split: option.splits if_splits prod.splits)

lemma node_CreateVolume_Inr:
  assumes "node_CreateVolume E sb params w = (Ret (Inr uuid), w')"
  shows "w_trace w' = w_trace w @ [EvHttp (sbcli_request (nd_Client sb) ''POST'' ''/lvol'' (Some (enc_CreateLVolData params)))]"
  using assms unfolding node_CreateVolume_def createVolume_def
  by (auto simp: ret_def elim!: bindE_InrE CallSBCLI_InrE dest!: mapErr_InrE)

lemma requestedKeys_Inr:
  assumes "requestedKeys E encryption name namespace w = (Ret (Inr (key1, key2)), w')"
  shows "encryption \<longleftrightarrow> key1 \<noteq> []" and "encryption \<longleftrightarrow> key2 \<noteq> []"
  using assms unfolding requestedKeys_def
  by (auto simp: ret_def throw_def elim!: bindE_InrE split: if_splits option.splits)

lemma prepareCreateVolumeReq_Inr:
  assumes "prepareCreateVolumeReq E req sizeMiB w = (Ret (Inr d), w')"
  shows "cd_LvolName d = cvr_Name req" and "cd_Size d = Itoa sizeMiB @ ''M''" and "cd_LvsName d = poolName req"
    and "cd_Encryption d \<longleftrightarrow> getBoolParameter (cvr_Parameters req) ''encryption''"
    and "cd_Encryption d \<longleftrightarrow> cd_CryptoKey1 d \<noteq> []" and "cd_Encryption d \<longleftrightarrow> cd_CryptoKey2 d \<noteq> []"
    and "w_trace w' = w_trace w"
proof -
  have "keeps (extends (\<lambda>_. False)) (prepareCreateVolumeReq E req sizeMiB)" by (rule keeps_prepareCreateVolumeReq)
  from keepsD [OF this assms] show "w_trace w' = w_trace w" by (auto simp: extends_def list_all_iff)
  show "cd_LvolName d = cvr_Name req" "cd_Size d = Itoa sizeMiB @ ''M''" "cd_LvsName d = poolName req"
    "cd_Encryption d \<longleftrightarrow> getBoolParameter (cvr_Parameters req) ''encryption''"
    "cd_Encryption d \<longleftrightarrow> cd_CryptoKey1 d \<noteq> []" "cd_Encryption d \<longleftrightarrow> cd_CryptoKey2 d \<noteq> []"
    using assms unfolding prepareCreateVolumeReq_def Let_def
    by (auto simp: ret_def poolName_def elim!: bindE_InrE dest: requestedKeys_Inr split: prod.splits)
qed



end
