(* ===== verification/ControllerErrors.thy ===== *)
theory ControllerErrors
  imports ControllerFacts
begin

text \<open>
  The controller service when things are not new or not well: a volume that exists already, publishing that fails,
  and a deletion of what is gone.
\<close>

section \<open>A volume that exists\<close>

lemma keeps_sends_run:
  assumes "keeps (extends (sends ms)) m" and "m w = (r, w')"
  obtains es where "w_trace w' = w_trace w @ es" and "list_all (sends ms) es"
  using keepsD [OF assms] by (auto simp: extends_def)

lemma CreateVolume_published:
  assumes "map_of (cvr_Parameters req) ''cluster_id'' = Some clusterID"
    and "NewsimplyBlockClient E clusterID (locked (cvr_Name req) w) = (Ret (Inr sb), w1)"
    and "cs_createVolume E req sb w1 = (Ret (Inr vol), w2)"
    and "cs_publishVolume E (vol_VolumeId vol) sb w2 = (Ret (Inr volInfo), w3)"
  shows "cs_CreateVolume E req w = (Ret (Inr (vol\<lparr>vol_VolumeContext := volumeContext (vol_VolumeContext vol) volInfo\<rparr>)),
    unlocked (cvr_Name req) w3)"
  unfolding cs_CreateVolume_def using assms by (intro withLock_locked) (simp add: prog_simps)

lemma CreateVolume_unpublished:
  assumes "map_of (cvr_Parameters req) ''cluster_id'' = Some clusterID"
    and "NewsimplyBlockClient E clusterID (locked (cvr_Name req) w) = (Ret (Inr sb), w1)"
    and "cs_createVolume E req sb w1 = (Ret (Inr vol), w2)"
    and "cs_publishVolume E (vol_VolumeId vol) sb w2 = (Ret (Inl err), w3)"
    and "cs_deleteVolume E (vol_VolumeId vol) w3 = (Ret r, w4)"
  shows "cs_CreateVolume E req w = (Ret (Inl (toInternal err)), unlocked (cvr_Name req) w4)"
  unfolding cs_CreateVolume_def using assms by (intro withLock_locked) (simp add: prog_simps)

text \<open>
  C13. Creating is idempotent as long as the connections of the volume can be read: when the cluster has a volume of the
  requested name in the requested pool and answers for its connections, creation returns that volume's identifier,
  whatever size was asked for, and sends nothing but \<open>GET\<close> requests. (What happens when it does not answer is stated
  below.)
\<close>

theorem CreateVolume_existing:
  assumes "map_of (cvr_Parameters req) ''cluster_id'' = Some clusterID"
    and "NewsimplyBlockClient E clusterID (locked (cvr_Name req) w) = (Ret (Inr sb), w1)"
    and "node_GetVolume E sb (cvr_Name req) (get0 (cvr_Parameters req) ''pool_name'') w1 = (Ret (Inr uuid), w2)"
    and "volumeID = volume_id \<lparr>sv_clusterID = clusterID, sv_lvolID = uuid, sv_poolName = get0 (cvr_Parameters req) ''pool_name''\<rparr>"
    and "cs_publishVolume E volumeID sb w2 = (Ret (Inr volInfo), w3)"
  shows "\<exists>vol w' es. cs_CreateVolume E req w = (Ret (Inr vol), w') \<and> vol_VolumeId vol = volumeID \<and>
    w_trace w' = w_trace w @ EvLock (cvr_Name req) # es @ [EvUnlock (cvr_Name req)] \<and> list_all (sends {''GET''}) es"
proof -
  let ?vol = "with_id sb (poolName req) uuid (newVolume req)"
  have id: "vol_VolumeId ?vol = volumeID"
    using NewsimplyBlockClient_InrE(1) [OF assms(2)] assms(4) by (simp add: poolName_def)
  then have "cs_CreateVolume E req w = (Ret (Inr (?vol\<lparr>vol_VolumeContext := volumeContext (vol_VolumeContext ?vol) volInfo\<rparr>)),
      unlocked (cvr_Name req) w3)"
    using CreateVolume_published [OF assms(1,2) cs_createVolume_existing] assms(3,5) by (simp add: poolName_def)
  moreover obtain es1 where "w_trace w1 = w_trace (locked (cvr_Name req) w) @ es1" "list_all (sends {''GET''}) es1"
    using keeps_NewsimplyBlockClient assms(2) by (rule keeps_sends_run)
  moreover obtain es2 where "w_trace w2 = w_trace w1 @ es2" "list_all (sends {''GET''}) es2"
    by (rule keeps_sends_run [OF keeps_node_get(3) [where ms = "{''GET''}"] assms(3)]) simp
  moreover obtain es3 where "w_trace w3 = w_trace w2 @ es3" "list_all (sends {''GET''}) es3"
    by (rule keeps_sends_run [OF keeps_cs_publishVolume [where ms = "{''GET''}"] assms(5)]) simp
  ultimately show ?thesis using id
    by (intro exI [of _ "es1 @ es2 @ es3"] exI conjI) (auto simp: locked_def unlocked_def)
qed

theorem CreateVolume_existing_witness:
  "\<exists>vol w'. cs_CreateVolume demo_env demo_create (demo_state [volume_reply, volume_reply, connect_reply] []) = (Ret (Inr vol), w') \<and>
    vol_VolumeId vol = ''c1:p1:v-1''"
proof -
  let ?w = "demo_state [volume_reply, volume_reply, connect_reply] []"
  let ?t1 = "[EvLock ''pvc-1'', EvFile (OpRead demo_secret_path)]"
  have c: "NewsimplyBlockClient demo_env ''c1'' (locked (cvr_Name demo_create) ?w) =
      (Ret (Inr demo_node), demo_state [volume_reply, volume_reply, connect_reply] ?t1)"
    by (simp add: demo_simps)
  obtain t2 where g: "node_GetVolume demo_env demo_node (cvr_Name demo_create) (get0 (cvr_Parameters demo_create) ''pool_name'')
      (demo_state [volume_reply, volume_reply, connect_reply] ?t1) = (Ret (Inr ''v-1''), demo_state [volume_reply, connect_reply] t2)"
    by (simp add: demo_simps)
  have id: "''c1:p1:v-1'' = volume_id \<lparr>sv_clusterID = ''c1'', sv_lvolID = ''v-1'',
      sv_poolName = get0 (cvr_Parameters demo_create) ''pool_name''\<rparr>"
    by (simp add: volume_id_def demo_simps)
  have "vol_VolumeId demo_volume = ''c1:p1:v-1''" by (simp add: demo_volume_def volume_id_def demo_simps)
  then obtain volInfo w3 where "cs_publishVolume demo_env ''c1:p1:v-1'' demo_node (demo_state [volume_reply, connect_reply] t2) =
      (Ret (Inr volInfo), w3)"
    using demo_publish [of "[]" t2] by simp
  from CreateVolume_existing [OF demo_create_simps(4) c g id this] show ?thesis by blast
qed

section \<open>Publishing fails\<close>

text \<open>
  C15. If publishing fails, creation deletes the volume, also when it did not create it: for a volume that existed before
  the call, a failure to read its connections ends in a \<open>DELETE\<close> of that volume and the error.
\<close>

theorem CreateVolume_deletes_existing:
  assumes "map_of (cvr_Parameters req) ''cluster_id'' = Some clusterID"
    and "NewsimplyBlockClient E clusterID (locked (cvr_Name req) w) = (Ret (Inr sb), w1)"
    and "node_GetVolume E sb (cvr_Name req) (get0 (cvr_Parameters req) ''pool_name'') w1 = (Ret (Inr uuid), w2)"
    and "volumeID = volume_id \<lparr>sv_clusterID = clusterID, sv_lvolID = uuid, sv_poolName = get0 (cvr_Parameters req) ''pool_name''\<rparr>"
    and "cs_publishVolume E volumeID sb w2 = (Ret (Inl err), w3)"
    and "plain_volume \<lparr>sv_clusterID = clusterID, sv_lvolID = uuid, sv_poolName = get0 (cvr_Parameters req) ''pool_name''\<rparr>"
    and "NewsimplyBlockClient E clusterID w3 = (Ret (Inr sb'), w4)"
    and "node_DeleteVolume E sb' uuid w4 = (Ret r, w5)"
  shows "cs_CreateVolume E req w = (Ret (Inl (toInternal err)), unlocked (cvr_Name req) w5)"
proof (rule CreateVolume_unpublished [OF assms(1,2)])
  let ?vol = "with_id sb (poolName req) uuid (newVolume req)"
  have id: "vol_VolumeId ?vol = volumeID"
    using NewsimplyBlockClient_InrE(1) [OF assms(2)] assms(4) by (simp add: poolName_def)
  show "cs_createVolume E req sb w1 = (Ret (Inr ?vol), w2)"
    using assms(3) by (intro cs_createVolume_existing) (simp add: poolName_def)
  show "cs_publishVolume E (vol_VolumeId ?vol) sb w2 = (Ret (Inl err), w3)" unfolding id by (rule assms(5))
  show "cs_deleteVolume E (vol_VolumeId ?vol) w3 = (Ret r, w5)"
    unfolding id cs_deleteVolume_def using assms(4,6-8) by (simp add: prog_simps volid.dec_enc)
qed

theorem CreateVolume_deletes_existing_witness:
  "\<exists>err w'. cs_CreateVolume demo_env demo_create
      (demo_state [volume_reply, volume_reply, failure_reply, volume_reply, done_reply] []) = (Ret (Inl err), w') \<and>
    EvHttp (sbcli_request (nd_Client demo_node) ''DELETE'' ''/lvol/v-1'' None) \<in> set (w_trace w')"
proof -
  let ?w = "demo_state [volume_reply, volume_reply, failure_reply, volume_reply, done_reply] []"
  let ?t1 = "[EvLock ''pvc-1'', EvFile (OpRead demo_secret_path)]"
  let ?v = "\<lparr>sv_clusterID = ''c1'', sv_lvolID = ''v-1'', sv_poolName = get0 (cvr_Parameters demo_create) ''pool_name''\<rparr>"
  have plain: "plain_volume ?v" by (simp add: plain_volume_def demo_simps)
  have vol: "getSPDKVol (volume_id ?v) = Inr ?v" by (rule volid.dec_enc [OF plain])
  have c: "NewsimplyBlockClient demo_env ''c1'' (locked (cvr_Name demo_create) ?w) =
      (Ret (Inr demo_node), demo_state [volume_reply, volume_reply, failure_reply, volume_reply, done_reply] ?t1)"
    by (simp add: demo_simps)
  obtain t2 where g: "node_GetVolume demo_env demo_node (cvr_Name demo_create) (get0 (cvr_Parameters demo_create) ''pool_name'')
      (demo_state [volume_reply, volume_reply, failure_reply, volume_reply, done_reply] ?t1) =
      (Ret (Inr ''v-1''), demo_state [volume_reply, failure_reply, volume_reply, done_reply] t2)"
    by (simp add: demo_simps)
  obtain e t3 where p: "cs_publishVolume demo_env (volume_id ?v) demo_node
      (demo_state [volume_reply, failure_reply, volume_reply, done_reply] t2) = (Ret (Inl e), demo_state [done_reply] t3)"
    using vol by (simp add: cs_publishVolume_def cs_unpublishVolume_def prog_simps demo_simps)
  obtain t4 where n: "NewsimplyBlockClient demo_env ''c1'' (demo_state [done_reply] t3) = (Ret (Inr demo_node), demo_state [done_reply] t4)"
    by (simp add: demo_simps)
  have d: "node_DeleteVolume demo_env demo_node ''v-1'' (demo_state [done_reply] t4) = (Ret (Inr ()),
      demo_state [] (t4 @ [EvHttp (sbcli_request (nd_Client demo_node) ''DELETE'' ''/lvol/v-1'' None)]))"
    by (simp add: demo_simps)
  from CreateVolume_deletes_existing [OF demo_create_simps(4) c g refl p plain n d]
  show ?thesis by (simp add: unlocked_def demo_simps)
qed

section \<open>Deleting what is gone\<close>

text \<open>
  C16. Deleting a volume that the cluster no longer has fails: the look at the volume that stands for unpublishing it
  gets the cluster's \<^verbatim>\<open>no such device\<close>, which is not one of the errors the handler accepts, so it
  returns \<open>Internal\<close> and sends no \<open>DELETE\<close>. The handler's branches for a volume already gone are never reached.
\<close>

theorem DeleteVolume_of_missing_fails:
  assumes "getSPDKVol volumeID = Inr v"
    and "NewsimplyBlockClient E (sv_clusterID v) (locked volumeID w) = (Ret (Inr sb), w1)"
    and "http_check E ''GET'' (rc_ClusterIP (nd_Client sb) @ ''/api/v1/'' @ ''/lvol/'' @ sv_lvolID v) = None"
    and "http_do E (sbcli_request (nd_Client sb) ''GET'' (''/lvol/'' @ sv_lvolID v) None) (w_ext w1) =
      (Inr \<lparr>rs_status = s, rs_body = jprint (JObj [(''error'', JStr msg)])\<rparr>, x)"
    and "400 \<le> s" and "s < 500" and "valid_utf8 msg"
  shows "\<exists>w'. cs_DeleteVolume E volumeID w =
      (Ret (Inl (Status Internal (status_line ''GET'' s @ '' Error: '' @ msg))), w') \<and>
    w_trace w' = w_trace w1 @ [EvHttp (sbcli_request (nd_Client sb) ''GET'' (''/lvol/'' @ sv_lvolID v) None), EvUnlock volumeID]"
proof -
  let ?rq = "sbcli_request (nd_Client sb) ''GET'' (''/lvol/'' @ sv_lvolID v) None"
  let ?e = "ErrorString (status_line ''GET'' s @ '' Error: '' @ msg)"
  let ?w2 = "w1\<lparr>w_ext := x, w_trace := w_trace w1 @ [EvHttp ?rq]\<rparr>"
  have "CallSBCLI E (nd_Client sb) ''GET'' (''/lvol/'' @ sv_lvolID v) None w1 = (Ret (Inl ?e), ?w2)"
    using CallSBCLI_run [where verb = "''GET''", OF NewsimplyBlockClient_InrE(2) [OF assms(2)] _ assms(4)] assms(3)
      sbcli_result_error [OF assms(5-7), where verb = "''GET''"] by (simp add: sbcli_request_def)
  then have "cs_unpublishVolume E volumeID (locked volumeID w) = (Ret (Inl ?e), ?w2)"
    using assms(1,2) by (simp add: cs_unpublishVolume_def node_UnpublishVolume_def prog_simps)
  then have "cs_DeleteVolume E volumeID w = (Ret (Inl (toInternal ?e)), unlocked volumeID ?w2)"
    unfolding cs_DeleteVolume_def Let_def by (intro withLock_locked) (simp add: prog_simps)
  then show ?thesis by (simp add: toInternal_def unlocked_def)
qed

theorem DeleteVolume_of_missing_fails_witness:
  "\<exists>w'. cs_DeleteVolume demo_env ''c1:p1:v-1'' (demo_state [missing_reply] []) =
    (Ret (Inl (Status Internal (status_line ''GET'' 404 @ '' Error: '' @ ''LVol: No such device''))), w')"
proof -
  let ?v = "\<lparr>sv_clusterID = ''c1'', sv_lvolID = ''v-1'', sv_poolName = ''p1''\<rparr>"
  have v: "getSPDKVol ''c1:p1:v-1'' = Inr ?v" by code_simp
  have n: "NewsimplyBlockClient demo_env (sv_clusterID ?v) (locked ''c1:p1:v-1'' (demo_state [missing_reply] [])) =
      (Ret (Inr demo_node), demo_state [missing_reply] [EvLock ''c1:p1:v-1'', EvFile (OpRead demo_secret_path)])"
    by (simp add: demo_simps)
  have check: "http_check demo_env ''GET'' u = None" for u by (simp add: demo_env_def)
  have do: "http_do demo_env rq (w_ext (demo_state [missing_reply] tr)) = (Inr \<lparr>rs_status = 404,
      rs_body = jprint (JObj [(''error'', JStr ''LVol: No such device'')])\<rparr>, [])" for rq tr
    by (simp add: demo_env_def demo_state_def missing_reply_def del: jprint.simps jmembers.simps)
  have "valid_utf8 ''LVol: No such device''" by code_simp
  from DeleteVolume_of_missing_fails [OF v n check do _ _ this] show ?thesis by auto
qed

end
