(* ===== verification/ClusterScope.thy ===== *)
theory ClusterScope
  imports ControllerErrors
begin

text \<open>
  Which clusters the controller service talks to. A deployment may have several clusters, with a secret each; a handler
  must send its requests to the cluster its argument names, with that cluster's own credentials, and to no other.
\<close>

section \<open>Requests of a set of clusters\<close>

text \<open>The clusters that the secret file of the container has entries for; none if it is missing or cannot be parsed.\<close>

definition secret_file :: "'x env \<Rightarrow> string" where
  "secret_file E = FromEnv E ''SPDKCSI_SECRET'' ''/etc/spdkcsi-secret/secret.json''"

definition configured_clusters :: "'x env \<Rightarrow> fs \<Rightarrow> ClusterConfig list" where
  "configured_clusters E fs = (case fs_read (path_comps (secret_file E)) fs of
     Inl err \<Rightarrow> []
   | Inr (bytes, _) \<Rightarrow> (case json_unmarshal dec_ClustersInfo [] bytes of Inl err \<Rightarrow> [] | Inr clusters \<Rightarrow> clusters))"

text \<open>
  A request to one of the clusters of \<open>C\<close>: for one of the entries \<open>K\<close> it goes to the endpoint of the entry, names the
  cluster of the entry, carries its secret, and is authorized with both. Events that are no requests do not matter.
\<close>

fun addressed :: "ClusterConfig list \<Rightarrow> string set \<Rightarrow> event \<Rightarrow> bool" where
  "addressed K C (EvHttp rq) \<longleftrightarrow> (\<exists>cluster \<in> set K. cc_ClusterID cluster \<in> C \<and> cc_ClusterSecret cluster \<noteq> [] \<and>
     prefix (cc_ClusterEndpoint cluster @ ''/api/v1/'') (rq_url rq) \<and>
     map_of (rq_headers rq) ''Cluster'' = Some (cc_ClusterID cluster) \<and>
     map_of (rq_headers rq) ''Secret'' = Some (cc_ClusterSecret cluster) \<and>
     map_of (rq_headers rq) ''Authorization'' = Some (cc_ClusterID cluster @ '' '' @ cc_ClusterSecret cluster))"
| "addressed K C e \<longleftrightarrow> True"

text \<open>
  The effect of a handler: if it starts on the files \<open>fs\<close>, it leaves them as they are and its requests go to the
  clusters of \<open>C\<close> with the entries these have in \<open>fs\<close>.
\<close>

definition in_cluster :: "'x env \<Rightarrow> fs \<Rightarrow> string set \<Rightarrow> 'x world \<Rightarrow> 'x world \<Rightarrow> bool" where
  "in_cluster E fs C w w' \<longleftrightarrow>
     (w_fs w = fs \<longrightarrow> w_fs w' = fs \<and> extends (addressed (configured_clusters E fs) C) w w')"

interpretation scoped: effect_rel "in_cluster E fs C" for E fs C
  by unfold_locales (auto simp: in_cluster_def intro: tr.R_refl tr.R_trans)

lemma keeps_in_cluster:
  assumes "keeps same_fs m" and "keeps (extends (addressed (configured_clusters E fs) C)) m"
  shows "keeps (in_cluster E fs C) m"
  using assms by (simp add: keeps_def in_cluster_def same_fs_def)

lemma keeps_service_scoped:
  "list_all (addressed (configured_clusters E fs) C) ev \<Longrightarrow> keeps (in_cluster E fs C) (service ev f)"
  by (intro keeps_in_cluster keeps_service_fs keeps_service_tr)

text \<open>A node object of one of these clusters.\<close>

definition node_of :: "ClusterConfig list \<Rightarrow> string set \<Rightarrow> NodeNVMf \<Rightarrow> bool" where
  "node_of K C node \<longleftrightarrow> (\<exists>cluster \<in> set K. cc_ClusterID cluster \<in> C \<and> cc_ClusterSecret cluster \<noteq> [] \<and>
     node = NewNVMf (cc_ClusterID cluster) (cc_ClusterEndpoint cluster) (cc_ClusterSecret cluster))"

lemma addressed_request:
  assumes "node_of K C node"
  shows "addressed K C (EvHttp (sbcli_request (nd_Client node) verb path args))"
  using assms by (auto simp: node_of_def sbcli_request_def NewNVMf_def)

lemma keeps_call_addressed:
  "node_of (configured_clusters E fs) C node \<Longrightarrow> keeps (in_cluster E fs C) (CallSBCLI E (nd_Client node) verb path args)"
  unfolding CallSBCLI_def Let_def http_send_def
  by (intro scoped.keeps_rules keeps_service_scoped) (simp add: addressed_request del: addressed.simps)

lemma keeps_node_addressed:
  assumes "node_of (configured_clusters E fs) C node"
  shows "keeps (in_cluster E fs C) (node_VolumeInfo E node lvolID)"
    and "keeps (in_cluster E fs C) (node_CreateVolume E node params)"
    and "keeps (in_cluster E fs C) (node_GetVolume E node lvolName pool)"
    and "keeps (in_cluster E fs C) (node_GetVolumeSize E node lvolID)"
    and "keeps (in_cluster E fs C) (node_ResizeVolume E node lvolID sz)"
    and "keeps (in_cluster E fs C) (node_CloneSnapshot E node sid cloneName newSize pvcName)"
    and "keeps (in_cluster E fs C) (node_CreateSnapshot E node lvolID snapshotName)"
    and "keeps (in_cluster E fs C) (node_DeleteVolume E node lvolID)"
    and "keeps (in_cluster E fs C) (node_DeleteSnapshot E node sid)"
    and "keeps (in_cluster E fs C) (node_PublishVolume E node lvolID)"
    and "keeps (in_cluster E fs C) (node_UnpublishVolume E node lvolID)"
    and "keeps (in_cluster E fs C) (node_ListSnapshots E node)"
  unfolding node_VolumeInfo_def node_CreateVolume_def node_GetVolume_def node_GetVolumeSize_def node_ResizeVolume_def
    node_CloneSnapshot_def node_CreateSnapshot_def node_DeleteVolume_def node_DeleteSnapshot_def node_PublishVolume_def
    node_UnpublishVolume_def node_ListSnapshots_def listSnapshots_def getVolumeInfo_def createVolume_def getVolume_def resizeVolume_def cloneSnapshot_def
    snapshot_def deleteVolume_def deleteSnapshot_def Let_def
  by (intro scoped.keeps_rules keeps_call_addressed assms)+

section \<open>Using a client\<close>

lemma keeps_client: "keeps (in_cluster E fs C) (NewsimplyBlockClient E c)"
  unfolding NewsimplyBlockClient_def ParseJSONFile_def Let_def
  by (intro keeps_in_cluster fsf.keeps_rules tr.keeps_rules keeps_ReadFile_fs keeps_ReadFile_tr) simp

lemma ReadFile_content:
  "ReadFile E p w = (Ret (Inr bytes), w') \<Longrightarrow> fs_read (path_comps p) (w_fs w) = Inr (bytes, w_fs w)"
  by (auto simp: ReadFile_def pathErr_def file_op_def ret_def bindP_def Let_def fs_read_def
      split: prod.splits option.splits sum.splits fnode.splits)

lemma client_node_of:
  assumes "NewsimplyBlockClient E c w = (Ret (Inr node), w')" and "c \<in> C"
  shows "node_of (configured_clusters E (w_fs w)) C node"
proof -
  obtain bytes w1 clusters where read: "ReadFile E (secret_file E) w = (Ret (Inr bytes), w1)"
    and parsed: "json_unmarshal dec_ClustersInfo [] bytes = Inr clusters" and pick: "pick_cluster c clusters = Inr node"
    using assms(1) unfolding NewsimplyBlockClient_def Let_def ParseJSONFile_def secret_file_def
    by (auto simp: ret_def elim!: bindE_InrE dest!: mapErr_InrE)
  have "configured_clusters E (w_fs w) = clusters"
    using ReadFile_content [OF read] parsed by (simp add: configured_clusters_def)
  moreover obtain cluster where "find (\<lambda>cluster. cc_ClusterID cluster = c) clusters = Some cluster"
    and "cc_ClusterSecret cluster \<noteq> []" "node = NewNVMf c (cc_ClusterEndpoint cluster) (cc_ClusterSecret cluster)"
    using pick unfolding pick_cluster_def by (auto split: option.splits if_splits)
  ultimately show ?thesis using assms(2) by (auto simp: node_of_def find_Some_iff)
qed

lemma keeps_bindE_scoped:
  assumes "keeps (in_cluster E fs C) m"
    and "\<And>a w w'. w_fs w = fs \<Longrightarrow> m w = (Ret (Inr a), w') \<Longrightarrow> keeps (in_cluster E fs C) (f a)"
  shows "keeps (in_cluster E fs C) (bindE m f)"
proof (rule keepsI)
  fix w r w'
  assume run: "bindE m f w = (r, w')"
  show "in_cluster E fs C w w'"
  proof (cases "w_fs w = fs")
    case True
    obtain q u where m: "m w = (q, u)" by (cases "m w")
    have "in_cluster E fs C w u" using assms(1) m by (rule keepsD)
    moreover have "in_cluster E fs C u w'"
    proof (cases "\<exists>a. q = Ret (Inr a)")
      case True
      then obtain a where a: "q = Ret (Inr a)" ..
      show ?thesis
        using keepsD [OF assms(2) [OF \<open>w_fs w = fs\<close> m [unfolded a]]] run m by (simp add: a bindE_def bindP_def)
    next
      case False
      then have "w' = u" using run m
        by (cases q) (auto simp: bindE_def bindP_def throw_def ret_def split: sum.splits)
      then show ?thesis using scoped.R_refl by simp
    qed
    ultimately show ?thesis by (rule scoped.R_trans)
  qed (simp add: in_cluster_def)
qed

text \<open>What is done with the client of a cluster stays in it.\<close>

lemma keeps_with_client:
  assumes "c \<in> C" and "\<And>node. node_of (configured_clusters E fs) C node \<Longrightarrow> keeps (in_cluster E fs C) (f node)"
  shows "keeps (in_cluster E fs C) (bindE (NewsimplyBlockClient E c) f)"
    and "keeps (in_cluster E fs C) (bindE (mapErr g (NewsimplyBlockClient E c)) f)"
  using assms
  by (auto intro!: keeps_bindE_scoped scoped.keeps_mapErr keeps_client dest!: mapErr_InrE dest: client_node_of)

lemma keeps_prepare_scoped: "keeps (in_cluster E fs C) (prepareCreateVolumeReq E req sizeMiB)"
  by (rule keeps_mono [OF prepare_silent]) (simp add: silent_def in_cluster_def extends_def)

lemma keeps_with_parsed:
  assumes "\<And>a. x = Inr a \<Longrightarrow> keeps (in_cluster E fs C) (f a)"
  shows "keeps (in_cluster E fs C) (bindE (ret x) f)"
  by (rule scoped.keeps_bindE_result [OF scoped.keeps_ret]) (simp add: ret_def assms)

definition volume_cluster :: "string \<Rightarrow> string set" where
  "volume_cluster volumeID = (case getSPDKVol volumeID of Inl err \<Rightarrow> {} | Inr v \<Rightarrow> {sv_clusterID v})"

definition snapshot_cluster :: "string \<Rightarrow> string set" where
  "snapshot_cluster snapshotID = (case getSnapshot snapshotID of Inl err \<Rightarrow> {} | Inr s \<Rightarrow> {ss_clusterID s})"

lemma keeps_with_volume:
  assumes "volume_cluster volumeID \<subseteq> C"
    and "\<And>v node. getSPDKVol volumeID = Inr v \<Longrightarrow> node_of (configured_clusters E fs) C node \<Longrightarrow> keeps (in_cluster E fs C) (f v node)"
  shows "keeps (in_cluster E fs C)
      (bindE (ret (getSPDKVol volumeID)) (\<lambda>v. bindE (NewsimplyBlockClient E (sv_clusterID v)) (f v)))"
    and "keeps (in_cluster E fs C)
      (bindE (ret (getSPDKVol volumeID)) (\<lambda>v. bindE (mapErr g (NewsimplyBlockClient E (sv_clusterID v))) (f v)))"
  using assms by (auto intro!: keeps_with_parsed keeps_with_client simp: volume_cluster_def)

lemma keeps_with_snapshot:
  assumes "snapshot_cluster snapshotID \<subseteq> C"
    and "\<And>s node. getSnapshot snapshotID = Inr s \<Longrightarrow> node_of (configured_clusters E fs) C node \<Longrightarrow> keeps (in_cluster E fs C) (f s node)"
  shows "keeps (in_cluster E fs C)
      (bindE (ret (getSnapshot snapshotID)) (\<lambda>s. bindE (mapErr g (NewsimplyBlockClient E (ss_clusterID s))) (f s)))"
  using assms by (auto intro!: keeps_with_parsed keeps_with_client simp: snapshot_cluster_def)

lemma keeps_withLock_addressed: "keeps (in_cluster E fs C) m \<Longrightarrow> keeps (in_cluster E fs C) (withLock k m)"
  unfolding withLock_def by (intro scoped.keeps_rules keeps_service_scoped) simp_all

section \<open>The handlers\<close>

lemma addressed_delete: "volume_cluster volumeID \<subseteq> C \<Longrightarrow> keeps (in_cluster E fs C) (cs_deleteVolume E volumeID)"
  unfolding cs_deleteVolume_def by (intro keeps_with_volume keeps_node_addressed)

lemma addressed_unpublish: "volume_cluster volumeID \<subseteq> C \<Longrightarrow> keeps (in_cluster E fs C) (cs_unpublishVolume E volumeID)"
  unfolding cs_unpublishVolume_def by (intro keeps_with_volume keeps_node_addressed)

lemma addressed_publish:
  "volume_cluster volumeID \<subseteq> C \<Longrightarrow> node_of (configured_clusters E fs) C node \<Longrightarrow> keeps (in_cluster E fs C) (cs_publishVolume E volumeID node)"
  unfolding cs_publishVolume_def
  by (intro scoped.keeps_rules keeps_node_addressed addressed_unpublish)

text \<open>The clusters a creation may talk to: that of the storage class, and that of the content source.\<close>

definition source_clusters :: "VolumeContentSource option \<Rightarrow> string set" where
  "source_clusters src = (case src of
     Some (SourceSnapshot (Some snapshotID)) \<Rightarrow> snapshot_cluster snapshotID
   | Some (SourceVolume (Some volumeID)) \<Rightarrow> volume_cluster volumeID
   | _ \<Rightarrow> {})"

definition creation_clusters :: "CreateVolumeRequest \<Rightarrow> string set" where
  "creation_clusters req =
     set_option (map_of (cvr_Parameters req) ''cluster_id'') \<union> source_clusters (cvr_ContentSource req)"

lemma addressed_source:
  assumes "source_clusters (Some src) \<subseteq> C"
  shows "keeps (in_cluster E fs C) (handleVolumeContentSource E src req pool vol n)"
proof (cases src)
  case (SourceSnapshot s)
  show ?thesis
  proof (cases s)
    case (Some snapshotID)
    then have "snapshot_cluster snapshotID \<subseteq> C" using assms SourceSnapshot by (simp add: source_clusters_def)
    then show ?thesis unfolding SourceSnapshot Some handleVolumeContentSource_def handleSnapshotSource_def Let_def
      by simp (rule keeps_with_snapshot, assumption, intro scoped.keeps_rules keeps_node_addressed)
  qed (simp add: SourceSnapshot handleVolumeContentSource_def handleSnapshotSource_def scoped.keeps_ret)
next
  case (SourceVolume v)
  show ?thesis
  proof (cases v)
    case (Some volumeID)
    then have "volume_cluster volumeID \<subseteq> C" using assms SourceVolume by (simp add: source_clusters_def)
    then show ?thesis unfolding SourceVolume Some handleVolumeContentSource_def handleVolumeSource_def Let_def
      by simp (rule keeps_with_volume, assumption, intro scoped.keeps_rules keeps_node_addressed)
  qed (simp add: SourceVolume handleVolumeContentSource_def handleVolumeSource_def scoped.keeps_ret)
next
  case SourceUnset
  then show ?thesis unfolding handleVolumeContentSource_def by (simp add: scoped.keeps_throw)
qed

lemma addressed_create:
  assumes "node_of (configured_clusters E fs) C node" and "source_clusters (cvr_ContentSource req) \<subseteq> C"
  shows "keeps (in_cluster E fs C) (cs_createVolume E req node)"
proof -
  have src: "keeps (in_cluster E fs C) (handleVolumeContentSource E source req pool vol n)"
    if "cvr_ContentSource req = Some source" for source pool vol n
    using assms(2) that by (intro addressed_source) simp
  then show ?thesis
    unfolding cs_createVolume_def getExistingVolume_def Let_def
    by (cases "cvr_ContentSource req"; simp)
      (intro scoped.keeps_rules keeps_node_addressed assms(1) keeps_prepare_scoped, (simp add: scoped.keeps_rules)?)+
qed

text \<open>The volume that is created lies in one of these clusters.\<close>

lemma source_volume_cluster:
  assumes "handleVolumeContentSource E src req pool vol n w = (Ret (Inr (Some v)), w')"
    and "source_clusters (Some src) \<subseteq> C"
  shows "\<exists>node uuid. v = with_id node pool uuid vol \<and> rc_ClusterID (nd_Client node) \<in> C"
  using assms
  by (auto simp: handleVolumeContentSource_def handleSnapshotSource_def handleVolumeSource_def Let_def
      ret_def throw_def source_clusters_def snapshot_cluster_def volume_cluster_def
      elim!: bindE_InrE dest!: mapErr_InrE NewsimplyBlockClient_InrE(1)
      split: VolumeContentSource.splits option.splits)

lemma created_volume_cluster:
  assumes "cs_createVolume E req node w = (Ret (Inr vol), w')"
    and "node_of (configured_clusters E fs) C node" and "source_clusters (cvr_ContentSource req) \<subseteq> C"
  shows "volume_cluster (vol_VolumeId vol) \<subseteq> C"
proof -
  let ?old = "getExistingVolume E (cvr_Name req) (poolName req) node (newVolume req)"
  have node: "rc_ClusterID (nd_Client node) \<in> C" using assms(2) by (auto simp: node_of_def NewNVMf_def)
  obtain r w1 where old: "?old w = (Ret r, w1)"
    using assms(1) unfolding cs_createVolume_def Let_def poolName_def by (auto elim!: bindP_RetE)
  have "\<exists>node' uuid. vol = with_id node' (poolName req) uuid (newVolume req) \<and> rc_ClusterID (nd_Client node') \<in> C"
  proof (cases r)
    case (Inr v)
    then have "v = vol" using assms(1) old unfolding cs_createVolume_def Let_def poolName_def
      by (simp add: prog_simps)
    moreover have "\<exists>uuid. v = with_id node (poolName req) uuid (newVolume req)"
      using old Inr unfolding getExistingVolume_def by (auto elim!: bindE_InrE simp: ret_def)
    ultimately show ?thesis using node by blast
  next
    case (Inl e)
    then show ?thesis using assms(1,3) old node unfolding cs_createVolume_def Let_def poolName_def
      by (auto simp: bindP_Ret ret_def elim!: bindE_InrE split: option.splits)
        (blast dest: source_volume_cluster)+
  qed
  then obtain node' uuid where vol: "vol = with_id node' (poolName req) uuid (newVolume req)"
    and cluster: "rc_ClusterID (nd_Client node') \<in> C" by blast
  have "sv_clusterID v \<in> C" if "getSPDKVol (vol_VolumeId vol) = Inr v" for v
    using volume_id_parts [OF that [unfolded vol with_id_simps]] cluster by simp
  then show ?thesis by (auto simp: volume_cluster_def split: sum.splits)
qed

lemma addressed_CreateVolume: "keeps (in_cluster E fs (creation_clusters req)) (cs_CreateVolume E req)"
proof (cases "map_of (cvr_Parameters req) ''cluster_id''")
  case None
  then show ?thesis unfolding cs_CreateVolume_def by (simp add: keeps_withLock_addressed scoped.keeps_throw)
next
  case (Some c)
  let ?C = "creation_clusters req"
  have c: "c \<in> ?C" and src: "source_clusters (cvr_ContentSource req) \<subseteq> ?C"
    using Some by (auto simp: creation_clusters_def)
  have "keeps (in_cluster E fs ?C) (bindE (mapErr toInternal (cs_createVolume E req node)) (\<lambda>vol.
      bindP (cs_publishVolume E (vol_VolumeId vol) node) (\<lambda>published. case published of
          Inl err \<Rightarrow> bindP (cs_deleteVolume E (vol_VolumeId vol)) (\<lambda>_. throw (toInternal err))
        | Inr volumeInfo \<Rightarrow>
            ret (Inr (vol\<lparr>vol_VolumeContext := volumeContext (vol_VolumeContext vol) volumeInfo\<rparr>)))))"
    if node: "node_of (configured_clusters E fs) ?C node" for node
  proof (rule scoped.keeps_bindE_result [OF scoped.keeps_mapErr [OF addressed_create [OF node src]]])
    fix vol w w'
    assume "mapErr toInternal (cs_createVolume E req node) w = (Ret (Inr vol), w')"
    then have "volume_cluster (vol_VolumeId vol) \<subseteq> ?C"
      using created_volume_cluster [OF _ node src] by (blast dest: mapErr_InrE)
    then show "keeps (in_cluster E fs ?C) (bindP (cs_publishVolume E (vol_VolumeId vol) node) (\<lambda>published. case published of
          Inl err \<Rightarrow> bindP (cs_deleteVolume E (vol_VolumeId vol)) (\<lambda>_. throw (toInternal err))
        | Inr volumeInfo \<Rightarrow>
            ret (Inr (vol\<lparr>vol_VolumeContext := volumeContext (vol_VolumeContext vol) volumeInfo\<rparr>))))"
      using node by (intro scoped.keeps_rules addressed_publish addressed_delete)
  qed
  then show ?thesis unfolding cs_CreateVolume_def Some option.case
    by (intro keeps_withLock_addressed keeps_with_client c)
qed

lemma listing_in_cluster:
  "keeps (in_cluster E fs C) (ListClusters E)"
  "keeps (in_cluster E fs UNIV) (collectSnapshots E clusters)"
  "keeps (in_cluster E fs C) (snapshotResponses entries)"
proof -
  show "keeps (in_cluster E fs C) (ListClusters E)"
    unfolding ListClusters_def ParseJSONFile_def
    by (intro keeps_in_cluster fsf.keeps_rules tr.keeps_rules keeps_ReadFile_fs keeps_ReadFile_tr) simp
  show "keeps (in_cluster E fs UNIV) (collectSnapshots E clusters)"
  proof (induction clusters)
    case (Cons clusterID clusters)
    show ?case unfolding collectSnapshots.simps
      by (rule keeps_with_client(2) [OF UNIV_I]) (intro scoped.keeps_rules keeps_node_addressed Cons.IH, assumption)
  qed (simp add: scoped.keeps_ret)
  show "keeps (in_cluster E fs C) (snapshotResponses entries)"
    by (induction entries rule: snapshotResponses.induct) (auto intro!: scoped.keeps_rules simp: Let_def)
qed

text \<open>
  C7. Requests stay in their cluster: everything that deleting, looking up, expanding or snapshotting a volume, or deleting
  a snapshot, sends goes to the cluster that the identifier names, to the endpoint and with the credentials that the
  secret file has for it; an identifier that cannot be parsed sends nothing. Creating a volume talks only to the cluster
  of the storage class and, for a clone, to that of its source. Listing snapshots talks to every cluster with its own
  credentials. None of them changes a file.
\<close>

theorem requests_stay_in_cluster:
  "keeps (in_cluster E fs (volume_cluster volumeID)) (cs_DeleteVolume E volumeID) \<and>
   keeps (in_cluster E fs (volume_cluster volumeID)) (cs_ControllerGetVolume E volumeID) \<and>
   keeps (in_cluster E fs (volume_cluster volumeID)) (cs_ControllerExpandVolume E volumeID sz) \<and>
   keeps (in_cluster E fs (volume_cluster volumeID)) (cs_CreateSnapshot E volumeID snapshotName) \<and>
   keeps (in_cluster E fs (snapshot_cluster snapshotID)) (cs_DeleteSnapshot E snapshotID) \<and>
   keeps (in_cluster E fs (creation_clusters req)) (cs_CreateVolume E req) \<and>
   keeps (in_cluster E fs UNIV) (cs_ListSnapshots E)"
proof (intro conjI)
  show "keeps (in_cluster E fs (volume_cluster volumeID)) (cs_DeleteVolume E volumeID)"
    unfolding cs_DeleteVolume_def Let_def
    by (intro keeps_withLock_addressed scoped.keeps_rules addressed_unpublish addressed_delete order_refl)
  show "keeps (in_cluster E fs (volume_cluster volumeID)) (cs_ControllerGetVolume E volumeID)"
    unfolding cs_ControllerGetVolume_def
    by (rule keeps_withLock_addressed, rule keeps_with_volume) (intro order_refl scoped.keeps_rules keeps_node_addressed)+
  show "keeps (in_cluster E fs (volume_cluster volumeID)) (cs_ControllerExpandVolume E volumeID sz)"
    unfolding cs_ControllerExpandVolume_def
    by (rule keeps_with_volume) (intro order_refl scoped.keeps_rules keeps_node_addressed)+
  show "keeps (in_cluster E fs (volume_cluster volumeID)) (cs_CreateSnapshot E volumeID snapshotName)"
    unfolding cs_CreateSnapshot_def
    by (rule keeps_withLock_addressed, rule keeps_with_volume)
      (intro order_refl scoped.keeps_rules keeps_node_addressed keeps_service_scoped; simp)+
  show "keeps (in_cluster E fs (snapshot_cluster snapshotID)) (cs_DeleteSnapshot E snapshotID)"
    unfolding cs_DeleteSnapshot_def
    by (rule keeps_with_snapshot) (intro order_refl keeps_withLock_addressed scoped.keeps_mapErr keeps_node_addressed)+
  show "keeps (in_cluster E fs (creation_clusters req)) (cs_CreateVolume E req)"
    by (rule addressed_CreateVolume)
  show "keeps (in_cluster E fs UNIV) (cs_ListSnapshots E)"
    unfolding cs_ListSnapshots_def by (intro scoped.keeps_bindE listing_in_cluster)
qed

end
