(* ===== verification/Snapshots.thy ===== *)
theory Snapshots
  imports Creation ClusterScope JsonTyping
begin

text \<open>
  Snapshots and clones: the requests that make a snapshot, delete it and make a volume from it, and how the identifiers
  of the answers fit the handlers that take them.
\<close>

section \<open>What a successful request leaves in the trace\<close>

lemma ReadFile_trace: "ReadFile E p w = (r, w') \<Longrightarrow> w_trace w' = w_trace w @ [EvFile (OpRead p)]"
  by (auto simp: ReadFile_def pathErr_def file_op_def bindP_def ret_def Let_def
      split: prod.splits option.splits sum.splits outcome.splits)

lemma client_trace:
  assumes "NewsimplyBlockClient E c w = (Ret (Inr node), w')"
  shows "w_trace w' = w_trace w @ [EvFile (OpRead (secret_file E))]"
  using assms unfolding NewsimplyBlockClient_def ParseJSONFile_def Let_def secret_file_def
  by (auto simp: ret_def elim!: bindE_InrE dest!: mapErr_InrE dest: ReadFile_trace)

definition snapshot_params :: "string \<Rightarrow> string \<Rightarrow> json" where
  "snapshot_params lvolID name = JObj [(''lvol_id'', JStr lvolID), (''snapshot_name'', JStr name)]"

lemma node_CreateSnapshot_InrE:
  assumes "node_CreateSnapshot E node lvolID name w = (Ret (Inr sid), w')"
  obtains uuid where "CallSBCLI E (nd_Client node) ''POST'' ''/snapshot'' (Some (snapshot_params lvolID name)) w =
      (Ret (Inr (JStr uuid)), w')"
    and "sid = snapshot_id \<lparr>ss_clusterID = rc_ClusterID (nd_Client node), ss_snapshotID = uuid\<rparr>"
  using assms unfolding node_CreateSnapshot_def snapshot_def snapshot_params_def
  by (auto simp: ret_def snapshot_id_def as_string_def elim!: bindE_InrE dest!: mapErr_InrE split: json.splits)

lemma node_CloneSnapshot_Inr:
  assumes "node_CloneSnapshot E node sid cloneName newSize pvcName w = (Ret (Inr uuid), w')"
  shows "w_trace w' = w_trace w @ [EvHttp (sbcli_request (nd_Client node) ''POST'' ''/snapshot/clone''
      (Some (clone_params sid cloneName pvcName)))]"
  using assms unfolding node_CloneSnapshot_def cloneSnapshot_def
  by (auto simp: ret_def elim!: bindE_InrE CallSBCLI_InrE dest!: mapErr_InrE)

lemma node_DeleteSnapshot_Inr:
  assumes "node_DeleteSnapshot E node sid w = (Ret (Inr u), w')"
  shows "w_trace w' = w_trace w @ [EvHttp (sbcli_request (nd_Client node) ''DELETE'' (''/snapshot/'' @ sid) None)]"
  using assms unfolding node_DeleteSnapshot_def deleteSnapshot_def
  by (auto simp: ret_def elim!: bindE_InrE CallSBCLI_InrE dest!: mapErr_InrE)

lemma getVolume_InrE:
  assumes "getVolume E client lvolID w = (Ret (Inr b), w')"
  obtains out bs where "CallSBCLI E client ''GET'' (''/lvol/'' @ lvolID) None w = (Ret (Inr out), w')"
    and "redecode (dec_slice dec_BDev zero_BDev) [] out = Inr (b # bs)"
  using assms unfolding getVolume_def
  by (auto simp: ret_def panic_def elim!: bindE_InrE dest!: mapErr_InrE split: list.splits)

lemma node_GetVolumeSize_InrE:
  assumes "node_GetVolumeSize E node lvolID w = (Ret (Inr volSize), w')"
  obtains b where "getVolume E (nd_Client node) lvolID w = (Ret (Inr b), w')" and "volSize = Itoa (bd_LvolSize b)"
  using assms unfolding node_GetVolumeSize_def by (auto simp: ret_def elim!: bindE_InrE)

text \<open>The size of a volume the cluster describes is an \<open>int64\<close>, so its decimal form is read back.\<close>

definition bdev_ok :: "BDev \<Rightarrow> bool" where
  "bdev_ok b \<longleftrightarrow> valid_utf8 (bd_Name b) \<and> valid_utf8 (bd_UUID b) \<and> int64_range (bd_LvolSize b)"

lemma BDev_typing: "decodes_to bdev_ok dec_BDev"
  unfolding dec_BDev_def
  by (rule struct_typing)
    (auto intro!: field_typing [OF string_typing] field_typing [OF int_typing] simp: bdev_ok_def)

lemma getVolume_range:
  assumes "getVolume E client lvolID w = (Ret (Inr b), w')"
  shows "bdev_ok b"
  using assms unfolding getVolume_def
proof (elim bindE_ret_InrE bindE_InrE, goal_cases)
  case (1 out w1 bs)
  have "\<forall>b \<in> set bs. bdev_ok b"
    by (rule unmarshal_typing [OF slice_typing [OF BDev_typing] _ 1(2) [unfolded redecode_def]])
      (simp_all add: zero_BDev_def int64_range_def bdev_ok_def)
  then show ?case using 1(3) by (auto simp: ret_def panic_def split: list.splits)
qed

section \<open>Creating and deleting a snapshot\<close>

lemma cs_CreateSnapshot_InrE:
  assumes "cs_CreateSnapshot E volumeID name w = (Ret (Inr sn), w')"
  obtains v node w1 w2 w3 volSize where "getSPDKVol volumeID = Inr v"
    "NewsimplyBlockClient E (sv_clusterID v) (locked volumeID w) = (Ret (Inr node), w1)"
    "node_CreateSnapshot E node (sv_lvolID v) name w1 = (Ret (Inr (sn_SnapshotId sn)), w2)"
    "node_GetVolumeSize E node (sv_lvolID v) w2 = (Ret (Inr volSize), w3)"
    "ParseInt volSize = Inr (sn_SizeBytes sn)" "sn_SourceVolumeId sn = sv_lvolID v" "sn_ReadyToUse sn"
    "w_trace w' = w_trace w3 @ [EvUnlock volumeID]"
  using assms unfolding cs_CreateSnapshot_def
proof (elim withLock_RetE bindE_ret_InrE bindE_InrE, goal_cases)
  case (1 u v node w1 sid w2 volSize w3 n w4)
  from 1(7) have "ParseInt volSize = Inr n" "w4 = w3"
    by (auto simp: mapErr_def bindP_def ret_def split: sum.splits)
  with 1 show ?case by (auto simp: bindP_def service_def ret_def unlocked_def dest!: mapErr_InrE split: prod.splits)
qed

text \<open>
  C11. A successful \<open>CreateSnapshot\<close> makes the snapshot by one request to the volume's cluster, then asks that cluster for
  the volume, and sends nothing else. The identifier it answers with names the cluster and the very text that the
  cluster answered the first request with; the size is that of the first volume in the answer to the second one, and
  the source is the volume the snapshot was taken of.
\<close>

theorem CreateSnapshot_success:
  assumes "cs_CreateSnapshot E volumeID name w = (Ret (Inr sn), w')"
  shows "\<exists>v (node :: NodeNVMf) uuid out b bs w1 w2 w3. getSPDKVol volumeID = Inr v \<and>
    NewsimplyBlockClient E (sv_clusterID v) (locked volumeID w) = (Ret (Inr node), w1) \<and>
    rc_ClusterID (nd_Client node) = sv_clusterID v \<and>
    CallSBCLI E (nd_Client node) ''POST'' ''/snapshot'' (Some (snapshot_params (sv_lvolID v) name)) w1 =
      (Ret (Inr (JStr uuid)), w2) \<and>
    CallSBCLI E (nd_Client node) ''GET'' (''/lvol/'' @ sv_lvolID v) None w2 = (Ret (Inr out), w3) \<and>
    redecode (dec_slice dec_BDev zero_BDev) [] out = Inr (b # bs) \<and>
    sn_SnapshotId sn = snapshot_id \<lparr>ss_clusterID = sv_clusterID v, ss_snapshotID = uuid\<rparr> \<and>
    sn_SizeBytes sn = bd_LvolSize b \<and> sn_SourceVolumeId sn = sv_lvolID v \<and> sn_ReadyToUse sn \<and>
    w_trace w' = w_trace w @ [EvLock volumeID, EvFile (OpRead (secret_file E)),
      EvHttp (sbcli_request (nd_Client node) ''POST'' ''/snapshot'' (Some (snapshot_params (sv_lvolID v) name))),
      EvHttp (sbcli_request (nd_Client node) ''GET'' (''/lvol/'' @ sv_lvolID v) None), EvUnlock volumeID]"
proof -
  obtain v node w1 w2 w3 volSize where v: "getSPDKVol volumeID = Inr v"
    and client: "NewsimplyBlockClient E (sv_clusterID v) (locked volumeID w) = (Ret (Inr node), w1)"
    and create: "node_CreateSnapshot E node (sv_lvolID v) name w1 = (Ret (Inr (sn_SnapshotId sn)), w2)"
    and sz: "node_GetVolumeSize E node (sv_lvolID v) w2 = (Ret (Inr volSize), w3)"
    and n: "ParseInt volSize = Inr (sn_SizeBytes sn)"
    and rest: "sn_SourceVolumeId sn = sv_lvolID v" "sn_ReadyToUse sn" "w_trace w' = w_trace w3 @ [EvUnlock volumeID]"
    using assms by (rule cs_CreateSnapshot_InrE)
  obtain b where b: "getVolume E (nd_Client node) (sv_lvolID v) w2 = (Ret (Inr b), w3)" "volSize = Itoa (bd_LvolSize b)"
    using sz by (rule node_GetVolumeSize_InrE)
  have size: "sn_SizeBytes sn = bd_LvolSize b"
    using n b getVolume_range [OF b(1)] by (simp add: bdev_ok_def dec64.dec_enc)
  have cluster: "rc_ClusterID (nd_Client node) = sv_clusterID v" by (rule NewsimplyBlockClient_InrE(1) [OF client])
  obtain uuid where post: "CallSBCLI E (nd_Client node) ''POST'' ''/snapshot'' (Some (snapshot_params (sv_lvolID v) name)) w1 =
      (Ret (Inr (JStr uuid)), w2)"
    and sid: "sn_SnapshotId sn = snapshot_id \<lparr>ss_clusterID = sv_clusterID v, ss_snapshotID = uuid\<rparr>"
    using create by (rule node_CreateSnapshot_InrE) (simp add: cluster)
  obtain out bs where get: "CallSBCLI E (nd_Client node) ''GET'' (''/lvol/'' @ sv_lvolID v) None w2 = (Ret (Inr out), w3)"
    and decoded: "redecode (dec_slice dec_BDev zero_BDev) [] out = Inr (b # bs)"
    using b(1) by (rule getVolume_InrE)
  have "w_trace w2 = w_trace w1 @ [EvHttp (sbcli_request (nd_Client node) ''POST'' ''/snapshot''
      (Some (snapshot_params (sv_lvolID v) name)))]"
    using post by (rule CallSBCLI_InrE)
  moreover have "w_trace w3 = w_trace w2 @ [EvHttp (sbcli_request (nd_Client node) ''GET'' (''/lvol/'' @ sv_lvolID v) None)]"
    using get by (rule CallSBCLI_InrE)
  ultimately have "w_trace w' = w_trace w @ [EvLock volumeID, EvFile (OpRead (secret_file E)),
      EvHttp (sbcli_request (nd_Client node) ''POST'' ''/snapshot'' (Some (snapshot_params (sv_lvolID v) name))),
      EvHttp (sbcli_request (nd_Client node) ''GET'' (''/lvol/'' @ sv_lvolID v) None), EvUnlock volumeID]"
    using client_trace [OF client] by (simp add: rest(3) locked_def)
  then show ?thesis using v client cluster post get decoded sid size rest by blast
qed

text \<open>
  C12. Deleting a snapshot sends one \<open>DELETE\<close> to the cluster of its identifier, but the path ends in the whole identifier,
  cluster and colon included, where making a volume from the snapshot names it without them.
\<close>

theorem DeleteSnapshot_request:
  assumes "cs_DeleteSnapshot E snapshotID w = (Ret (Inr ()), w')"
  shows "\<exists>s (node :: NodeNVMf). getSnapshot snapshotID = Inr s \<and> rc_ClusterID (nd_Client node) = ss_clusterID s \<and>
    w_trace w' = w_trace w @ [EvFile (OpRead (secret_file E)), EvLock snapshotID,
      EvHttp (sbcli_request (nd_Client node) ''DELETE''
        (''/snapshot/'' @ ss_clusterID s @ '':'' @ ss_snapshotID s) None), EvUnlock snapshotID]"
  using assms unfolding cs_DeleteSnapshot_def
proof (elim bindE_ret_InrE bindE_InrE withLock_RetE, goal_cases)
  case (1 s node w1 u)
  note run = 1
  have id: "snapshotID = ss_clusterID s @ '':'' @ ss_snapshotID s" and client: "mapErr toInternal (NewsimplyBlockClient E (ss_clusterID s)) w = (Ret (Inr node), w1)"
    and delete: "mapErr toInternal (node_DeleteSnapshot E node snapshotID) (locked snapshotID w1) = (Ret (Inr ()), u)"
    and w': "w' = unlocked snapshotID u"
    using run by (auto simp: getSnapshot_Inr snapshot_id_def)
  have "w_trace w' = w_trace w @ [EvFile (OpRead (secret_file E)), EvLock snapshotID,
      EvHttp (sbcli_request (nd_Client node) ''DELETE'' (''/snapshot/'' @ snapshotID) None), EvUnlock snapshotID]"
    using client_trace [OF mapErr_InrE [OF client]] node_DeleteSnapshot_Inr [OF mapErr_InrE [OF delete]]
    unfolding w' by (simp add: locked_def unlocked_def)
  moreover have "getSnapshot snapshotID = Inr s" using run by simp
  ultimately show ?case
    using NewsimplyBlockClient_InrE(1) [OF mapErr_InrE [OF client]] unfolding id append_assoc by blast
qed

text \<open>Both in the scenario of the examples; the cluster calls the snapshot \<open>v-1\<close>.\<close>

lemma demo_snapshot_calls [demo_simps]:
  "node_CreateSnapshot demo_env demo_node l n (demo_state (id_reply # rs) tr) = (Ret (Inr ''c1:v-1''), demo_state rs
    (tr @ [EvHttp (sbcli_request (nd_Client demo_node) ''POST'' ''/snapshot''
      (Some (JObj [(''lvol_id'', JStr l), (''snapshot_name'', JStr n)])))]))"
  "node_GetVolumeSize demo_env demo_node l (demo_state (volume_reply # rs) tr) = (Ret (Inr (Itoa 1073741824)),
    demo_state rs (tr @ [EvHttp (sbcli_request (nd_Client demo_node) ''GET'' (''/lvol/'' @ l) None)]))"
  "node_DeleteSnapshot demo_env demo_node i (demo_state (done_reply # rs) tr) = (Ret (Inr ()),
    demo_state rs (tr @ [EvHttp (sbcli_request (nd_Client demo_node) ''DELETE'' (''/snapshot/'' @ i) None)]))"
  "node_CloneSnapshot demo_env demo_node i n sz p (demo_state (id_reply # rs) tr) = (Ret (Inr ''v-1''),
    demo_state rs (tr @ [EvHttp (sbcli_request (nd_Client demo_node) ''POST'' ''/snapshot/clone'' (Some (clone_params i n p)))]))"
  by (simp_all add: node_CreateSnapshot_def snapshot_def node_GetVolumeSize_def getVolume_def node_DeleteSnapshot_def
      deleteSnapshot_def node_CloneSnapshot_def cloneSnapshot_def as_string_def prog_simps demo_simps)

lemma demo_clock [demo_simps]: "service [] (clock_now demo_env) (demo_state rs tr) = (Ret 0, demo_state rs tr)"
  by (simp add: service_def demo_env_def demo_state_def)

lemma demo_ids [demo_simps]:
  "getSPDKVol ''c1:p1:v-1'' = Inr \<lparr>sv_clusterID = ''c1'', sv_lvolID = ''v-1'', sv_poolName = ''p1''\<rparr>"
  "getSnapshot ''c1:v-1'' = Inr \<lparr>ss_clusterID = ''c1'', ss_snapshotID = ''v-1''\<rparr>"
  by code_simp+

theorem CreateSnapshot_success_witness:
  "\<exists>sn w'. cs_CreateSnapshot demo_env ''c1:p1:v-1'' ''s1'' (demo_state [id_reply, volume_reply] []) = (Ret (Inr sn), w') \<and>
    sn_SnapshotId sn = ''c1:v-1'' \<and> sn_SourceVolumeId sn = ''v-1'' \<and> length (w_trace w') = 5"
proof -
  have "ParseInt (Itoa 1073741824) = Inr 1073741824" by (rule dec64.dec_enc) (simp add: int64_range_def)
  then have "\<exists>sn w'. cs_CreateSnapshot demo_env ''c1:p1:v-1'' ''s1'' (demo_state [id_reply, volume_reply] []) = (Ret (Inr sn), w')"
    by (simp add: cs_CreateSnapshot_def withLock_locked prog_simps demo_simps)
  then obtain sn w' where run: "cs_CreateSnapshot demo_env ''c1:p1:v-1'' ''s1'' (demo_state [id_reply, volume_reply] []) =
      (Ret (Inr sn), w')" by blast
  from CreateSnapshot_success [OF run] run show ?thesis by (auto simp: demo_simps snapshot_id_def)
qed

theorem DeleteSnapshot_request_witness:
  "\<exists>w' node. cs_DeleteSnapshot demo_env ''c1:v-1'' (demo_state [done_reply] []) = (Ret (Inr ()), w') \<and>
    EvHttp (sbcli_request (nd_Client node) ''DELETE'' ''/snapshot/c1:v-1'' None) \<in> set (w_trace w') \<and>
    rc_ClusterID (nd_Client (node :: NodeNVMf)) = ''c1''"
proof -
  have "\<exists>w'. cs_DeleteSnapshot demo_env ''c1:v-1'' (demo_state [done_reply] []) = (Ret (Inr ()), w')"
    by (simp add: cs_DeleteSnapshot_def withLock_locked prog_simps demo_simps)
  then obtain w' where run: "cs_DeleteSnapshot demo_env ''c1:v-1'' (demo_state [done_reply] []) = (Ret (Inr ()), w')" by blast
  from DeleteSnapshot_request [OF run] run show ?thesis by (auto simp: demo_simps)
qed

section \<open>Clones\<close>

text \<open>
  C10. A volume made from a snapshot is made by one request to the snapshot's cluster, with the snapshot's own identifier, the
  name of the volume and the claim's name. The size is not in the request: the volume is as large as the snapshot, while
  the answer states the requested capacity.
\<close>

theorem clone_requested:
  assumes "cs_createVolume E req sb w = (Ret (Inr vol), w')"
    and "cvr_ContentSource req = Some (SourceSnapshot (Some snapshotID))"
    and "node_GetVolume E sb (cvr_Name req) (get0 (cvr_Parameters req) ''pool_name'') w = (Ret (Inl e), w1)"
  shows "\<exists>s (node :: NodeNVMf) uuid. getSnapshot snapshotID = Inr s \<and> rc_ClusterID (nd_Client node) = ss_clusterID s \<and>
    vol_VolumeId vol = volume_id \<lparr>sv_clusterID = ss_clusterID s, sv_lvolID = uuid,
      sv_poolName = get0 (cvr_Parameters req) ''pool_name''\<rparr> \<and>
    vol_CapacityBytes vol = wrap64 (ToMiB (requestedSize req) * 1024 * 1024) \<and>
    w_trace w' = w_trace w1 @ [EvFile (OpRead (secret_file E)),
      EvHttp (sbcli_request (nd_Client node) ''POST'' ''/snapshot/clone''
        (Some (clone_params (ss_snapshotID s) (cvr_Name req) (get0 (cvr_Parameters req) CSIStorageNameKey))))]"
proof -
  have "getExistingVolume E (cvr_Name req) (poolName req) sb (newVolume req) w = (Ret (Inl e), w1)"
    using assms(3) by (simp add: getExistingVolume_def poolName_def prog_simps)
  then obtain s node uuid w2 where s: "getSnapshot snapshotID = Inr s"
    and client: "mapErr toInternal (NewsimplyBlockClient E (ss_clusterID s)) w1 = (Ret (Inr node), w2)"
    and clone: "node_CloneSnapshot E node (ss_snapshotID s) (cvr_Name req) (Itoa (ToMiB (requestedSize req)) @ ''M'')
      (get0 (cvr_Parameters req) CSIStorageNameKey) w2 = (Ret (Inr uuid), w')"
    and vol: "vol = with_id node (poolName req) uuid (newVolume req)"
    using assms(1) unfolding cs_createVolume_def Let_def poolName_def [symmetric] assms(2)
    by (auto simp: prog_simps ret_def handleVolumeContentSource_def handleSnapshotSource_def Let_def
        elim!: bindE_InrE bindE_ret_InrE split: option.splits)
  note node = mapErr_InrE [OF client]
  have "w_trace w' = w_trace w1 @ [EvFile (OpRead (secret_file E)),
      EvHttp (sbcli_request (nd_Client node) ''POST'' ''/snapshot/clone''
        (Some (clone_params (ss_snapshotID s) (cvr_Name req) (get0 (cvr_Parameters req) CSIStorageNameKey))))]"
    using client_trace [OF node] node_CloneSnapshot_Inr [OF clone] by simp
  moreover have "vol_CapacityBytes vol = wrap64 (ToMiB (requestedSize req) * 1024 * 1024)"
    by (simp add: vol newVolume_def)
  moreover have "vol_VolumeId vol = volume_id \<lparr>sv_clusterID = ss_clusterID s, sv_lvolID = uuid,
      sv_poolName = get0 (cvr_Parameters req) ''pool_name''\<rparr>"
    using NewsimplyBlockClient_InrE(1) [OF node] by (simp add: vol poolName_def)
  ultimately show ?thesis using s NewsimplyBlockClient_InrE(1) [OF node] by blast
qed

definition clone_request :: CreateVolumeRequest where
  "clone_request = demo_create\<lparr>cvr_ContentSource := Some (SourceSnapshot (Some ''c1:v-1''))\<rparr>"

theorem clone_requested_witness:
  "\<exists>vol w' (node :: NodeNVMf). cs_createVolume demo_env clone_request demo_node (demo_state [missing_reply, id_reply] []) = (Ret (Inr vol), w') \<and>
    vol_VolumeId vol = ''c1:p1:v-1'' \<and>
    EvHttp (sbcli_request (nd_Client node) ''POST'' ''/snapshot/clone'' (Some (clone_params ''v-1'' ''pvc-1'' []))) \<in> set (w_trace w')"
proof -
  have req: "cvr_Name clone_request = ''pvc-1''" "cvr_ContentSource clone_request = Some (SourceSnapshot (Some ''c1:v-1''))"
    "get0 (cvr_Parameters clone_request) ''pool_name'' = ''p1''" "get0 (cvr_Parameters clone_request) CSIStorageNameKey = []"
    by (simp_all add: clone_request_def demo_create_def get0_def CSIStorageNameKey_def)
  have "\<exists>vol w'. cs_createVolume demo_env clone_request demo_node (demo_state [missing_reply, id_reply] []) = (Ret (Inr vol), w') \<and>
      vol_VolumeId vol = ''c1:p1:v-1''"
    by (simp add: cs_createVolume_def getExistingVolume_def Let_def handleVolumeContentSource_def handleSnapshotSource_def
        prog_simps demo_simps req volume_id_def)
  then obtain vol w' where run: "cs_createVolume demo_env clone_request demo_node (demo_state [missing_reply, id_reply] []) =
      (Ret (Inr vol), w')" and id: "vol_VolumeId vol = ''c1:p1:v-1''" by blast
  obtain e w1 where old: "node_GetVolume demo_env demo_node (cvr_Name clone_request) (get0 (cvr_Parameters clone_request) ''pool_name'')
      (demo_state [missing_reply, id_reply] []) = (Ret (Inl e), w1)"
    by (simp add: req demo_simps)
  from clone_requested [OF run req(2) old] obtain s and node :: NodeNVMf where s: "getSnapshot ''c1:v-1'' = Inr s"
    and tr: "w_trace w' = w_trace w1 @ [EvFile (OpRead (secret_file demo_env)),
      EvHttp (sbcli_request (nd_Client node) ''POST'' ''/snapshot/clone'' (Some (clone_params (ss_snapshotID s)
        (cvr_Name clone_request) (get0 (cvr_Parameters clone_request) CSIStorageNameKey))))]"
    by blast
  have "ss_snapshotID s = ''v-1''" using s by (auto simp: demo_simps)
  then have "EvHttp (sbcli_request (nd_Client node) ''POST'' ''/snapshot/clone'' (Some (clone_params ''v-1'' ''pvc-1'' []))) \<in> set (w_trace w')"
    unfolding tr req by simp
  then show ?thesis using run id by blast
qed

section \<open>The cluster of a clone\<close>

text \<open>
  C14. The connections in the answer always come from the cluster of the storage class: creation asks that cluster about the
  identifier of the new volume, also when the volume is a clone and its identifier names the cluster of the snapshot.
\<close>

theorem context_from_class_cluster:
  assumes "cs_CreateVolume E req w = (Ret (Inr vol), w')"
  shows "\<exists>v (node :: NodeNVMf) info w1 w2. getSPDKVol (vol_VolumeId vol) = Inr v \<and>
    map_of (cvr_Parameters req) ''cluster_id'' = Some (rc_ClusterID (nd_Client node)) \<and>
    node_VolumeInfo E node (sv_lvolID v) w1 = (Ret (Inr info), w2) \<and>
    vol_VolumeContext vol = volumeContext (cvr_Parameters req) info"
proof -
  obtain cid sb created info w1 w2 w3 where cid: "map_of (cvr_Parameters req) ''cluster_id'' = Some cid"
    and client: "NewsimplyBlockClient E cid (locked (cvr_Name req) w) = (Ret (Inr sb), w1)"
    and created: "cs_createVolume E req sb w1 = (Ret (Inr created), w2)"
    and publish: "cs_publishVolume E (vol_VolumeId created) sb w2 = (Ret (Inr info), w3)"
    and vol: "vol = created\<lparr>vol_VolumeContext := volumeContext (vol_VolumeContext created) info\<rparr>"
    using assms by (rule cs_CreateVolume_InrE)
  obtain v w4 where v: "getSPDKVol (vol_VolumeId created) = Inr v"
    and asked: "node_VolumeInfo E sb (sv_lvolID v) w4 = (Ret (Inr info), w3)"
    using publish unfolding cs_publishVolume_def
    by (auto simp: ret_def throw_def elim!: bindE_InrE bindP_RetE split: sum.splits)
  have "vol_VolumeContext created = cvr_Parameters req"
    using cs_createVolume_Inr [OF created] by (auto simp: newVolume_def)
  then show ?thesis using v asked cid NewsimplyBlockClient_InrE(1) [OF client] by (auto simp: vol)
qed

text \<open>A storage class of the cluster \<open>c1\<close> and a snapshot of the cluster \<open>c2\<close>; both are in the secret file.\<close>

definition two_secrets where
  "two_secrets = [([''etc''], FDir), ([''etc'', ''spdkcsi-secret''], FDir),
     ([''etc'', ''spdkcsi-secret'', ''secret.json''], FFile (jprint (JObj [(''clusters'', JArr [JObj
       [(''cluster_id'', JStr ''c1''), (''cluster_endpoint'', JStr ''http://sb''),
        (''cluster_secret'', JStr ''s3'')], JObj
       [(''cluster_id'', JStr ''c2''), (''cluster_endpoint'', JStr ''http://sc''),
        (''cluster_secret'', JStr ''s4'')]])])))]"

definition foreign_clone :: CreateVolumeRequest where
  "foreign_clone = demo_create\<lparr>cvr_ContentSource := Some (SourceSnapshot (Some ''c2:v-1''))\<rparr>"

definition clone_state where
  "clone_state = \<lparr>w_ext = map Inr [missing_reply, id_reply, volume_reply, connect_reply], w_fs = two_secrets, w_trace = []\<rparr>"

theorem context_from_class_cluster_witness:
  "\<exists>vol w' v (node :: NodeNVMf) info w1 w2.
    cs_CreateVolume demo_env foreign_clone clone_state = (Ret (Inr vol), w') \<and>
    vol_VolumeId vol = ''c2:p1:v-1'' \<and> getSPDKVol (vol_VolumeId vol) = Inr v \<and> sv_clusterID v = ''c2'' \<and>
    rc_ClusterID (nd_Client node) = ''c1'' \<and>
    node_VolumeInfo demo_env node (sv_lvolID v) w1 = (Ret (Inr info), w2)"
proof -
  have "(case cs_CreateVolume demo_env foreign_clone clone_state of (Ret (Inr vol), w') \<Rightarrow> vol_VolumeId vol = ''c2:p1:v-1'' | _ \<Rightarrow> False)"
    by code_simp
  then obtain vol w' where run: "cs_CreateVolume demo_env foreign_clone clone_state = (Ret (Inr vol), w')"
    and id: "vol_VolumeId vol = ''c2:p1:v-1''" by (auto split: prod.splits outcome.splits sum.splits)
  from context_from_class_cluster [OF run] obtain v and node :: NodeNVMf and info w1 w2
    where v: "getSPDKVol (vol_VolumeId vol) = Inr v"
      and node: "map_of (cvr_Parameters foreign_clone) ''cluster_id'' = Some (rc_ClusterID (nd_Client node))"
      and asked: "node_VolumeInfo demo_env node (sv_lvolID v) w1 = (Ret (Inr info), w2)" by blast
  have "rc_ClusterID (nd_Client node) = ''c1''" using node by (simp add: foreign_clone_def demo_create_def)
  moreover have "getSPDKVol ''c2:p1:v-1'' = Inr \<lparr>sv_clusterID = ''c2'', sv_lvolID = ''v-1'', sv_poolName = ''p1''\<rparr>" by code_simp
  then have "sv_clusterID v = ''c2''" using v by (auto simp: id)
  ultimately show ?thesis using run id v asked by blast
qed

end
