(* ===== verification/CommandLine.thy ===== *)
theory CommandLine
  imports Driver
begin

text \<open>
  The command line, \<open>init\<close> and \<open>main\<close> of \<^verbatim>\<open>cmd/main.go\<close>, with what they use of Go's package \<open>flag\<close>: the registered
  flags, the reading of one argument, and \<open>Parse\<close>, which ends the process when an argument is wrong. The flags that
  \<open>klog.InitFlags\<close> adds are a parameter: which names they have, which are boolean, and which values they take.
\<close>

section \<open>Flags\<close>

record klog_flags =
  kl_flag :: "string \<Rightarrow> bool option"
  kl_accepts :: "string \<Rightarrow> string \<Rightarrow> bool"

text \<open>\<open>strconv.ParseBool\<close>.\<close>

definition ParseBool :: "string \<Rightarrow> bool option" where
  "ParseBool s =
     (if s \<in> set [''1'', ''t'', ''T'', ''true'', ''TRUE'', ''True''] then Some True
      else if s \<in> set [''0'', ''f'', ''F'', ''false'', ''FALSE'', ''False''] then Some False else None)"

text \<open>A flag stores its value in a field of the configuration, or is one of klog's, boolean or not.\<close>

datatype flag_var =
    StringVar "string \<Rightarrow> Config \<Rightarrow> Config"
  | BoolVar "bool \<Rightarrow> Config \<Rightarrow> Config"
  | KlogVar bool

definition main_flags :: "(string \<times> flag_var) list" where
  "main_flags =
     [(''drivername'', StringVar (\<lambda>v. cf_DriverName_update (\<lambda>_. v))),
      (''endpoint'', StringVar (\<lambda>v. cf_Endpoint_update (\<lambda>_. v))),
      (''nodeid'', StringVar (\<lambda>v. cf_NodeID_update (\<lambda>_. v))),
      (''controller'', BoolVar (\<lambda>b. cf_IsControllerServer_update (\<lambda>_. b))),
      (''node'', BoolVar (\<lambda>b. cf_IsNodeServer_update (\<lambda>_. b)))]"

definition formal :: "klog_flags \<Rightarrow> string \<Rightarrow> flag_var option" where
  "formal K name = (case map_of main_flags name of
     Some f \<Rightarrow> Some f | None \<Rightarrow> map_option KlogVar (kl_flag K name))"

fun IsBoolFlag :: "flag_var \<Rightarrow> bool" where
  "IsBoolFlag (StringVar upd) = False"
| "IsBoolFlag (BoolVar upd) = True"
| "IsBoolFlag (KlogVar b) = b"

text \<open>\<open>Set\<close> of a flag; \<open>None\<close> is an error.\<close>

fun flag_set :: "klog_flags \<Rightarrow> flag_var \<Rightarrow> string \<Rightarrow> string \<Rightarrow> Config \<Rightarrow> Config option" where
  "flag_set K (StringVar upd) name v conf = Some (upd v conf)"
| "flag_set K (BoolVar upd) name v conf = map_option (\<lambda>b. upd b conf) (ParseBool v)"
| "flag_set K (KlogVar b) name v conf = (if kl_accepts K name v then Some conf else None)"

section \<open>Parsing\<close>

text \<open>What \<open>parseOne\<close> sees in one argument: no flag, the end of the flags, or a name with or without a value.\<close>

datatype flag_arg = NotFlag | EndOfFlags | BadSyntax | FlagArg string "string option"

definition name_value :: "string \<Rightarrow> string \<times> string option" where
  "name_value name =
     (let key = takeWhile (\<lambda>c. c \<noteq> CHR ''='') name
      in (key, if length key = length name then None else Some (drop (Suc (length key)) name)))"

definition split_arg :: "string \<Rightarrow> flag_arg" where
  "split_arg s =
     (if length s < 2 \<or> hd s \<noteq> CHR ''-'' then NotFlag
      else if s = ''--'' then EndOfFlags
      else
        let name = (if s ! 1 = CHR ''-'' then drop 2 s else drop 1 s)
        in if name = [] \<or> hd name = CHR ''-'' \<or> hd name = CHR ''='' then BadSyntax
           else (case name_value name of (key, v) \<Rightarrow> FlagArg key v))"

text \<open>
  \<open>Parse\<close> with the policy \<open>ExitOnError\<close>: a status to exit with (0 when help was asked for), or the configuration. A
  flag that is not boolean and has no value takes the next argument.
\<close>

fun parseArgs :: "klog_flags \<Rightarrow> string list \<Rightarrow> Config \<Rightarrow> int + Config" where
  "parseArgs K [] conf = Inr conf"
| "parseArgs K (s # args) conf =
     (case split_arg s of
        NotFlag \<Rightarrow> Inr conf
      | EndOfFlags \<Rightarrow> Inr conf
      | BadSyntax \<Rightarrow> Inl 2
      | FlagArg name value \<Rightarrow>
          (case formal K name of
             None \<Rightarrow> Inl (if name = ''help'' \<or> name = ''h'' then 0 else 2)
           | Some f \<Rightarrow>
               (case (if IsBoolFlag f \<and> value = None then Some ''true'' else value) of
                  Some v \<Rightarrow> (case flag_set K f name v conf of None \<Rightarrow> Inl 2 | Some conf' \<Rightarrow> parseArgs K args conf')
                | None \<Rightarrow>
                    (case args of
                       [] \<Rightarrow> Inl 2
                     | v # args' \<Rightarrow>
                         (case flag_set K f name v conf of None \<Rightarrow> Inl 2 | Some conf' \<Rightarrow> parseArgs K args' conf')))))"

text \<open>\<open>init\<close>: the defaults, \<open>flag.Set("logtostderr", "true")\<close> or the end of the process, and \<open>flag.Parse\<close>.\<close>

definition init_conf :: "klog_flags \<Rightarrow> string list \<Rightarrow> int + Config" where
  "init_conf K args =
     (case formal K ''logtostderr'' of
        None \<Rightarrow> Inl 1
      | Some f \<Rightarrow> (case flag_set K f ''logtostderr'' ''true'' default_conf of
          None \<Rightarrow> Inl 1
        | Some conf \<Rightarrow> parseArgs K args conf))"

text \<open>The process up to the point where the driver listens: its exit status, or what \<open>Run\<close> listens on.\<close>

definition run_main ::
  "'x env \<Rightarrow> klog_flags \<Rightarrow> string list \<Rightarrow> ('x, int + (string \<times> string \<times> csi_service list) \<times> servers) io" where
  "run_main E K args =
     (case init_conf K args of
        Inl code \<Rightarrow> ret (Inl code)
      | Inr conf \<Rightarrow> bindP (Run E conf) (\<lambda>r. ret (Inr r)))"

section \<open>The language of command lines\<close>

text \<open>
  What a user may write, flag by flag: one or two dashes, the value behind an equals sign or, for a flag that is not
  boolean, as the next argument; a boolean flag alone is set to true. The relation says which configuration the flags
  make of another one.
\<close>

definition flag_name :: "string \<Rightarrow> bool" where
  "flag_name name \<longleftrightarrow> name \<noteq> [] \<and> hd name \<noteq> CHR ''-'' \<and> CHR ''='' \<notin> set name"

text \<open>
  The flags and what they mean, as the table of the usage message has them: which have a value of their own
  (\<open>Some False\<close>) and which are boolean, and what a value makes of a configuration.
\<close>

definition flag_kind :: "klog_flags \<Rightarrow> string \<Rightarrow> bool option" where
  "flag_kind K name =
     (if name \<in> {''drivername'', ''endpoint'', ''nodeid''} then Some False
      else if name \<in> {''controller'', ''node''} then Some True
      else kl_flag K name)"

definition flag_meaning :: "klog_flags \<Rightarrow> string \<Rightarrow> string \<Rightarrow> Config \<Rightarrow> Config option" where
  "flag_meaning K name v conf =
     (if name = ''drivername'' then Some (conf\<lparr>cf_DriverName := v\<rparr>)
      else if name = ''endpoint'' then Some (conf\<lparr>cf_Endpoint := v\<rparr>)
      else if name = ''nodeid'' then Some (conf\<lparr>cf_NodeID := v\<rparr>)
      else if name = ''controller'' then map_option (\<lambda>b. conf\<lparr>cf_IsControllerServer := b\<rparr>) (ParseBool v)
      else if name = ''node'' then map_option (\<lambda>b. conf\<lparr>cf_IsNodeServer := b\<rparr>) (ParseBool v)
      else if kl_accepts K name v then Some conf else None)"

inductive flags_make :: "klog_flags \<Rightarrow> Config \<Rightarrow> string list \<Rightarrow> Config \<Rightarrow> bool" for K where
  none: "flags_make K conf [] conf"
| equals: "flag_name name \<Longrightarrow> flag_kind K name = Some b \<Longrightarrow> flag_meaning K name v conf = Some conf1 \<Longrightarrow> dashes \<in> {''-'', ''--''} \<Longrightarrow>
     flags_make K conf1 args conf2 \<Longrightarrow> flags_make K conf ((dashes @ name @ ''='' @ v) # args) conf2"
| alone: "flag_name name \<Longrightarrow> flag_kind K name = Some True \<Longrightarrow> flag_meaning K name ''true'' conf = Some conf1 \<Longrightarrow>
     dashes \<in> {''-'', ''--''} \<Longrightarrow> flags_make K conf1 args conf2 \<Longrightarrow> flags_make K conf ((dashes @ name) # args) conf2"
| following: "flag_name name \<Longrightarrow> flag_kind K name = Some False \<Longrightarrow> flag_meaning K name v conf = Some conf1 \<Longrightarrow>
     dashes \<in> {''-'', ''--''} \<Longrightarrow> flags_make K conf1 args conf2 \<Longrightarrow> flags_make K conf ((dashes @ name) # v # args) conf2"

text \<open>Where the flags end: no argument is left, or one that is no flag, or two dashes.\<close>

fun flags_end :: "string list \<Rightarrow> bool" where
  "flags_end [] \<longleftrightarrow> True"
| "flags_end (s # args) \<longleftrightarrow> split_arg s \<in> {NotFlag, EndOfFlags}"

lemma takeWhile_split: "s = takeWhile (\<lambda>c. c \<noteq> a) s \<or> (\<exists>t. s = takeWhile (\<lambda>c. c \<noteq> a) s @ a # t)"
  by (induction s) auto

lemma takeWhile_at:
  "a \<notin> set k \<Longrightarrow> takeWhile (\<lambda>c. c \<noteq> a) k = k" "a \<notin> set k \<Longrightarrow> takeWhile (\<lambda>c. c \<noteq> a) (k @ a # t) = k"
  by (induction k) auto

lemma name_value_iff:
  "name_value s = (key, v) \<longleftrightarrow> CHR ''='' \<notin> set key \<and> s = key @ (case v of None \<Rightarrow> [] | Some t \<Rightarrow> CHR ''='' # t)"
proof -
  let ?key = "takeWhile (\<lambda>c. c \<noteq> CHR ''='') s"
  have split: "s = ?key \<or> (\<exists>t. s = ?key @ CHR ''='' # t)" by (rule takeWhile_split)
  have key: "CHR ''='' \<notin> set ?key" by (auto dest: set_takeWhileD)
  show ?thesis
  proof
    assume "name_value s = (key, v)"
    then have kv: "key = ?key" "v = (if length ?key = length s then None else Some (drop (Suc (length ?key)) s))"
      unfolding name_value_def Let_def prod.inject by (elim conjE; simp)+
    from split show "CHR ''='' \<notin> set key \<and> s = key @ (case v of None \<Rightarrow> [] | Some t \<Rightarrow> CHR ''='' # t)"
    proof
      assume "s = ?key"
      then show ?thesis using kv key by simp
    next
      assume "\<exists>t. s = ?key @ CHR ''='' # t"
      then obtain t where t: "s = ?key @ CHR ''='' # t" ..
      have "length k \<noteq> length s \<and> drop (Suc (length k)) s = t" if "s = k @ CHR ''='' # t" for k
        by (simp add: that)
      from this [OF t]
      have "v = Some t" using kv(2) by simp
      then show ?thesis using kv(1) key t by simp
    qed
  next
    assume "CHR ''='' \<notin> set key \<and> s = key @ (case v of None \<Rightarrow> [] | Some t \<Rightarrow> CHR ''='' # t)"
    then show "name_value s = (key, v)"
      by (cases v) (simp_all add: name_value_def Let_def takeWhile_at)
  qed
qed

lemma split_arg_flag:
  assumes "flag_name name" and "dashes \<in> {''-'', ''--''}"
  shows "split_arg (dashes @ name) = FlagArg name None"
    and "split_arg (dashes @ name @ ''='' @ v) = FlagArg name (Some v)"
proof -
  obtain c cs where name: "name = c # cs" "c \<noteq> CHR ''-''" "c \<noteq> CHR ''=''"
    using assms(1) by (cases name) (auto simp: flag_name_def)
  have parts: "split_arg (dashes @ c # t) = (case name_value (c # t) of (key, v) \<Rightarrow> FlagArg key v)" for t
    using assms(2) name(2,3) unfolding split_arg_def Let_def by (elim insertE emptyE) simp_all
  have "name_value name = (name, None)" "name_value (name @ ''='' @ v) = (name, Some v)"
    using assms(1) by (simp_all add: name_value_iff flag_name_def)
  then show "split_arg (dashes @ name) = FlagArg name None"
    "split_arg (dashes @ name @ ''='' @ v) = FlagArg name (Some v)"
    using parts [of cs] parts [of "cs @ ''='' @ v"] name(1) by simp_all
qed

lemma split_arg_FlagArg:
  assumes "split_arg s = FlagArg name v"
  obtains dashes where "flag_name name" "dashes \<in> {''-'', ''--''}"
    "s = dashes @ name @ (case v of None \<Rightarrow> [] | Some t \<Rightarrow> ''='' @ t)"
proof -
  define rest where "rest = (if s ! 1 = CHR ''-'' then drop 2 s else drop 1 s)"
  have s: "\<not> length s < 2" "hd s = CHR ''-''" and rest: "rest \<noteq> []" "hd rest \<noteq> CHR ''-''" "hd rest \<noteq> CHR ''=''"
    and parts: "name_value rest = (name, v)"
    using assms unfolding split_arg_def Let_def rest_def [symmetric] by (simp_all split: if_splits prod.splits)
  obtain d e ds where "s = d # e # ds" using s(1) by (cases s rule: remdups_adj.cases) simp_all
  then obtain dashes where dashes: "dashes \<in> {''-'', ''--''}" "s = dashes @ rest"
    using s(2) that by (cases "e = CHR ''-''") (auto simp: rest_def)
  have "CHR ''='' \<notin> set name" and eq: "rest = name @ (case v of None \<Rightarrow> [] | Some t \<Rightarrow> CHR ''='' # t)"
    using parts by (simp_all add: name_value_iff)
  then have "flag_name name" using rest by (cases name) (auto simp: flag_name_def split: option.splits)
  then show thesis using that dashes eq by (cases v) simp_all
qed

text \<open>The table of the code is that of the message.\<close>

lemma formal_kind: "flag_kind K name = map_option IsBoolFlag (formal K name)"
  by (cases "kl_flag K name") (simp_all add: flag_kind_def formal_def main_flags_def)

lemma formal_meaning: "formal K name = Some f \<Longrightarrow> flag_set K f name v conf = flag_meaning K name v conf"
  by (cases "kl_flag K name") (auto simp: flag_meaning_def formal_def main_flags_def split: if_splits)

lemma kind_formal:
  assumes "flag_kind K name = Some b"
  obtains f where "formal K name = Some f" "IsBoolFlag f = b" "\<And>v conf. flag_set K f name v conf = flag_meaning K name v conf"
  using assms formal_meaning by (auto simp: formal_kind)

lemma parse_flags_make:
  "flags_make K conf args conf2 \<Longrightarrow> flags_end rest \<Longrightarrow> parseArgs K (args @ rest) conf = Inr conf2"
proof (induction rule: flags_make.induct)
  case (none conf)
  then show ?case by (cases rest) auto
qed (erule kind_formal, simp add: split_arg_flag [simplified])+

lemma parse_accepts:
  "parseArgs K args conf = Inr conf2 \<Longrightarrow> \<exists>pre rest. args = pre @ rest \<and> flags_make K conf pre conf2 \<and> flags_end rest"
proof (induction args arbitrary: conf rule: length_induct)
  case (1 all)
  note IH = 1(1) [rule_format] and run = 1(2)
  have stop: ?case if "flags_end all" "conf2 = conf"
    using that flags_make.none by (intro exI [of _ "[]"] exI [of _ all]) simp
  have step: ?case if all: "all = front @ args" "front \<noteq> []" and runs: "parseArgs K args conf1 = Inr conf2"
    and make: "\<And>pre. flags_make K conf1 pre conf2 \<Longrightarrow> flags_make K conf (front @ pre) conf2" for front args conf1
  proof -
    obtain pre rest where "args = pre @ rest" "flags_make K conf1 pre conf2" "flags_end rest"
      using IH [OF _ runs] all by auto
    then show ?thesis using all(1) make by (intro exI [of _ "front @ pre"] exI [of _ rest]) simp
  qed
  show ?case
  proof (cases all)
    case Nil
    then show ?thesis using run by (intro stop) simp_all
  next
    case (Cons s args)
    show ?thesis
    proof (cases "split_arg s")
      case (FlagArg name v)
      obtain dashes where name: "flag_name name" "dashes \<in> {''-'', ''--''}"
        and s: "s = dashes @ name @ (case v of None \<Rightarrow> [] | Some t \<Rightarrow> ''='' @ t)"
        using FlagArg by (rule split_arg_FlagArg)
      obtain f where f: "formal K name = Some f" using run Cons FlagArg by (cases "formal K name") auto
      note make = flags_make.intros(2-4) [OF name(1)] and mean = formal_meaning [OF f]
      have kind: "flag_kind K name = Some (IsBoolFlag f)" by (simp add: formal_kind f)
      show ?thesis
      proof (cases v)
        case (Some t)
        then obtain conf1 where conf1: "flag_meaning K name t conf = Some conf1" "parseArgs K args conf1 = Inr conf2"
          using run Cons FlagArg f mean by (auto split: option.splits)
        show ?thesis using make(1) [OF kind conf1(1) name(2)] conf1(2) s Some Cons by (intro step [of "[s]"]) auto
      next
        case None
        show ?thesis
        proof (cases "IsBoolFlag f")
          case True
          then obtain conf1 where conf1: "flag_meaning K name ''true'' conf = Some conf1" "parseArgs K args conf1 = Inr conf2"
            using run Cons FlagArg f None mean by (auto split: option.splits)
          show ?thesis using make(2) [OF _ conf1(1) name(2)] kind True conf1(2) s None Cons by (intro step [of "[s]"]) auto
        next
          case False
          then obtain t args' conf1 where conf1: "args = t # args'" "flag_meaning K name t conf = Some conf1"
              "parseArgs K args' conf1 = Inr conf2"
            using run Cons FlagArg f None mean by (auto split: option.splits list.splits)
          show ?thesis using make(3) [OF _ conf1(2) name(2)] kind False conf1(1,3) s None Cons by (intro step [of "[s, t]"]) auto
        qed
      qed
    next
      case BadSyntax
      then show ?thesis using run Cons by simp
    next
      case NotFlag
      then show ?thesis using run Cons by (intro stop) simp_all
    next
      case EndOfFlags
      then show ?thesis using run Cons by (intro stop) simp_all
    qed
  qed
qed

lemma parse_iff:
  "parseArgs K args conf = Inr conf' \<longleftrightarrow> (\<exists>pre rest. args = pre @ rest \<and> flags_make K conf pre conf' \<and> flags_end rest)"
  using parse_accepts parse_flags_make by blast

text \<open>
  C36. What \<open>init\<close> makes of the command line is exactly what the usage message says. It gives a configuration if and only if
  klog has the flag \<open>logtostderr\<close> and the arguments up to the first one that is no flag (or two dashes) are correctly
  written flags of the table \<open>flag_kind\<close>; and the configuration is what these flags, one after the other, make of the
  defaults: the driver's name and version, the socket in \<open>tmp\<close>, no node, and neither service. Everything else ends the
  process.
\<close>

theorem command_line_parsed:
  "init_conf K args = Inr conf \<longleftrightarrow>
     kl_flag K ''logtostderr'' \<noteq> None \<and> kl_accepts K ''logtostderr'' ''true'' \<and>
     (\<exists>pre rest. args = pre @ rest \<and> flags_end rest \<and>
       flags_make K \<lparr>cf_DriverName = ''csi.simplyblock.io'', cf_DriverVersion = ''0.1.0'',
         cf_Endpoint = ''unix://tmp/spdkcsi.sock'', cf_NodeID = [], cf_IsControllerServer = False, cf_IsNodeServer = False\<rparr> pre conf)"
proof -
  have "formal K ''logtostderr'' = map_option KlogVar (kl_flag K ''logtostderr'')" by (simp add: formal_def main_flags_def)
  then have "init_conf K args = Inr conf \<longleftrightarrow> kl_flag K ''logtostderr'' \<noteq> None \<and> kl_accepts K ''logtostderr'' ''true'' \<and>
      parseArgs K args default_conf = Inr conf"
    by (cases "kl_flag K ''logtostderr''") (simp_all add: init_conf_def split: if_splits)
  then show ?thesis unfolding parse_iff default_conf_def by blast
qed

section \<open>Every configuration can be asked for\<close>

definition args_of :: "Config \<Rightarrow> string list" where
  "args_of conf = [''-drivername='' @ cf_DriverName conf, ''-endpoint'', cf_Endpoint conf, ''--nodeid='' @ cf_NodeID conf]
     @ (if cf_IsControllerServer conf then [''--controller''] else [''-controller=false''])
     @ (if cf_IsNodeServer conf then [''-node''] else [])"

text \<open>
  C37. Every configuration can be asked for on the command line, whatever the names, the endpoint and the node contain:
  the arguments of a configuration, in any of the written forms, are parsed into that configuration, wherever they
  end.
\<close>

theorem configuration_round_trip:
  assumes "cf_DriverVersion conf = ''0.1.0''" and "flags_end rest"
  shows "parseArgs K (args_of conf @ rest) default_conf = Inr conf"
proof -
  have names: "flag_name ''drivername''" "flag_name ''endpoint''" "flag_name ''nodeid''" "flag_name ''controller''" "flag_name ''node''"
    by code_simp+
  have kinds: "flag_kind K ''drivername'' = Some False" "flag_kind K ''endpoint'' = Some False" "flag_kind K ''nodeid'' = Some False"
    "flag_kind K ''controller'' = Some True" "flag_kind K ''node'' = Some True"
    by (simp_all add: flag_kind_def)
  have bools: "ParseBool ''true'' = Some True" "ParseBool ''false'' = Some False" by code_simp+
  have means: "flag_meaning K ''drivername'' v c = Some (c\<lparr>cf_DriverName := v\<rparr>)"
    "flag_meaning K ''endpoint'' v c = Some (c\<lparr>cf_Endpoint := v\<rparr>)" "flag_meaning K ''nodeid'' v c = Some (c\<lparr>cf_NodeID := v\<rparr>)"
    "flag_meaning K ''controller'' ''true'' c = Some (c\<lparr>cf_IsControllerServer := True\<rparr>)"
    "flag_meaning K ''controller'' ''false'' c = Some (c\<lparr>cf_IsControllerServer := False\<rparr>)"
    "flag_meaning K ''node'' ''true'' c = Some (c\<lparr>cf_IsNodeServer := True\<rparr>)" for v c
    by (simp_all add: flag_meaning_def bools)
  let ?c1 = "default_conf\<lparr>cf_DriverName := cf_DriverName conf\<rparr>"
  let ?c2 = "?c1\<lparr>cf_Endpoint := cf_Endpoint conf\<rparr>"
  let ?c3 = "?c2\<lparr>cf_NodeID := cf_NodeID conf\<rparr>"
  let ?c4 = "?c3\<lparr>cf_IsControllerServer := cf_IsControllerServer conf\<rparr>"
  have last: "flags_make K ?c4 (if cf_IsNodeServer conf then [''-node''] else []) conf"
  proof -
    have "conf = (if cf_IsNodeServer conf then ?c4\<lparr>cf_IsNodeServer := True\<rparr> else ?c4)"
      using assms(1) by (cases conf) (simp add: default_conf_def)
    then show ?thesis
      using flags_make.alone [OF names(5) kinds(5), where dashes = "''-''" and conf = ?c4 and args = "[]" and ?conf2.0 = conf]
        flags_make.none [of K conf] means(6) by (auto split: if_splits)
  qed
  have controller: "flags_make K ?c3 ((if cf_IsControllerServer conf then [''--controller''] else [''-controller=false'']) @ args) c"
    if "flags_make K ?c4 args c" for args c
    using flags_make.alone [OF names(4) kinds(4), where dashes = "''--''" and conf = ?c3 and args = args and ?conf2.0 = c and ?conf1.0 = ?c4]
      flags_make.equals [OF names(4) kinds(4), where dashes = "''-''" and conf = ?c3 and args = args and ?conf2.0 = c and ?conf1.0 = ?c4 and v = "''false''"]
      that means(4,5) by auto
  have node: "flags_make K ?c2 ((''--nodeid='' @ cf_NodeID conf) # args) c" if "flags_make K ?c3 args c" for args c
    using flags_make.equals [OF names(3) kinds(3) _ _ that, where dashes = "''--''" and conf = ?c2 and v = "cf_NodeID conf"] means(3) by simp
  have endpoint: "flags_make K ?c1 (''-endpoint'' # cf_Endpoint conf # args) c" if "flags_make K ?c2 args c" for args c
    using flags_make.following [OF names(2) kinds(2) _ _ that, where dashes = "''-''" and conf = ?c1 and v = "cf_Endpoint conf"] means(2) by simp
  have driver: "flags_make K default_conf ((''-drivername='' @ cf_DriverName conf) # args) c" if "flags_make K ?c1 args c" for args c
    using flags_make.equals [OF names(1) kinds(1) _ _ that, where dashes = "''-''" and conf = default_conf and v = "cf_DriverName conf"] means(1) by simp
  have "flags_make K default_conf (args_of conf) conf"
    using driver [OF endpoint [OF node [OF controller [OF last]]]] by (simp add: args_of_def)
  then show ?thesis using assms(2) parse_flags_make by blast
qed

definition demo_klog :: klog_flags where
  "demo_klog = \<lparr>kl_flag = (\<lambda>name. if name = ''logtostderr'' then Some True else if name = ''v'' then Some False else None),
     kl_accepts = (\<lambda>name v. v \<noteq> [])\<rparr>"

theorem configuration_round_trip_witness:
  "parseArgs demo_klog (args_of (default_conf\<lparr>cf_NodeID := ''--node=x'', cf_IsNodeServer := True\<rparr>) @ [''--'', ''-v'']) default_conf =
    Inr (default_conf\<lparr>cf_NodeID := ''--node=x'', cf_IsNodeServer := True\<rparr>)"
proof (rule configuration_round_trip)
  show "cf_DriverVersion (default_conf\<lparr>cf_NodeID := ''--node=x'', cf_IsNodeServer := True\<rparr>) = ''0.1.0''"
    by (simp add: default_conf_def)
  show "flags_end [''--'', ''-v'']" by code_simp
qed

end
