(* ===== verification/DeviceNames.thy ===== *)
theory DeviceNames
  imports Initiator
begin

text \<open>
  The search for local block devices of \<^verbatim>\<open>pkg/util/util.go\<close>: an NVMe device by the content of its uuid file in
  sysfs, a virtio device by its PCI address, and the next free PCI function. The text patterns are translated
  into functions on strings.
\<close>

section \<open>Device names\<close>

text \<open>
  The two regular expressions. \<open>nvme(\d+)n(\d+)|nvme(\d+)c(\d+)n(\d+)\<close>: the digits before a letter are all the
  digits there, so at one position at most one alternative matches, and the last digits are taken greedily.
\<close>

definition some_digits :: "string \<Rightarrow> (string \<times> string) option" where
  "some_digits s = (let d = takeWhile is_digit s in if d = [] then None else Some (d, dropWhile is_digit s))"

text \<open>A letter and the digits behind it: the text matched and the rest.\<close>

definition letter_digits :: "char \<Rightarrow> string \<Rightarrow> (string \<times> string) option" where
  "letter_digits c s =
     (case s of
        [] \<Rightarrow> None
      | x # t \<Rightarrow> if x \<noteq> c then None else map_option (\<lambda>(d, r). (c # d, r)) (some_digits t))"

definition match_sys_name :: "string \<Rightarrow> string option" where
  "match_sys_name s =
     (if \<not> HasPrefix s ''nvme'' then None
      else (case some_digits (drop 4 s) of
        None \<Rightarrow> None
      | Some (d, r) \<Rightarrow>
          (case letter_digits (CHR ''n'') r of
             Some (n, _) \<Rightarrow> Some (''nvme'' @ d @ n)
           | None \<Rightarrow>
               (case letter_digits (CHR ''c'') r of
                  None \<Rightarrow> None
                | Some (c, r') \<Rightarrow> map_option (\<lambda>(n, _). ''nvme'' @ d @ c @ n) (letter_digits (CHR ''n'') r')))))"

text \<open>\<open>FindString\<close>: the first position with a match, the empty string if there is none.\<close>

fun FindSysName :: "string \<Rightarrow> string" where
  "FindSysName [] = []"
| "FindSysName (x # s) = (case match_sys_name (x # s) of Some m \<Rightarrow> m | None \<Rightarrow> FindSysName s)"

text \<open>\<open>ReplaceAllString(s, "")\<close> for the pattern \<open>c(\d+)\<close>.\<close>

function RemoveControllers :: "string \<Rightarrow> string" where
  "RemoveControllers [] = []"
| "RemoveControllers (x # s) =
     (if x = CHR ''c'' \<and> takeWhile is_digit s \<noteq> [] then RemoveControllers (dropWhile is_digit s)
      else x # RemoveControllers s)"
  by pat_completeness auto
termination
  by (relation "measure length") (auto simp: le_imp_less_Suc length_dropWhile_le)

definition getNvmeDeviceName :: "'x env \<Rightarrow> string \<Rightarrow> string \<Rightarrow> ('x, string) ioE" where
  "getNvmeDeviceName E uuidFilePath nvmeModel =
     bindE (service [] (sys_read E uuidFilePath)) (\<lambda>uuidContent.
       if TrimSpace uuidContent = nvmeModel
       then ret (Inr (RemoveControllers (FindSysName uuidFilePath)))
       else throw (ErrorString ''does not match''))"

section \<open>The search\<close>

text \<open>
  The map \<open>ignorePaths\<close> of the paths already visited is the caller's, or nil (\<open>None\<close>); the loop returns it
  with the result.
\<close>

fun uuidLoop :: "'x env \<Rightarrow> string \<Rightarrow> string list \<Rightarrow> string list option \<Rightarrow> ('x, (goerr + string) \<times> string list option) io" where
  "uuidLoop E nvmeModel [] ignorePaths = ret (Inl ErrNotExist, ignorePaths)"
| "uuidLoop E nvmeModel (filePath # filePaths) ignorePaths =
     (if (case ignorePaths of None \<Rightarrow> False | Some visited \<Rightarrow> filePath \<in> set visited)
      then uuidLoop E nvmeModel filePaths ignorePaths
      else let ignorePaths' = map_option (\<lambda>visited. filePath # visited) ignorePaths in
        bindP (getNvmeDeviceName E filePath nvmeModel) (\<lambda>r.
          let deviceName = (case r of Inl err \<Rightarrow> [] | Inr name \<Rightarrow> name) in
          if deviceName \<noteq> [] then ret (Inr deviceName, ignorePaths')
          else uuidLoop E nvmeModel filePaths ignorePaths'))"

definition CheckIfNvmeDeviceExists ::
  "'x env \<Rightarrow> string \<Rightarrow> string list option \<Rightarrow> ('x, (goerr + string) \<times> string list option) io" where
  "CheckIfNvmeDeviceExists E nvmeModel ignorePaths =
     bindP (Glob E ''/sys/bus/pci/devices/*/nvme/nvme*/nvme*n*/uuid'') (\<lambda>r. case r of
         Inl err \<Rightarrow> ret (Inl (Wrapped ''obtain uuid files error: '' err), ignorePaths)
       | Inr uuidFilePaths \<Rightarrow> uuidLoop E nvmeModel uuidFilePaths ignorePaths)"

fun detectLoop :: "'x env \<Rightarrow> string \<Rightarrow> string list option \<Rightarrow> nat \<Rightarrow> ('x, string) ioE" where
  "detectLoop E nvmeModel visited 0 = throw ErrDeadlineExceeded"
| "detectLoop E nvmeModel visited (Suc n) =
     bindP (CheckIfNvmeDeviceExists E nvmeModel visited) (\<lambda>(r, visited'). case r of
         Inr deviceName \<Rightarrow> ret (Inr deviceName)
       | Inl err \<Rightarrow> bindP (Sleep E 1) (\<lambda>_. detectLoop E nvmeModel visited' n))"

definition detectNvmeDeviceName :: "'x env \<Rightarrow> string \<Rightarrow> ('x, string) ioE" where
  "detectNvmeDeviceName E nvmeModel = detectLoop E nvmeModel (Some []) 20"

definition GetNvmeDeviceName :: "'x env \<Rightarrow> string \<Rightarrow> string \<Rightarrow> ('x, string) ioE" where
  "GetNvmeDeviceName E nvmeModel bdf =
     bindE (if bdf \<noteq> []
            then bindE (mapErr (Wrapped ''failed find device at : '')
                   (waitForDeviceReady E (''/sys/bus/pci/devices/'' @ bdf @ ''/nvme/nvme*/nvme*n*/uuid'') 20))
                 (\<lambda>uuidFilePath. mapErr (Wrapped ''failed to find nvme device name: '')
                    (getNvmeDeviceName E uuidFilePath nvmeModel))
            else mapErr (Wrapped ''failed to find nvme device name: '') (detectNvmeDeviceName E nvmeModel))
       (\<lambda>deviceName. waitForDeviceReady E (''/dev/'' @ deviceName) 20)"

definition GetVirtioBlkDeviceName :: "'x env \<Rightarrow> string \<Rightarrow> bool \<Rightarrow> ('x, string) ioE" where
  "GetVirtioBlkDeviceName E bdf wait =
     (let sysBusGlob = ''/sys/bus/pci/devices/'' @ bdf @ ''/virtio*/block'' in
      bindE (waitForDeviceReady E sysBusGlob (if wait then 20 else 0)) (\<lambda>deviceParentDirPath.
      bindE (service [] (sys_readdir E deviceParentDirPath)) (\<lambda>entries. case entries of
          [(name, _)] \<Rightarrow> waitForDeviceReady E (''/dev/'' @ name) 20
        | _ \<Rightarrow> throw (ErrorString (''the deviceParentDirPath ('' @ sysBusGlob @ '') has wrong content (['' @
                 Join '' '' (map snd entries) @ ''])'')))))"

section \<open>The next free PCI function\<close>

text \<open>\<open>%02x\<close> of an unsigned number.\<close>

fun hex_text :: "nat \<Rightarrow> string" where
  "hex_text n = (if n < 16 then [hex_digit n] else hex_text (n div 16) @ [hex_digit (n mod 16)])"

declare hex_text.simps [simp del]

definition hex02 :: "nat \<Rightarrow> string" where
  "hex02 n = (if n < 16 then CHR ''0'' # hex_text n else hex_text n)"

definition pf_glob :: "32 word \<Rightarrow> nat \<Rightarrow> string" where
  "pf_glob pf vf = ''/sys/bus/pci/devices/0000:'' @ hex02 (unat pf) @ '':'' @ hex02 vf @ ''.*''"

text \<open>The inner loop over the functions of one bridge, with \<open>n\<close> of its 32 rounds left.\<close>

fun vfLoop :: "'x env \<Rightarrow> 32 word \<Rightarrow> nat \<Rightarrow> ('x, nat option) ioE" where
  "vfLoop E pf 0 = ret (Inr None)"
| "vfLoop E pf (Suc n) =
     bindE (mapErr (Wrapped ''sysfs failure: '') (Glob E (pf_glob pf (31 - n)))) (\<lambda>devicePaths.
       if devicePaths = [] then ret (Inr (Some (31 - n))) else vfLoop E pf n)"

text \<open>
  The outer loop: its counter is a \<open>uint32\<close> that wraps around, so the loop is given by the number of rounds
  it may take; \<open>None\<close> says that they were not enough.
\<close>

fun pfLoop :: "'x env \<Rightarrow> 32 word \<Rightarrow> nat \<Rightarrow> 32 word \<Rightarrow> ('x, (32 word \<times> nat) option) ioE" where
  "pfLoop E bridges 0 pf = ret (Inr None)"
| "pfLoop E bridges (Suc fuel) pf =
     (if \<not> pf \<le> bridges then throw ErrNotExist
      else bindE (vfLoop E pf 32) (\<lambda>found. case found of
          Some vf \<Rightarrow> ret (Inr (Some (pf - 1, vf)))
        | None \<Rightarrow> pfLoop E bridges fuel (pf + 1)))"

definition GetAvailablePhysicalFunction :: "'x env \<Rightarrow> int \<Rightarrow> nat \<Rightarrow> ('x, (32 word \<times> nat) option) ioE" where
  "GetAvailablePhysicalFunction E kvmBridgeCount fuel = pfLoop E (word_of_int kvmBridgeCount) fuel 1"

section \<open>Properties\<close>

lemma takeWhile_digits:
  "list_all is_digit d \<Longrightarrow> \<not> is_digit x \<Longrightarrow> takeWhile is_digit (d @ x # s) = d"
  "list_all is_digit d \<Longrightarrow> \<not> is_digit x \<Longrightarrow> dropWhile is_digit (d @ x # s) = x # s"
  by (simp_all add: takeWhile_append2 dropWhile_append2 list_all_iff)

lemma some_digits_append:
  "d \<noteq> [] \<Longrightarrow> list_all is_digit d \<Longrightarrow> \<not> is_digit x \<Longrightarrow> some_digits (d @ x # s) = Some (d, x # s)"
  by (simp add: some_digits_def Let_def takeWhile_digits)

lemma not_digit_letters:
  "\<not> is_digit (CHR ''c'')" "\<not> is_digit (CHR ''n'')" "\<not> is_digit (CHR ''/'')" "\<not> is_digit (CHR ''e'')"
  "\<not> is_digit (CHR ''v'')" "\<not> is_digit (CHR ''m'')"
  by code_simp+

lemma match_sys_name_start: "match_sys_name s \<noteq> None \<Longrightarrow> s \<noteq> [] \<and> hd s = CHR ''n''"
  by (cases s) (auto simp: match_sys_name_def HasPrefix_def split: if_splits)

lemma FindSysName_skip: "CHR ''n'' \<notin> set p \<Longrightarrow> FindSysName (p @ s) = FindSysName s"
proof (induction p)
  case (Cons x p)
  have "match_sys_name (x # p @ s) = None"
  proof (rule ccontr)
    assume "match_sys_name (x # p @ s) \<noteq> None"
    then have "x = CHR ''n''" using match_sys_name_start by fastforce
    then show False using Cons.prems by simp
  qed
  then show ?case using Cons by simp
qed simp

lemma FindSysName_miss:
  "match_sys_name (CHR ''n'' # s) = None \<Longrightarrow> FindSysName (CHR ''n'' # s) = FindSysName s"
  by simp

lemma RemoveControllers_plain: "CHR ''c'' \<notin> set p \<Longrightarrow> RemoveControllers (p @ s) = p @ RemoveControllers s"
  by (induction p) auto

lemma digits_no_letter: "list_all is_digit d \<Longrightarrow> \<not> is_digit c \<Longrightarrow> c \<notin> set d"
  by (auto simp: list_all_iff)

text \<open>
  A multipath namespace \<open>nvmeAcBnD\<close> of controller \<open>nvmeA\<close> is looked up as the block device \<open>nvmeAnD\<close>: the
  directory names on the way to its uuid file are not mistaken for the device, and only the controller part is
  cut out.
\<close>

theorem multipath_device_name:
  assumes "CHR ''n'' \<notin> set bdf"
    and "a \<noteq> []" and "list_all is_digit a" and "b \<noteq> []" and "list_all is_digit b" and "d \<noteq> []" and "list_all is_digit d"
    and "sys_read E (''/sys/bus/pci/devices/'' @ bdf @ ''/nvme/nvme'' @ a @ ''/nvme'' @ a @ ''c'' @ b @ ''n'' @ d @ ''/uuid'')
      (w_ext w) = (Inr content, x)"
    and "TrimSpace content = nvmeModel"
  shows "fst (getNvmeDeviceName E (''/sys/bus/pci/devices/'' @ bdf @ ''/nvme/nvme'' @ a @ ''/nvme'' @ a @ ''c'' @ b @
      ''n'' @ d @ ''/uuid'') nvmeModel w) = Ret (Inr (''nvme'' @ a @ ''n'' @ d))"
proof -
  let ?name = "''nvme'' @ a @ ''c'' @ b @ ''n'' @ d @ ''/uuid''"
  let ?m = "''nvme'' @ a @ ''c'' @ b @ ''n'' @ d"
  note dig = some_digits_append not_digit_letters assms(2-7)
  have n: "CHR ''n'' \<notin> set a" and c: "CHR ''c'' \<notin> set a" "CHR ''c'' \<notin> set d"
    using assms(3,7) not_digit_letters digits_no_letter by blast+
  have "match_sys_name ?name = Some ?m"
    using dig by (simp add: match_sys_name_def HasPrefix_def letter_digits_def)
  then have name: "FindSysName ?name = ?m" by simp
  have mid: "FindSysName (''nvme'' @ a @ ''/'' @ ?name) = FindSysName ?name"
  proof -
    have "match_sys_name (''nvme'' @ a @ ''/'' @ ?name) = None"
      using dig by (simp add: match_sys_name_def letter_digits_def)
    then have "FindSysName (''nvme'' @ a @ ''/'' @ ?name) = FindSysName ((''vme'' @ a @ ''/'') @ ?name)" by simp
    also have "\<dots> = FindSysName ?name" using n by (intro FindSysName_skip) simp
    finally show ?thesis .
  qed
  have dir: "FindSysName (''nvme/'' @ s) = FindSysName s" for s
  proof -
    have "match_sys_name (''nvme/'' @ s) = None"
      using not_digit_letters by (simp add: match_sys_name_def some_digits_def)
    then have "FindSysName (''nvme/'' @ s) = FindSysName (''vme/'' @ s)" by simp
    also have "\<dots> = FindSysName s" by (rule FindSysName_skip) simp
    finally show ?thesis .
  qed
  have "FindSysName ((''/sys/bus/pci/devices/'' @ bdf @ ''/'') @ s) = FindSysName s" for s
    using assms(1) by (intro FindSysName_skip) simp
  then have "FindSysName (''/sys/bus/pci/devices/'' @ bdf @ ''/nvme/nvme'' @ a @ ''/'' @ ?name) = ?m"
    using name mid dir [of "''nvme'' @ a @ ''/'' @ ?name"] by simp
  moreover have "RemoveControllers ?m = ''nvme'' @ a @ ''n'' @ d"
    using c dig RemoveControllers_plain [of "''nvme'' @ a"] RemoveControllers_plain [of "''n'' @ d" "[]"]
    by (simp add: takeWhile_digits)
  ultimately show ?thesis using assms(8,9) by (simp add: getNvmeDeviceName_def service_def prog_simps)
qed

theorem multipath_device_name_witness:
  "fst (getNvmeDeviceName (demo_env\<lparr>sys_read := \<lambda>_ x. (Inr ''b9e3 '', x)\<rparr>)
     (''/sys/bus/pci/devices/'' @ ''0000:01:00.0'' @ ''/nvme/nvme'' @ ''0'' @ ''/nvme'' @ ''0'' @ ''c'' @ ''12'' @ ''n'' @ ''1'' @
       ''/uuid'') ''b9e3'' (demo_world [] [])) = Ret (Inr (''nvme'' @ ''0'' @ ''n'' @ ''1''))"
proof -
  have "TrimSpace ''b9e3 '' = ''b9e3''" "list_all is_digit ''0''" "list_all is_digit ''12''" "list_all is_digit ''1''"
    by code_simp+
  then show ?thesis
    by (intro multipath_device_name [where content = "''b9e3 ''"]) (simp_all add: demo_env_def demo_world_def)
qed

lemma Glob_run: "Glob E pat w = (Ret (fst (dev_glob E pat (w_ext w))), w\<lparr>w_ext := snd (dev_glob E pat (w_ext w))\<rparr>)"
  by (simp add: Glob_def service_def split: prod.splits)

lemma vfLoop_outcome:
  assumes "n \<le> 32"
  shows "\<exists>r w'. vfLoop E pf n w = (Ret r, w') \<and> (\<forall>vf. r = Inr (Some vf) \<longrightarrow> vf < 32)"
  using assms
proof (induction n arbitrary: w)
  case (Suc n)
  obtain r w' where g: "Glob E (pf_glob pf (31 - n)) w = (Ret r, w')" by (simp add: Glob_run)
  show ?case
  proof (cases r)
    case (Inl e)
    then show ?thesis using g by (simp add: prog_simps)
  next
    case (Inr paths)
    then have "vfLoop E pf (Suc n) w = (if paths = [] then ret (Inr (Some (31 - n))) else vfLoop E pf n) w'"
      using g by (simp add: prog_simps)
    then show ?thesis using Suc.IH [of w'] Suc.prems by (auto simp: ret_def)
  qed
qed (simp add: ret_def)

lemma pfLoop_outcome:
  assumes "unat bridges + 1 < fuel + unat pf" and "0 < unat pf" and "unat bridges < 2 ^ 32 - 1"
    and "unat pf \<le> unat bridges + 1"
  shows "\<exists>r w'. pfLoop E bridges fuel pf w = (Ret r, w') \<and> r \<noteq> Inr None \<and>
    (\<forall>q vf. r = Inr (Some (q, vf)) \<longrightarrow> unat q < unat bridges \<and> vf < 32)"
  using assms
proof (induction fuel arbitrary: pf w)
  case (Suc fuel)
  show ?case
  proof (cases "pf \<le> bridges")
    case False
    then show ?thesis by (simp add: throw_run)
  next
    case True
    obtain r w' where v: "vfLoop E pf 32 w = (Ret r, w')" and vf: "\<And>vf. r = Inr (Some vf) \<Longrightarrow> vf < 32"
      using vfLoop_outcome [of 32 E pf w] by auto
    have le: "unat pf \<le> unat bridges" using True by (simp add: word_le_nat_alt)
    have next_pf: "unat (pf + 1) = unat pf + 1"
      using le Suc.prems(3) by (subst unat_plus_simple [THEN iffD1]) (auto simp: word_le_nat_alt unat_word_ariths)
    have prev: "unat (pf - 1) = unat pf - 1"
      using Suc.prems(2) by (simp add: unat_sub_if')
    consider (err) e where "r = Inl e" | (none) "r = Inr None" | (some) q where "r = Inr (Some q)"
      by (cases r) (auto split: option.splits)
    then show ?thesis
    proof cases
      case none
      then show ?thesis using True v Suc.IH [of "pf + 1" w'] Suc.prems le next_pf by (simp add: prog_simps)
    qed (use True v vf le prev Suc.prems(2) in \<open>auto simp: prog_simps\<close>)
  qed
qed simp

text \<open>
  The reference: the functions of all bridges in their order, the first one that is not occupied (or that sysfs cannot be
  asked about), and the answer for it. Bridges are counted from 1 in sysfs and from 0 in the answer.
\<close>

definition pci_slots :: "nat \<Rightarrow> nat \<Rightarrow> (nat \<times> nat) list" where
  "pci_slots first bridges = concat (map (\<lambda>pf. map (Pair pf) [0..<32]) [first..<Suc bridges])"

definition slot_path :: "nat \<times> nat \<Rightarrow> string" where
  "slot_path = (\<lambda>(pf, vf). ''/sys/bus/pci/devices/0000:'' @ hex02 pf @ '':'' @ hex02 vf @ ''.*'')"

definition occupied :: "goerr + string list \<Rightarrow> bool" where
  "occupied listed \<longleftrightarrow> (case listed of Inl err \<Rightarrow> False | Inr devicePaths \<Rightarrow> devicePaths \<noteq> [])"

definition slot_answer :: "(string \<Rightarrow> goerr + string list) \<Rightarrow> (nat \<times> nat) option \<Rightarrow> goerr + (32 word \<times> nat) option" where
  "slot_answer listing found = (case found of
     None \<Rightarrow> Inl ErrNotExist
   | Some (pf, vf) \<Rightarrow> (case listing (slot_path (pf, vf)) of
       Inl err \<Rightarrow> Inl (Wrapped ''sysfs failure: '' err)
     | Inr _ \<Rightarrow> Inr (Some (of_nat (pf - 1), vf))))"

definition first_free :: "(string \<Rightarrow> goerr + string list) \<Rightarrow> nat \<Rightarrow> goerr + (32 word \<times> nat) option" where
  "first_free listing bridges =
     slot_answer listing (find (\<lambda>slot. \<not> occupied (listing (slot_path slot))) (pci_slots 1 bridges))"

lemma find_map: "find P (map f xs) = map_option f (find (\<lambda>x. P (f x)) xs)"
  by (induction xs) simp_all

lemma find_append: "find P (xs @ ys) = (case find P xs of None \<Rightarrow> find P ys | Some x \<Rightarrow> Some x)"
  by (induction xs) simp_all

lemma pci_slots_step: "pf \<le> bridges \<Longrightarrow> pci_slots pf bridges = map (Pair pf) [0..<32] @ pci_slots (Suc pf) bridges"
  by (simp add: pci_slots_def upt_conv_Cons del: upt_Suc)

lemma vfLoop_stable:
  assumes "\<And>pat x. dev_glob E pat x = (listing pat, x)" and "n \<le> 32"
  shows "vfLoop E pf n w = (Ret (case find (\<lambda>vf. \<not> occupied (listing (pf_glob pf vf))) [32 - n..<32] of
      None \<Rightarrow> Inr None
    | Some vf \<Rightarrow> (case listing (pf_glob pf vf) of Inl err \<Rightarrow> Inl (Wrapped ''sysfs failure: '' err) | Inr _ \<Rightarrow> Inr (Some vf))), w)"
  using assms(2)
proof (induction n)
  case (Suc n)
  have "Suc (31 - n) = 32 - n" using Suc.prems by simp
  then have upt: "[31 - n..<32] = (31 - n) # [32 - n..<32]"
    using upt_conv_Cons [of "31 - n" 32] by simp
  have g: "Glob E (pf_glob pf (31 - n)) w = (Ret (listing (pf_glob pf (31 - n))), w)"
    by (simp add: Glob_run assms(1))
  show ?case
  proof (cases "listing (pf_glob pf (31 - n))")
    case (Inl err)
    then show ?thesis using g by (simp add: upt occupied_def prog_simps)
  next
    case (Inr paths)
    then have "vfLoop E pf (Suc n) w = (if paths = [] then ret (Inr (Some (31 - n))) else vfLoop E pf n) w"
      using g by (simp add: prog_simps)
    then show ?thesis using Suc Inr by (simp add: upt occupied_def ret_def)
  qed
qed (simp add: ret_def)

lemma pfLoop_stable:
  assumes "\<And>pat x. dev_glob E pat x = (listing pat, x)"
    and "unat bridges + 1 < fuel + unat pf" and "0 < unat pf" and "unat bridges < 2 ^ 32 - 1"
    and "unat pf \<le> unat bridges + 1"
  shows "pfLoop E bridges fuel pf w = (Ret (slot_answer listing
    (find (\<lambda>slot. \<not> occupied (listing (slot_path slot))) (pci_slots (unat pf) (unat bridges)))), w)"
  using assms(2-5)
proof (induction fuel arbitrary: pf)
  case (Suc fuel)
  show ?case
  proof (cases "pf \<le> bridges")
    case False
    then have "pci_slots (unat pf) (unat bridges) = []" by (simp add: pci_slots_def word_le_nat_alt)
    then show ?thesis using False by (simp add: throw_run slot_answer_def)
  next
    case True
    have le: "unat pf \<le> unat bridges" using True by (simp add: word_le_nat_alt)
    have next_pf: "unat (pf + 1) = Suc (unat pf)"
      using le Suc.prems(3) by (subst unat_plus_simple [THEN iffD1]) (auto simp: word_le_nat_alt unat_word_ariths)
    have path: "pf_glob pf vf = slot_path (unat pf, vf)" for vf by (simp add: pf_glob_def slot_path_def)
    have prev: "pf - 1 = of_nat (unat pf - 1)" using Suc.prems(2) by (simp add: of_nat_diff)
    note v = vfLoop_stable [OF assms(1) order_refl, of pf w, simplified, unfolded path]
    let ?found = "find (\<lambda>vf. \<not> occupied (listing (slot_path (unat pf, vf)))) [0..<32]"
    show ?thesis
    proof (cases ?found)
      case None
      then have "pfLoop E bridges (Suc fuel) pf w = pfLoop E bridges fuel (pf + 1) w" using True v by (simp add: prog_simps)
      then show ?thesis using None Suc.IH [of "pf + 1"] Suc.prems le next_pf
        by (simp add: pci_slots_step find_append find_map)
    next
      case (Some vf)
      then show ?thesis using True v le prev
        by (cases "listing (slot_path (unat pf, vf))")
          (simp_all add: pci_slots_step find_append find_map slot_answer_def prog_simps)
    qed
  qed
qed simp

text \<open>
  C40. For a number of bridges that is not negative and not the last \<open>uint32\<close>, the search for a free PCI function ends after
  at most as many rounds as there are bridges, and one more that notices it, whatever sysfs answers. It never panics, and
  a function it finds is on one of the bridges (counted from 0) and one of 32. If sysfs does not change meanwhile, the
  search is the reference: it finds the first function of the first bridge that has a free one, fails if sysfs cannot be
  read before that, and says so if all are occupied.
\<close>

theorem physical_function_found:
  assumes "0 \<le> kvmBridgeCount" and "kvmBridgeCount < 2 ^ 32 - 1" and "nat kvmBridgeCount < fuel"
  shows "(case fst (GetAvailablePhysicalFunction E kvmBridgeCount fuel w) of
      Ret (Inr (Some (pf, vf))) \<Rightarrow> unat pf < nat kvmBridgeCount \<and> vf < 32
    | Ret (Inr None) \<Rightarrow> False
    | Ret (Inl err) \<Rightarrow> True
    | Panicked p \<Rightarrow> False) \<and>
    ((\<forall>pat x. dev_glob E pat x = (listing pat, x)) \<longrightarrow>
      GetAvailablePhysicalFunction E kvmBridgeCount fuel w = (Ret (first_free listing (nat kvmBridgeCount)), w))"
proof
  have b: "unat (word_of_int kvmBridgeCount :: 32 word) = nat kvmBridgeCount"
    using assms(1,2) by (simp add: unat_eq_nat_uint uint_word_of_int take_bit_int_eq_self)
  have max: "nat kvmBridgeCount < 4294967295" using assms(1,2) by simp
  then have "\<exists>r w'. GetAvailablePhysicalFunction E kvmBridgeCount fuel w = (Ret r, w') \<and> r \<noteq> Inr None \<and>
      (\<forall>q vf. r = Inr (Some (q, vf)) \<longrightarrow> unat q < nat kvmBridgeCount \<and> vf < 32)"
    using pfLoop_outcome [of "word_of_int kvmBridgeCount" fuel 1 E w] assms(3)
    by (simp add: GetAvailablePhysicalFunction_def b)
  then obtain r w' where "GetAvailablePhysicalFunction E kvmBridgeCount fuel w = (Ret r, w')" "r \<noteq> Inr None"
    "\<And>q vf. r = Inr (Some (q, vf)) \<Longrightarrow> unat q < nat kvmBridgeCount \<and> vf < 32" by blast
  then show "case fst (GetAvailablePhysicalFunction E kvmBridgeCount fuel w) of
      Ret (Inr (Some (pf, vf))) \<Rightarrow> unat pf < nat kvmBridgeCount \<and> vf < 32
    | Ret (Inr None) \<Rightarrow> False | Ret (Inl err) \<Rightarrow> True | Panicked p \<Rightarrow> False"
    by (auto split: sum.splits option.splits)
  show "(\<forall>pat x. dev_glob E pat x = (listing pat, x)) \<longrightarrow>
      GetAvailablePhysicalFunction E kvmBridgeCount fuel w = (Ret (first_free listing (nat kvmBridgeCount)), w)"
    using pfLoop_stable [of E listing "word_of_int kvmBridgeCount" fuel 1 w] assms(3) max
    by (simp add: GetAvailablePhysicalFunction_def b first_free_def)
qed

text \<open>A machine whose first bridge has one device.\<close>

definition one_device :: "string \<Rightarrow> goerr + string list" where
  "one_device pat = (if pat = ''/sys/bus/pci/devices/0000:01:00.*'' then Inr [''0000:01:00.0''] else Inr [])"

theorem physical_function_found_witness:
  "GetAvailablePhysicalFunction (demo_env\<lparr>dev_glob := \<lambda>pat x. (one_device pat, x)\<rparr>) 2 3 (demo_world [] []) =
     (Ret (Inr (Some (0, 1))), demo_world [] [])"
proof -
  have "first_free one_device (nat 2) = Inr (Some (0, 1))" by code_simp
  moreover have "GetAvailablePhysicalFunction (demo_env\<lparr>dev_glob := \<lambda>pat x. (one_device pat, x)\<rparr>) 2 3 (demo_world [] []) =
      (Ret (first_free one_device (nat 2)), demo_world [] [])"
    using physical_function_found [of 2 3 "demo_env\<lparr>dev_glob := \<lambda>pat x. (one_device pat, x)\<rparr>" "demo_world [] []" one_device]
    by simp
  ultimately show ?thesis by simp
qed

end
