(* ===== verification/MonitorFacts.thy ===== *)
theory MonitorFacts
  imports InitiatorPaths Demo
begin

text \<open>
  The connection monitor: which path it reconnects, how often it tries, and what it makes of commands that fail.
\<close>

section \<open>Reconnecting a path\<close>

text \<open>The nodes before the first one that is to be connected are passed over without a call.\<close>

lemma nodesLoop_skip:
  assumes "length (ni_NodeID nodeInfo) > 1"
    and "\<And>n. n \<in> set skipped \<Longrightarrow> \<not> shouldConnectToNode (pa_ANAState p) (ni_NodeID nodeInfo) n"
  shows "nodesLoop E sbc lvolID p nodeInfo (skipped @ nodes) = nodesLoop E sbc lvolID p nodeInfo nodes"
  using assms(2) by (induction skipped) (use assms(1) in \<open>simp_all add: Let_def\<close>)

text \<open>
  C27. For a volume with several paths of which one is left, the monitor goes to the first node of the list that serves the
  lost path: if the remaining path is the optimized one, another node than the primary, and the second connection
  of the cluster's answer; otherwise the primary node, and the first. It connects there once, and that decides.
\<close>

theorem monitor_restores_lost_path:
  assumes "length (ni_NodeID nodeInfo) > 1"
    and "\<And>n. n \<in> set skipped \<Longrightarrow> (pa_ANAState p = ''optimized'') = (n = ni_NodeID nodeInfo)"
    and "(pa_ANAState p = ''optimized'') = (nodeID \<noteq> ni_NodeID nodeInfo)"
    and "isNodeOnline E sbc nodeID w = (Ret True, w1)"
    and "fetchLvolConnection E sbc lvolID w1 = (Ret (Inr (Some c0 # Some c1 # cs)), w2)"
  shows "nodesLoop E sbc lvolID p nodeInfo (skipped @ nodeID # nodes) w =
    connectViaNVMe E (if pa_ANAState p = ''optimized'' then c1 else c0) 60 w2"
proof -
  have "nodesLoop E sbc lvolID p nodeInfo (skipped @ nodeID # nodes) = nodesLoop E sbc lvolID p nodeInfo (nodeID # nodes)"
    using assms(2) by (intro nodesLoop_skip [OF assms(1)]) (auto simp: shouldConnectToNode_def)
  moreover have "shouldConnectToNode (pa_ANAState p) (ni_NodeID nodeInfo) nodeID"
    using assms(3) by (auto simp: shouldConnectToNode_def)
  ultimately show ?thesis using assms(4,5) by (simp add: Let_def prog_simps)
qed

definition online_reply :: http_response where
  "online_reply = \<lparr>rs_status = 200, rs_body = jprint (JObj [(''results'', JArr [JObj [(''status'', JStr ''online'')]])])\<rparr>"

definition two_connections_reply :: http_response where
  "two_connections_reply = \<lparr>rs_status = 200, rs_body = jprint (JObj [(''results'', JArr
     [JObj [(''nqn'', JStr ''q''), (''ip'', JStr ''10.0.0.1''), (''port'', jint 4420)],
      JObj [(''nqn'', JStr ''q''), (''ip'', JStr ''10.0.0.2''), (''port'', jint 4421)]])])\<rparr>"

definition path_info :: "string \<Rightarrow> int \<Rightarrow> LvolConnectResp" where
  "path_info ip port = zero_LvolConnectResp\<lparr>lc_Nqn := ''q'', lc_IP := ip, lc_Port := port\<rparr>"

lemma monitor_replies:
  "\<exists>doc. sbcli_result (\<lambda>_. None) ''GET'' online_reply = Inr doc \<and>
    redecode (dec_slice dec_NodeInfo zero_NodeInfo) [] doc = Inr [zero_NodeInfo\<lparr>ni_Status := ''online''\<rparr>]"
  "\<exists>doc. sbcli_result (\<lambda>_. None) ''GET'' two_connections_reply = Inr doc \<and>
    redecode (dec_slice (dec_ptr dec_LvolConnectResp zero_LvolConnectResp) None) [] doc =
      Inr [Some (path_info ''10.0.0.1'' 4420), Some (path_info ''10.0.0.2'' 4421)]"
proof -
  let ?on = "sbcli_result (\<lambda>_. None) ''GET'' online_reply"
  have "(case ?on of Inr doc \<Rightarrow> redecode (dec_slice dec_NodeInfo zero_NodeInfo) [] doc =
      Inr [zero_NodeInfo\<lparr>ni_Status := ''online''\<rparr>] | _ \<Rightarrow> False)" by code_simp
  then show "\<exists>doc. ?on = Inr doc \<and> redecode (dec_slice dec_NodeInfo zero_NodeInfo) [] doc =
      Inr [zero_NodeInfo\<lparr>ni_Status := ''online''\<rparr>]" by (cases ?on) auto
  let ?two = "sbcli_result (\<lambda>_. None) ''GET'' two_connections_reply"
  have "(case ?two of Inr doc \<Rightarrow> redecode (dec_slice (dec_ptr dec_LvolConnectResp zero_LvolConnectResp) None) [] doc =
      Inr [Some (path_info ''10.0.0.1'' 4420), Some (path_info ''10.0.0.2'' 4421)] | _ \<Rightarrow> False)" by code_simp
  then show "\<exists>doc. ?two = Inr doc \<and> redecode (dec_slice (dec_ptr dec_LvolConnectResp zero_LvolConnectResp) None) [] doc =
      Inr [Some (path_info ''10.0.0.1'' 4420), Some (path_info ''10.0.0.2'' 4421)]" by (cases ?two) auto
qed

theorem monitor_restores_lost_path_witness:
  "\<exists>w2. nodesLoop demo_env demo_node ''v-1'' (listed ''nvme0'' ''optimized'')
      \<lparr>ni_NodeID = ''n1'', ni_Nodes = [''n1'', ''n2''], ni_Status = []\<rparr> ([''n1''] @ ''n2'' # [])
      (demo_state [online_reply, two_connections_reply] []) =
    connectViaNVMe demo_env (path_info ''10.0.0.2'' 4421) 60 w2"
proof -
  let ?w = "demo_state [online_reply, two_connections_reply] []"
  obtain w1 tr where w1: "isNodeOnline demo_env demo_node ''n2'' ?w = (Ret True, w1)"
    and "w1 = demo_state [two_connections_reply] tr"
    using monitor_replies(1) by (auto simp: isNodeOnline_def prog_simps demo_simps)
  moreover obtain w2 where "fetchLvolConnection demo_env demo_node ''v-1'' (demo_state [two_connections_reply] tr) =
      (Ret (Inr (Some (path_info ''10.0.0.1'' 4420) # Some (path_info ''10.0.0.2'' 4421) # [])), w2)"
    using monitor_replies(2) by (auto simp: fetchLvolConnection_def prog_simps demo_simps)
  ultimately show ?thesis
    using monitor_restores_lost_path [of "\<lparr>ni_NodeID = ''n1'', ni_Nodes = [''n1'', ''n2''], ni_Status = []\<rparr>" "[''n1'']"
        "listed ''nvme0'' ''optimized''" "''n2''" demo_env demo_node ?w w1 "''v-1''" "path_info ''10.0.0.1'' 4420"
        "path_info ''10.0.0.2'' 4421" "[]" w2 "[]"]
    by (auto simp: listed_def)
qed

lemmas fetch_free = keeps_fetch(1,3,5) [THEN quiet_free(1)] keeps_fetch(1,3,5) [THEN quiet_free(2)]

lemma nodesLoop_connects:
  "spends connects 1 (nodesLoop E sbc lvolID p nodeInfo nodes)" "spends slept 0 (nodesLoop E sbc lvolID p nodeInfo nodes)"
proof -
  have conn: "spends connects 1 (connectViaNVMe E c tmo)" "spends slept 0 (connectViaNVMe E c tmo)" for E :: "'x env" and c tmo
    unfolding connectViaNVMe_def
    by (rule spends_retry [where k = 1]; simp add: cost_def) (rule spends_retry [where k = 0]; simp add: cost_def)
  have disc: "spends connects 0 (disconnectViaNVMe E p)" "spends slept 0 (disconnectViaNVMe E p)" for E :: "'x env"
    unfolding disconnectViaNVMe_def by (rule spends_retry [where k = 0]; simp add: cost_def)+
  show "spends connects 1 (nodesLoop E sbc lvolID p nodeInfo nodes)"
  proof (induction nodes)
    case (Cons n nodes)
    then show ?case unfolding nodesLoop.simps Let_def
      by (intro spends_rules spends_bindP [where a = 0 and b = 1] spends_bindE [where a = 0 and b = 1]
          fetch_free conn disc Cons) simp_all
  qed (simp add: spends_ret)
  show "spends slept 0 (nodesLoop E sbc lvolID p nodeInfo nodes)"
  proof (induction nodes)
    case (Cons n nodes)
    then show ?case unfolding nodesLoop.simps Let_def
      by (intro spends_rules spends_bindP [where a = 0 and b = 0] spends_bindE [where a = 0 and b = 0]
          fetch_free conn disc Cons) simp_all
  qed (simp add: spends_ret)
qed

text \<open>
  For one lost path the monitor runs at most one connect command and never waits, however many
  nodes the volume has and whatever they answer.
\<close>

theorem monitor_connects_at_most_once:
  "spends connects 1 (checkOnlineNode E clusterID lvolID p) \<and> spends slept 0 (checkOnlineNode E clusterID lvolID p)"
  unfolding checkOnlineNode_def
  by (intro conjI spends_bindE [where a = 0 and b = 1] spends_bindE [where a = 0 and b = 0] spends_mapErr
      nodesLoop_connects quiet_free keeps_client_quiet keeps_fetch) simp_all

section \<open>Healthy volumes\<close>

text \<open>
  What a round does that finds nothing to reconnect: it lists devices and subsystems, and pauses at the end.
\<close>

fun looks :: "event \<Rightarrow> bool" where
  "looks (EvCmd (nvme # verb # _)) \<longleftrightarrow> nvme = ''nvme'' \<and> verb \<in> {''list'', ''list-subsys''}"
| "looks (EvSleep n) \<longleftrightarrow> n = 3"
| "looks _ \<longleftrightarrow> False"

text \<open>A subsystem the monitor has no business with: none of a volume, or with another number of paths than one.\<close>

definition healthy :: "subsystem \<Rightarrow> bool" where
  "healthy s \<longleftrightarrow> snd (getLvolIDFromNQN (su_NQN s)) = [] \<or> length (su_Paths s) \<noteq> 1"

definition shows_healthy :: "'x env \<Rightarrow> bool" where
  "shows_healthy E \<longleftrightarrow> (\<forall>d x out y hosts. run_cmd E [''nvme'', ''list-subsys'', ''-o'', ''json'', d] None x = (CmdDone None out, y) \<longrightarrow>
     json_unmarshal (dec_slice dec_subsystemResponse []) [] out = Inr hosts \<longrightarrow> (\<forall>host \<in> set hosts. \<forall>s \<in> set host. healthy s))"

lemma keeps_looks:
  "keeps (extends looks) (getNVMeDeviceInfos E)" "keeps (extends looks) (getSubsystemsForDevice E d)"
  unfolding getNVMeDeviceInfos_def getSubsystemsForDevice_def by (intro tr.keeps_rules keeps_output; simp)+

lemma getSubsystemsForDevice_Inr:
  assumes "shows_healthy E" and "getSubsystemsForDevice E d w = (Ret (Inr hosts), w')" and "host \<in> set hosts" and "s \<in> set host"
  shows "healthy s"
proof -
  have "\<exists>out y. run_cmd E [''nvme'', ''list-subsys'', ''-o'', ''json'', d] None (w_ext w) = (CmdDone None out, y) \<and>
      json_unmarshal (dec_slice dec_subsystemResponse []) [] out = Inr hosts"
    using assms(2) unfolding getSubsystemsForDevice_def cmd_output_def exec_run_def service_def
    by (auto simp: ret_def elim!: bindE_InrE bindP_RetE dest!: mapErr_InrE split: prod.splits cmd_result.splits option.splits sum.splits)
  then show ?thesis using assms(1,3,4) unfolding shows_healthy_def by blast
qed

lemma healthy_untouched: "healthy s \<Longrightarrow> reconnectSubsystem E device s = ret ()"
  by (auto simp: healthy_def reconnectSubsystem_def split: prod.splits)

text \<open>
  C29. The monitor leaves healthy volumes alone: as long as every subsystem of a volume that is listed has several paths
  or none, the monitor only lists devices and subsystems and pauses; it connects nothing, disconnects nothing and
  sends the cluster no request, however many rounds it makes.
\<close>

theorem monitor_leaves_healthy_alone:
  assumes "shows_healthy E"
  shows "keeps (extends looks) (MonitorConnection E n)"
proof (induction n)
  case (Suc n)
  have round: "keeps (extends looks) (bindP (getSubsystemsForDevice E d) (\<lambda>r. case r of Inl err \<Rightarrow> ret ()
      | Inr hosts \<Rightarrow> forP (\<lambda>host. forP (reconnectSubsystem E device) host) hosts))" for d device
  proof (rule tr.keeps_bindP_result [OF keeps_looks(2)])
    fix r w w'
    assume run: "getSubsystemsForDevice E d w = (Ret r, w')"
    have "keeps (extends looks) (reconnectSubsystem E device s)" if "r = Inr hosts" "host \<in> set hosts" "s \<in> set host" for hosts host s
      by (simp add: healthy_untouched [OF getSubsystemsForDevice_Inr [OF assms run [unfolded that(1)] that(2,3)]] tr.keeps_ret)
    then show "keeps (extends looks) (case r of Inl err \<Rightarrow> ret () | Inr hosts \<Rightarrow>
        forP (\<lambda>host. forP (reconnectSubsystem E device) host) hosts)"
      by (cases r) (auto intro!: tr.keeps_forP_set tr.keeps_ret simp del: forP.simps)
  qed
  have "keeps (extends looks) (reconnectSubsystems E)"
    unfolding reconnectSubsystems_def
    by (intro tr.keeps_bindE tr.keeps_mapErr keeps_looks(1) tr.keeps_bindP [OF tr.keeps_forP [OF round] tr.keeps_ret])
  then show ?case unfolding MonitorConnection.simps Sleep_def
    by (intro tr.keeps_rules keeps_service_tr Suc.IH) simp_all
qed (simp add: tr.keeps_ret)

theorem monitor_leaves_healthy_alone_witness: "keeps (extends looks) (MonitorConnection two_path_env 1000)"
proof (rule monitor_leaves_healthy_alone)
  have "snd (getLvolIDFromNQN ''n'') = []" by code_simp
  then show "shows_healthy two_path_env"
    unfolding shows_healthy_def using two_paths_decode by (auto simp: two_path_env_def healthy_def)
qed

section \<open>Commands that fail\<close>

definition always_fails :: "'x env \<Rightarrow> string list \<Rightarrow> bool" where
  "always_fails E cmd \<longleftrightarrow> (\<forall>x. \<exists>err out y. run_cmd E cmd None x = (CmdDone (Some err) out, y))"

lemma cmd_output_fails:
  assumes "always_fails E cmd"
  shows "\<exists>err w'. cmd_output E cmd w = (Ret (Inl err), w') \<and> w_trace w' = w_trace w @ [EvCmd cmd]"
proof -
  obtain err out y where "run_cmd E cmd None (w_ext w) = (CmdDone (Some err) out, y)"
    using assms unfolding always_fails_def by blast
  then show ?thesis by (simp add: cmd_output_def exec_run_def service_def prog_simps)
qed

text \<open>
  While \<open>nvme list\<close> fails, the monitor does not pause: its rounds follow each other without a sleep, so a node
  without a working nvme-cli runs the command in a busy loop.
\<close>

theorem monitor_spins_on_error:
  assumes "always_fails E [''nvme'', ''list'', ''-o'', ''json'']"
  shows "\<exists>w'. MonitorConnection E n w = (Ret (), w') \<and>
    w_trace w' = w_trace w @ replicate n (EvCmd [''nvme'', ''list'', ''-o'', ''json''])"
proof (induction n arbitrary: w)
  case (Suc n)
  obtain err w1 where "cmd_output E [''nvme'', ''list'', ''-o'', ''json''] w = (Ret (Inl err), w1)"
    and tr: "w_trace w1 = w_trace w @ [EvCmd [''nvme'', ''list'', ''-o'', ''json'']]"
    using cmd_output_fails [OF assms] by blast
  then have "MonitorConnection E (Suc n) w = MonitorConnection E n w1"
    by (simp add: reconnectSubsystems_def getNVMeDeviceInfos_def prog_simps)
  then show ?case using Suc.IH [of w1] tr by auto
qed (simp add: ret_def)

definition broken_env :: "(goerr + http_response) list env" where
  "broken_env = demo_env\<lparr>run_cmd := \<lambda>_ _ x. (CmdDone (Some (ErrorString ''exit status 1'')) [], x)\<rparr>"

lemma broken_fails: "always_fails broken_env cmd"
  by (simp add: always_fails_def broken_env_def)

theorem monitor_spins_on_error_witness:
  "\<exists>w'. MonitorConnection broken_env 1000 (demo_world [] []) = (Ret (), w') \<and>
    w_trace w' = replicate 1000 (EvCmd [''nvme'', ''list'', ''-o'', ''json''])"
  using monitor_spins_on_error [OF broken_fails, of 1000 "demo_world [] []"] by (simp add: demo_world_def)

text \<open>
  The check that a subsystem still has a single path takes five failures of \<open>nvme list-subsys\<close> for five
  confirmations, and does not wait between them.
\<close>

theorem failed_checks_confirm:
  assumes "always_fails E [''nvme'', ''list-subsys'', ''-o'', ''json'', devicePath]"
  shows "\<exists>w'. confirmSubsystemStillSinglePath E s devicePath w = (Ret True, w') \<and>
    w_trace w' = w_trace w @ replicate 5 (EvCmd [''nvme'', ''list-subsys'', ''-o'', ''json'', devicePath])"
proof -
  let ?cmd = "[''nvme'', ''list-subsys'', ''-o'', ''json'', devicePath]"
  have "\<exists>w'. confirmLoop E nqn devicePath n w = (Ret True, w') \<and> w_trace w' = w_trace w @ replicate n (EvCmd ?cmd)"
    for nqn n
  proof (induction n arbitrary: w)
    case (Suc n)
    obtain err w1 where "cmd_output E ?cmd w = (Ret (Inl err), w1)" and tr: "w_trace w1 = w_trace w @ [EvCmd ?cmd]"
      using cmd_output_fails [OF assms] by blast
    then have "confirmLoop E nqn devicePath (Suc n) w = confirmLoop E nqn devicePath n w1"
      by (simp add: getSubsystemsForDevice_def prog_simps)
    then show ?case using Suc.IH [of w1] tr by auto
  qed (simp add: ret_def)
  then show ?thesis unfolding confirmSubsystemStillSinglePath_def by blast
qed

theorem failed_checks_confirm_witness:
  "\<exists>w'. confirmSubsystemStillSinglePath broken_env s ''/dev/nvme0n1'' (demo_world [] []) = (Ret True, w')"
  using failed_checks_confirm [OF broken_fails] by blast

end
