(* ===== verification/ServiceErrors.thy ===== *)
theory ServiceErrors
  imports Server Staging
begin

text \<open>What errors the node service answers with, over all its requests.\<close>

lemma fails_answer [fails_rules]: "fails_with P m \<Longrightarrow> fails_with P (answer f m)"
  unfolding answer_def by (intro fails_rules)

lemma fails_deref [fails_rules]: "(\<And>s. fails_with P (f s)) \<Longrightarrow> fails_with P (deref p f)"
  by (cases p) (simp_all add: deref_def nil_deref_def fails_panic)

text \<open>
  C24. Every error that a request to the node service is answered with is a gRPC status, whatever call failed and with
  whatever error: \<open>Unimplemented\<close> for the statistics of a volume, \<open>Internal\<close> for every other request. No bare error
  reaches the caller.
\<close>

theorem node_errors_are_status:
  "fails_with (status_error (if req = ReqNodeGetVolumeStats then Unimplemented else Internal)) (served E svs (ToNode req))"
  by (cases req)
    (auto simp: ns_NodeGetVolumeStats_def status_error_def intro!: fails_rules node_handlers_internal)

end
