(* ===== verification/Spec2Isabelle.thy ===== *)
theory Spec2Isabelle
  imports Concurrency Lifecycle Unstaging Publishing Snapshots ClusterScope CommandLine DeviceNames MonitorFacts
    ServiceErrors
begin

text \<open>
  Verification of the simplyblock CSI driver.

  The program is a Kubernetes storage plugin. Its controller service creates, deletes, snapshots, clones and
  expands volumes by requests to the REST interface of a storage cluster; its node service connects the volumes
  of a node with nvme-cli, mounts them and publishes them to containers; a background loop reconnects lost paths.
  All of it is modelled but the libraries it calls.

  \<^bold>\<open>How a program is modelled.\<close> A Go function is a function on a \<open>world\<close> (theory \<open>Host\<close>): the outside state of
  any type, the files of the container, and the trace of the calls made so far (requests, commands, mounts, locks,
  sleeps). Its result is a value, an error (\<open>goerr + T\<close> stands for \<open>(T, error)\<close>) or a panic (theory \<open>Prelude\<close>).
  What is not code of the repository, the HTTP transport, the Kubernetes client, nvme-cli, the mount library, the
  device files of the kernel, the clock, \<open>sort.Slice\<close> on more than twelve elements, is a field of the record \<open>env\<close>,
  an argument of every definition that uses it. Any of these may fail at any time, and so may any file operation; a
  recursive removal that fails may leave part of the tree behind.

  \<^bold>\<open>Theories, in the order of their layers.\<close>
  \<^item> \<open>Prelude\<close>: errors, sequencing, \<open>defer\<close>, effects of programs (locale \<open>effect_rel\<close>), encodings (locale \<open>codec\<close>),
    Go maps as association lists.
  \<^item> \<open>GoStrings\<close>, \<open>GoJson\<close>, \<open>JsonData\<close>: of Go's standard library what the driver uses: \<open>strings\<close>, \<open>strconv\<close>, UTF-8,
    and \<open>encoding/json\<close> as a printer, a reader, and decoders into typed values, with the round trip of the two;
    \<open>JsonTyping\<close>: what a successful decoding guarantees.
  \<^item> \<open>Host\<close>: paths, the file tree, the record \<open>env\<close> and the calls that leave an event in the trace.
  \<^item> \<open>VolumeLocks\<close> (\<^verbatim>\<open>pkg/util/idlocker.go\<close>): the table of mutexes as a step relation of any number of goroutines
    (locale \<open>exclusive_lock\<close>), \<open>TryLock\<close> of \<^verbatim>\<open>pkg/util/util.go\<close>, and the lock bracket of a handler. \<open>LockSpec\<close>: the
    abstract lock that the table refines.
  \<^item> \<open>UtilBase\<close>, \<open>DeviceNames\<close> (\<^verbatim>\<open>pkg/util/util.go\<close>): unit conversion, configuration files, the stash of volume
    contexts; the search for device names in sysfs, which
    takes the first free function of a reference search.
  \<^item> \<open>RpcClient\<close> (\<^verbatim>\<open>pkg/util/jsonrpc.go\<close>), \<open>Nvmf\<close> (\<^verbatim>\<open>pkg/util/nvmf.go\<close>): requests to the cluster, its answers and errors;
    the operations offered to the services.
  \<^item> \<open>Initiator\<close> (\<^verbatim>\<open>pkg/util/initiator.go\<close>): connecting, disconnecting, waiting for devices, the connection monitor.
    \<open>Costs\<close>, \<open>InitiatorFacts\<close>, \<open>InitiatorPaths\<close>, \<open>MonitorFacts\<close>: what these do and what they cost.
  \<^item> \<open>CsiCommon\<close> (\<^verbatim>\<open>pkg/csi-common\<close>, \<^verbatim>\<open>pkg/spdk/identityserver.go\<close>): driver object, capabilities, default servers, endpoint,
    the choice of services to register.
  \<^item> \<open>Controller\<close> (\<^verbatim>\<open>pkg/spdk/controllerserver.go\<close>): the controller service. \<open>ControllerFacts\<close>, \<open>Creation\<close>,
    \<open>ControllerErrors\<close>: its locks and requests, identifiers, successful creation; the request that creates a volume;
    creation of what exists, deletion of what does not. \<open>Snapshots\<close>: taking and deleting snapshots, volumes made from
    them, and the cluster asked for their connections. \<open>ClusterScope\<close>: every request goes to the cluster that the
    identifier names, with credentials of that cluster.
  \<^item> \<open>Node\<close> (\<^verbatim>\<open>pkg/spdk/nodeserver.go\<close>): the node service. \<open>NodeFacts\<close>, \<open>Staging\<close>: its locks and waiting times, errors,
    idempotence, and the context that staging leaves for the later calls. \<open>Publishing\<close>: what publishing does with a
    staged block device, and what unpublishing leaves.
  \<^item> \<open>Driver\<close> (\<^verbatim>\<open>pkg/spdk/driver.go\<close>, \<^verbatim>\<open>cmd/main.go\<close>, \<^verbatim>\<open>pkg/util/config.go\<close>): the configuration and \<open>Run\<close>.
    \<open>CommandLine\<close>: \<open>init\<close> with the package \<open>flag\<close> as far as it is used, and \<open>main\<close> up to the point where the driver
    listens; the relation \<open>flags_make\<close> is the grammar of command lines, and the configuration is read off it by a table of
    meanings that is independent of the flags the program registers.
  \<^item> \<open>Server\<close>: the methods of the three servers, own or of the default server they embed, as one function from requests to
    answers; what a request leaves in the trace, and which requests crash a driver, at once or later, that was not configured
    for the service they are sent to. \<open>ServiceErrors\<close>: the status of every error of the node service, over all of its
    requests.
  \<^item> \<open>Concurrency\<close>: any number of goroutines that serve requests with their steps interleaved over the lock table: no
    deadlock, and what the requests naming a volume do, expansion apart, which takes no lock, is a
    sequence of whole runs, one request after the other.
  \<^item> \<open>EndToEnd\<close>: a volume from its creation by the controller to the initiator a node makes for it, for every type a storage
    class can ask for. \<open>Unstaging\<close>: on to
    its disconnection by the node that staged it, and what a failed unstaging leaves for the next attempt.
  \<^item> \<open>Lifecycle\<close> (\<^verbatim>\<open>pkg/csi-common/server.go\<close>): the server object with its wait group, and the end of the process.
  \<^item> \<open>Demo\<close>: an outside world on which the witnesses run the code.

  \<^bold>\<open>Loops.\<close> Loops over slices are structural. The retry and waiting loops count down the seconds or attempts of
  the code, which bounds them. The endless loop of the monitor is a function of the number of its rounds
  (\<open>MonitorConnection E n\<close>), and statements about it hold for every \<open>n\<close>. The search for a PCI function counts in
  \<open>uint32\<close> and takes fuel; \<open>physical_function_found\<close> proves how much is enough.

  \<^bold>\<open>Numbers and texts.\<close> \<open>int\<close> and \<open>int64\<close> values are integers with the wrap-around written out (\<open>wrap64\<close>); counters of
  type \<open>uint32\<close> are words. Strings are lists of bytes.

  \<^bold>\<open>Not modelled.\<close> Log output. The gRPC library. The flags that klog registers are a parameter of the command line. The bodies of the services
  a node calls (nvme-cli, mount, resize): their calls are events with the arguments the code gives them. A handler
  is a function of the world it starts in; in \<open>Concurrency\<close> a goroutine may leave any trace its request leaves from
  some world, which covers whatever the others do to the outside meanwhile, but relates their effects only through
  the locks. Paths are resolved without symbolic links, but for the device files, which are a parameter.
  Tests, examples and the deployment files are not part of the program.
\<close>

end
